(* ===== verification/Prelude.thy ===== *)
theory Prelude
  imports
    Main
    "HOL-Library.Word"
    "HOL-Library.Finite_Map"
    "HOL-Library.Multiset"
    "HOL-Library.Char_ord"
    "HOL-Library.List_Lexorder"
    "HOL-Library.Product_Lexorder"
begin

text \<open>
  What every component of the development shares: the collections the proofs rewrite with, the
  types that stand for Go's machine integers, instants, durations and maps, and generic lemmas on
  finite maps, on sorting by a key and on folds.

  Conventions.
  \<^item> A Go string is a \<^typ>\<open>string\<close>, a list of bytes; its order is the lexicographic one of
    \<^verbatim>\<open>List_Lexorder\<close>, which is Go's \<^verbatim>\<open><\<close> on strings.
  \<^item> A Go map is a finite map \<^typ>\<open>('k, 'v) fmap\<close>; a nil map reads as the empty one, so the two are
    identified. A nil slice is identified with the empty list.
  \<^item> \<^verbatim>\<open>uint64\<close>, \<^verbatim>\<open>uint32\<close> and \<^verbatim>\<open>uint16\<close> are words, so \<^verbatim>\<open>++\<close> wraps around as it does in Go.
  \<^item> \<^verbatim>\<open>time.Time\<close> is an integer, the nanoseconds since the Unix epoch; \<^verbatim>\<open>time.Duration\<close> is an
    integer in the \<^verbatim>\<open>int64\<close> range, with Go's saturation of \<^verbatim>\<open>Time.Sub\<close> and the wrap-around
    of \<^verbatim>\<open>int64\<close> addition written out.
  \<^item> A \<^verbatim>\<open>range\<close> over a map visits the keys in an order Go does not specify. An operation whose
    result depends on it takes the order as an argument; where the result does not depend on it
    (a sort on distinct keys follows), the sorted order stands for all of them.
\<close>

section \<open>Collections\<close>

named_theorems store_simps "unfolding rules of the registry operations"
named_theorems model_simps "rules on the accessors of the domain model"
named_theorems step_intros "introduction rules of the step relations"

section \<open>Machine types\<close>

type_synonym uint64 = "64 word"
type_synonym uint32 = "32 word"
type_synonym uint16 = "16 word"
type_synonym smap = "(string, string) fmap"

text \<open>Instants and durations, in nanoseconds.\<close>

type_synonym time = int
type_synonym duration = int

abbreviation (input) second :: duration where
  "second \<equiv> 1000000000"

definition max_duration :: duration where
  "max_duration = 9223372036854775807"

definition min_duration :: duration where
  "min_duration = - 9223372036854775808"

definition wrap64 :: "int \<Rightarrow> int" where
  "wrap64 x = (x + 9223372036854775808) mod 18446744073709551616 - 9223372036854775808"

definition time_Sub :: "time \<Rightarrow> time \<Rightarrow> duration" where
  "time_Sub t u = max min_duration (min max_duration (t - u))"

definition dur_add :: "duration \<Rightarrow> duration \<Rightarrow> duration" where
  "dur_add a b = wrap64 (a + b)"

text \<open>The zero \<^verbatim>\<open>time.Time\<close> is the first of January of year 1, UTC.\<close>

definition zeroTime :: time where
  "zeroTime = - 62135596800000000000"

abbreviation time_IsZero :: "time \<Rightarrow> bool" where
  "time_IsZero t \<equiv> t = zeroTime"

definition in_int64 :: "int \<Rightarrow> bool" where
  "in_int64 x \<longleftrightarrow> min_duration \<le> x \<and> x \<le> max_duration"

lemma wrap64_id: "in_int64 x \<Longrightarrow> wrap64 x = x"
  by (simp add: wrap64_def in_int64_def min_duration_def max_duration_def)

lemma in_int64_wrap64 [simp]: "in_int64 (wrap64 x)"
  by (simp add: wrap64_def in_int64_def min_duration_def max_duration_def)

lemma in_int64_time_Sub [simp]: "in_int64 (time_Sub t u)"
  by (simp add: time_Sub_def in_int64_def min_duration_def max_duration_def)

lemma time_Sub_exact: "in_int64 (t - u) \<Longrightarrow> time_Sub t u = t - u"
  by (simp add: time_Sub_def in_int64_def)

lemma time_Sub_mono: "t \<le> t' \<Longrightarrow> time_Sub t u \<le> time_Sub t' u"
  by (auto simp: time_Sub_def)

lemma time_Sub_anti: "u \<le> u' \<Longrightarrow> time_Sub t u' \<le> time_Sub t u"
  by (auto simp: time_Sub_def)

lemma time_Sub_self [simp]: "time_Sub t t = 0"
  by (simp add: time_Sub_def min_duration_def max_duration_def)

section \<open>The 64-bit index space\<close>

text \<open>
  An index of \<^typ>\<open>uint64\<close> has room for \<open>n\<close> more increments when adding \<open>n\<close> does not wrap. The
  monotonicity statements of the development are for indexes with room; without it the counter
  wraps to 0 as Go's does.
\<close>

definition room :: "uint64 \<Rightarrow> nat \<Rightarrow> bool" where
  "room w n \<longleftrightarrow> unat w + n < 18446744073709551616"

lemma room_0 [simp]: "room w 0"
  using unsigned_less [of w, where 'a = nat] by (simp add: room_def)

lemma room_mono: "room w n \<Longrightarrow> k \<le> n \<Longrightarrow> room w k"
  by (simp add: room_def)

lemma unat_add_room: "room w n \<Longrightarrow> unat (w + of_nat n) = unat w + n"
  by (simp add: room_def unat_word_ariths unat_of_nat)

lemma unat_Suc_room: "room w (Suc n) \<Longrightarrow> unat (w + 1) = Suc (unat w)"
  using unat_add_room [of w 1] by (simp add: room_def)

lemma room_Suc: "room w (Suc n) \<Longrightarrow> room (w + 1) n"
  by (simp add: room_def unat_Suc_room [of w n, unfolded room_def])

lemma less_Suc_room: "room w (Suc n) \<Longrightarrow> w < w + 1"
  by (simp add: word_less_nat_alt unat_Suc_room)

lemma le_add_room: "room w n \<Longrightarrow> w \<le> w + of_nat n"
  by (simp add: word_le_nat_alt unat_add_room)

section \<open>Finite maps\<close>

text \<open>Go's \<^verbatim>\<open>len\<close> of a map, and the keys and values a \<^verbatim>\<open>range\<close> visits.\<close>

definition fmlen :: "('k, 'v) fmap \<Rightarrow> nat" where
  "fmlen m = fcard (fmdom m)"

definition range_keys :: "('k::linorder, 'v) fmap \<Rightarrow> 'k list" where
  "range_keys m = sorted_list_of_fset (fmdom m)"

definition range_values :: "('k::linorder, 'v) fmap \<Rightarrow> 'v list" where
  "range_values m = map (\<lambda>k. the (fmlookup m k)) (range_keys m)"

definition range_order :: "('k, 'v) fmap \<Rightarrow> 'k list \<Rightarrow> bool" where
  "range_order m ks \<longleftrightarrow> distinct ks \<and> set ks = fmdom' m"

lemma fmlen_empty [simp]: "fmlen fmempty = 0"
  by (simp add: fmlen_def)

lemma fmlen_upd: "fmlen (fmupd k v m) = (if fmlookup m k = None then Suc (fmlen m) else fmlen m)"
  by (auto simp: fmlen_def fcard_finsert_if fmlookup_dom_iff)

lemma fmlen_drop: "fmlen (fmdrop k m) = (if fmlookup m k = None then fmlen m else fmlen m - 1)"
proof (cases "fmlookup m k")
  case None
  then have "fmdrop k m = m"
    by (intro fmap_ext) auto
  then show ?thesis using None by simp
next
  case (Some v)
  then show ?thesis
    by (simp add: fmlen_def fmlookup_dom_iff)
qed

lemma fmlen_eq_0 [simp]: "fmlen m = 0 \<longleftrightarrow> m = fmempty"
  by (metis fcard_0_eq fmdom_empty fmlen_def fmrestrict_fset_dom fmrestrict_fset_null)

lemma fmlen_drop_Some: "fmlookup m k = Some v \<Longrightarrow> fmlen m = Suc (fmlen (fmdrop k m))"
  using fmlen_eq_0 [of m] by (cases "fmlen m") (auto simp: fmlen_drop)

lemma set_range_keys [simp]: "set (range_keys m) = fmdom' m"
  by (simp add: range_keys_def fmdom'_alt_def)

lemma distinct_range_keys [simp]: "distinct (range_keys m)"
  by (simp add: range_keys_def sorted_list_of_fset.rep_eq)

lemma range_order_range_keys [simp]: "range_order m (range_keys m)"
  by (simp add: range_order_def)

lemma range_orderD:
  assumes "range_order m ks"
  shows "distinct ks" and "set ks = fmdom' m"
  using assms by (auto simp: range_order_def)

lemma range_keys_empty [simp]: "range_keys fmempty = []"
  by (simp add: range_keys_def sorted_list_of_fset.rep_eq)

lemma range_values_empty [simp]: "range_values fmempty = []"
  by (simp add: range_values_def)

lemma length_range_order: "range_order m ks \<Longrightarrow> length ks = fmlen m"
  by (metis distinct_card fcard.rep_eq fmdom'_alt_def fmlen_def range_order_def)

lemma mem_fmdom' [simp]: "k \<in> fmdom' m \<longleftrightarrow> fmlookup m k \<noteq> None"
  by (auto simp: fmlookup_dom'_iff)

lemma mem_fmdom [simp]: "k |\<in>| fmdom m \<longleftrightarrow> fmlookup m k \<noteq> None"
  by (auto simp: fmlookup_dom_iff)

lemma set_range_values: "set (range_values m) = {v. \<exists>k. fmlookup m k = Some v}"
  by (force simp: range_values_def)

section \<open>Sorting by a key\<close>

text \<open>
  \<^verbatim>\<open>sort.Slice\<close> is not stable, so its result is determined only where the keys are distinct. Then
  it is \<^const>\<open>sort_key\<close>, whatever the order of its input.
\<close>

lemma sorted_distinct_key_strict:
  "sorted (map f xs) \<Longrightarrow> distinct (map f xs) \<Longrightarrow> sorted_wrt (<) (map f xs)"
  by (simp add: strict_sorted_iff)

lemma distinct_map_sort_key [simp]: "distinct (map f (sort_key g xs)) = distinct (map f xs)"
  by (rule mset_eq_imp_distinct_iff) simp

text \<open>A list sorted strictly by a key is determined by its elements.\<close>

lemma sorted_key_unique:
  fixes f :: "'a \<Rightarrow> 'b::linorder"
  assumes "sorted_wrt (<) (map f xs)" "sorted_wrt (<) (map f ys)" "set xs = set ys"
  shows "xs = ys"
proof -
  have "map f xs = map f ys"
    using strict_sorted_equal [OF assms(2,1)] assms(3) by simp
  moreover have "inj_on f (set xs)"
    using assms(1) by (simp add: strict_sorted_iff distinct_map)
  ultimately show ?thesis
    using assms(3) by (metis map_inj_on Un_absorb)
qed

section \<open>Lists\<close>

lemma find_unique:
  assumes "x \<in> set xs" "P x" "\<And>y. y \<in> set xs \<Longrightarrow> P y \<Longrightarrow> y = x"
  shows "List.find P xs = Some x"
proof (cases "List.find P xs")
  case None
  with assms(1,2) show ?thesis by (simp add: find_None_iff)
next
  case (Some y)
  then have "y \<in> set xs" "P y" by (auto simp: find_Some_iff)
  with Some show ?thesis using assms(3) by blast
qed

lemma mset_map_distinct_eq:
  assumes "distinct xs" "distinct ys" "set xs = set ys"
  shows "mset (map f xs) = mset (map f ys)"
  using assms by (metis mset_map set_eq_iff_mset_eq_distinct)

lemma find_unique_key:
  assumes "distinct (map f xs)" "x \<in> set xs"
  shows "find (\<lambda>y. f y = f x) xs = Some x"
  using assms by (induction xs) (auto simp: image_iff)

end
