(* ===== verification/App.thy ===== *)
theory App
  imports Prelude
begin

text \<open>
  \<^verbatim>\<open>internal/app/app.go\<close>, the life of the process, and the components with a life of their own:
  the readiness gate (\<^verbatim>\<open>internal/observability/readiness.go\<close>), the gRPC server (\<^verbatim>\<open>internal/server/component.go\<close>), the
  HTTP server (\<^verbatim>\<open>internal/httpcomp\<close>) and the DNS server (\<^verbatim>\<open>internal/consuldns/component.go\<close>). A \<open>Stop\<close> takes the instant
  at which its context is cancelled and the instant at which it is called, and returns its error, the instant at which it returns
  and the state it leaves. How long the requests in flight take is a parameter. Where a
  timer and a cancellation fall on the same instant the cancellation is taken. When the window closes the process returns; what the
  abandoned stop may still do before it exits is left out.
\<close>

section \<open>Components and the shutdown\<close>

datatype stop_error = Canceled | StopFailed string

record 's Component =
  cm_Name :: string
  cm_Stop :: "time \<Rightarrow> time \<Rightarrow> 's \<Rightarrow> stop_error option \<times> time \<times> 's"

datatype run_error = ErrShutdownTimeout | StopErrors "(string \<times> stop_error) list" | ComponentFailed string string

text \<open>The loop of \<^verbatim>\<open>stopComponents\<close>: it goes on while the window is open; a Stop that reaches the deadline is the last.\<close>

fun stop_loop :: "time \<Rightarrow> 's Component list \<Rightarrow> time \<Rightarrow> 's \<Rightarrow> (string \<times> stop_error) list \<times> bool \<times> time \<times> 's" where
  "stop_loop deadline [] now s = ([], True, now, s)"
| "stop_loop deadline (c # cs) now s =
     (case cm_Stop c deadline now s of (err, now', s') \<Rightarrow>
        if now' \<ge> deadline then ([], False, deadline, s')
        else
          (let errs = (case err of Some (StopFailed e) \<Rightarrow> [(cm_Name c, StopFailed e)] | _ \<Rightarrow> []) in
           case stop_loop deadline cs now' s' of (errs', ok, now'', s'') \<Rightarrow> (errs @ errs', ok, now'', s'')))"

definition stopComponents :: "duration \<Rightarrow> 's Component list \<Rightarrow> time \<Rightarrow> 's \<Rightarrow> run_error option \<times> time \<times> 's" where
  "stopComponents shutdownTimeout components now s =
     (if components = [] then (None, now, s)
      else case stop_loop (now + shutdownTimeout) (rev components) now s of (errs, ok, now', s') \<Rightarrow>
        if ok then ((if errs = [] then None else Some (StopErrors errs)), now', s')
        else (Some ErrShutdownTimeout, now', s'))"

text \<open>
  \<^verbatim>\<open>Run\<close> from the moment the group's context is done: what the \<^verbatim>\<open>Start\<close>s returned, in the order in which they did, with
  \<open>None\<close> for nil or a cancellation.
\<close>

fun first_failure :: "(string \<times> string option) list \<Rightarrow> run_error option" where
  "first_failure [] = None"
| "first_failure ((name, Some e) # rs) = Some (ComponentFailed name e)"
| "first_failure ((name, None) # rs) = first_failure rs"

definition Run :: "duration \<Rightarrow> 's Component list \<Rightarrow> (string \<times> string option) list \<Rightarrow> time \<Rightarrow> 's \<Rightarrow> run_error option \<times> time \<times> 's" where
  "Run shutdownTimeout components returned now s =
     (case stopComponents shutdownTimeout components now s of (stopErr, now', s') \<Rightarrow>
        case first_failure returned of Some err \<Rightarrow> (Some err, now', s') | None \<Rightarrow> (stopErr, now', s'))"

definition WithShutdownTimeout :: "duration \<Rightarrow> duration" where
  "WithShutdownTimeout d = (if d > 0 then d else 15 * second)"

section \<open>Readiness\<close>

record Readiness =
  rd_services :: "string list"
  rd_status :: "(string, bool) fmap"

definition set_status :: "bool \<Rightarrow> Readiness \<Rightarrow> Readiness" where
  "set_status serving r = r\<lparr>rd_status := fold (\<lambda>s st. fmupd s serving st) (rd_services r) (rd_status r)\<rparr>"

definition NewReadiness :: "string list \<Rightarrow> Readiness" where
  "NewReadiness services = set_status False \<lparr>rd_services = services, rd_status = fmempty\<rparr>"

definition SetReady :: "bool \<Rightarrow> Readiness \<Rightarrow> Readiness" where
  "SetReady ready r = set_status ready r"

section \<open>The gRPC server\<close>

definition AgentService_name :: string where "AgentService_name = ''discovery.v1.AgentService''"

record GrpcServer =
  gs_readiness :: Readiness
  gs_drainWindow :: duration
  gs_startNotRdy :: bool
  gs_accepting :: bool

definition Grpc_NewComponent :: "duration \<Rightarrow> bool \<Rightarrow> GrpcServer" where
  "Grpc_NewComponent drainWindow startNotReady =
     \<lparr>gs_readiness = NewReadiness [[], AgentService_name], gs_drainWindow = drainWindow, gs_startNotRdy = startNotReady, gs_accepting = False\<rparr>"

definition Grpc_Start :: "bool \<Rightarrow> GrpcServer \<Rightarrow> bool \<times> GrpcServer" where
  "Grpc_Start bound c =
     (if \<not> bound then (False, c)
      else
        (let c = (if \<not> gs_startNotRdy c then c\<lparr>gs_readiness := SetReady True (gs_readiness c)\<rparr> else c)
         in (True, c\<lparr>gs_accepting := True\<rparr>)))"

definition Grpc_Stop :: "duration \<Rightarrow> time \<Rightarrow> time \<Rightarrow> GrpcServer \<Rightarrow> stop_error option \<times> time \<times> GrpcServer" where
  "Grpc_Stop inflight cancelled now c =
     (let c = c\<lparr>gs_readiness := SetReady False (gs_readiness c)\<rparr>;
          drained = (if gs_drainWindow c > 0 then now + gs_drainWindow c else now) in
      if gs_drainWindow c > 0 \<and> cancelled \<le> drained then (Some Canceled, max now cancelled, c\<lparr>gs_accepting := False\<rparr>)
      else
        (let c = c\<lparr>gs_accepting := False\<rparr> in
         if cancelled \<le> drained + inflight then (Some Canceled, max drained cancelled, c)
         else (None, drained + inflight, c)))"

section \<open>The HTTP and DNS servers\<close>

text \<open>
  \<^verbatim>\<open>http.Server.Shutdown\<close> closes the listener and waits for the requests in flight, or for its context;
  it does not interrupt a request.
\<close>

definition Http_Stop :: "duration \<Rightarrow> time \<Rightarrow> time \<Rightarrow> stop_error option \<times> time" where
  "Http_Stop inflight cancelled now =
     (if cancelled \<le> now + inflight then (Some Canceled, max now cancelled) else (None, now + inflight))"

definition Dns_Stop :: "duration \<Rightarrow> duration \<Rightarrow> time \<Rightarrow> time \<Rightarrow> stop_error option \<times> time" where
  "Dns_Stop udp tcp cancelled now =
     (let now = (if cancelled \<le> now + udp then max now cancelled else now + udp)
      in (None, (if cancelled \<le> now + tcp then max now cancelled else now + tcp)))"

section \<open>What the shutdown does\<close>

text \<open>The stops in order, with no deadline in the way.\<close>

fun stop_all :: "time \<Rightarrow> 's Component list \<Rightarrow> time \<Rightarrow> 's \<Rightarrow> time \<times> 's" where
  "stop_all deadline [] now s = (now, s)"
| "stop_all deadline (c # cs) now s = (case cm_Stop c deadline now s of (err, now', s') \<Rightarrow> stop_all deadline cs now' s')"

lemma stop_loop_complete: "stop_loop deadline cs now s = (errs, True, now', s') \<Longrightarrow> stop_all deadline cs now s = (now', s')"
  by (induction cs arbitrary: errs now s) (auto split: prod.splits if_splits)

text \<open>Stops never return before they are called.\<close>

definition forward :: "'s Component \<Rightarrow> bool" where
  "forward c \<longleftrightarrow> (\<forall>deadline now s err now' s'. cm_Stop c deadline now s = (err, now', s') \<longrightarrow> now \<le> now')"

lemma forwardD: "forward c \<Longrightarrow> cm_Stop c deadline now s = (err, now', s') \<Longrightarrow> now \<le> now'"
  unfolding forward_def by blast

lemma stop_all_forward: "\<forall>c\<in>set cs. forward c \<Longrightarrow> now \<le> fst (stop_all deadline cs now s)"
proof (induction cs arbitrary: now s)
  case (Cons c cs)
  obtain err now' s' where c: "cm_Stop c deadline now s = (err, now', s')" by (cases "cm_Stop c deadline now s")
  have "now \<le> now'" using Cons.prems forwardD [OF _ c] by simp
  moreover have "now' \<le> fst (stop_all deadline cs now' s')" using Cons by simp
  ultimately show ?case using c by simp
qed simp

lemma stop_loop_window:
  assumes "\<forall>c\<in>set cs. forward c" and "fst (stop_all deadline cs now s) < deadline"
  shows "\<exists>errs. stop_loop deadline cs now s = (errs, True, stop_all deadline cs now s)"
  using assms
proof (induction cs arbitrary: now s)
  case (Cons c cs)
  obtain err now' s' where c: "cm_Stop c deadline now s = (err, now', s')" by (cases "cm_Stop c deadline now s")
  have "now' \<le> fst (stop_all deadline cs now' s')" using Cons.prems(1) by (simp add: stop_all_forward)
  moreover have "fst (stop_all deadline cs now' s') < deadline" using Cons.prems(2) c by simp
  moreover obtain errs where "stop_loop deadline cs now' s' = (errs, True, stop_all deadline cs now' s')"
    using Cons.IH [of now' s'] Cons.prems c by auto
  ultimately show ?case using c by (auto split: prod.splits)
qed simp

lemma stop_loop_append:
  "stop_loop deadline (cs @ ds) now s =
     (case stop_loop deadline cs now s of (errs, ok, now', s') \<Rightarrow>
        if \<not> ok then (errs, ok, now', s')
        else case stop_loop deadline ds now' s' of (errs', ok', now'', s'') \<Rightarrow> (errs @ errs', ok', now'', s''))"
  by (induction cs arbitrary: now s) (auto split: prod.splits)

lemma stop_all_append:
  "stop_all deadline (cs @ ds) now s = (case stop_all deadline cs now s of (now', s') \<Rightarrow> stop_all deadline ds now' s')"
  by (induction cs arbitrary: now s) (auto split: prod.splits)

end
