(* ===== verification/CertReload.thy ===== *)
theory CertReload
  imports Prelude
begin

text \<open>
  \<^verbatim>\<open>internal/cred/reload.go\<close> and the loading part of \<^verbatim>\<open>credentials.go\<close>: the certificate pair that follows its files. The
  disk is a parameter: what parsing a pair of files gives (the TLS library), when a file was modified, what
  an authority file holds. It may change between any two calls, so an operation takes the disk
  as each of its calls meets it.
\<close>

section \<open>The reloader\<close>

record Disk =
  dk_pair :: "string \<Rightarrow> string \<Rightarrow> string option"
  dk_mtime :: "string \<Rightarrow> time option"
  dk_ca :: "string \<Rightarrow> nat option"

record certReloader =
  cr_certFile :: string
  cr_keyFile :: string
  cr_cached :: "string option"
  cr_modCert :: time
  cr_modKey :: time

definition reload :: "Disk \<Rightarrow> Disk \<Rightarrow> certReloader \<Rightarrow> bool \<times> certReloader" where
  "reload load stat r =
     (case dk_pair load (cr_certFile r) (cr_keyFile r) of
        None \<Rightarrow> (False, r)
      | Some cert \<Rightarrow>
          (True, r\<lparr>cr_cached := Some cert,
             cr_modCert := (case dk_mtime stat (cr_certFile r) of Some t \<Rightarrow> t | None \<Rightarrow> cr_modCert r),
             cr_modKey := (case dk_mtime stat (cr_keyFile r) of Some t \<Rightarrow> t | None \<Rightarrow> cr_modKey r)\<rparr>))"

definition newCertReloader :: "Disk \<Rightarrow> Disk \<Rightarrow> string \<Rightarrow> string \<Rightarrow> certReloader option" where
  "newCertReloader load stat certFile keyFile =
     (case reload load stat \<lparr>cr_certFile = certFile, cr_keyFile = keyFile, cr_cached = None, cr_modCert = zeroTime, cr_modKey = zeroTime\<rparr> of
        (True, r) \<Rightarrow> Some r
      | (False, r) \<Rightarrow> None)"

definition certs_changed :: "Disk \<Rightarrow> certReloader \<Rightarrow> bool" where
  "certs_changed d r =
     (case (dk_mtime d (cr_certFile r), dk_mtime d (cr_keyFile r)) of
        (Some c, Some k) \<Rightarrow> c \<noteq> cr_modCert r \<or> k \<noteq> cr_modKey r
      | _ \<Rightarrow> False)"

definition current :: "Disk \<Rightarrow> Disk \<Rightarrow> Disk \<Rightarrow> certReloader \<Rightarrow> string option \<times> certReloader" where
  "current look load stat r =
     (let r = (if certs_changed look r then snd (reload load stat r) else r) in (cr_cached r, r))"

section \<open>Credentials\<close>

datatype tls_error = PairNotLoaded | CANotRead | NoCertificates | MutualWithoutCA

record tlsCreds =
  tc_mutual :: bool
  tc_reloader :: certReloader
  tc_pool :: "nat option"

definition loadCAPool :: "Disk \<Rightarrow> string \<Rightarrow> tls_error + nat" where
  "loadCAPool d path =
     (case dk_ca d path of
        None \<Rightarrow> Inl CANotRead
      | Some n \<Rightarrow> if n = 0 then Inl NoCertificates else Inr n)"

definition NewTLS :: "Disk \<Rightarrow> string \<Rightarrow> string \<Rightarrow> string \<Rightarrow> bool \<Rightarrow> tls_error + tlsCreds" where
  "NewTLS d certFile keyFile caFile mutual =
     (case newCertReloader d d certFile keyFile of
        None \<Rightarrow> Inl PairNotLoaded
      | Some r \<Rightarrow>
          (let built = (\<lambda>pool. if mutual \<and> pool = None then Inl MutualWithoutCA
                          else Inr \<lparr>tc_mutual = mutual, tc_reloader = r, tc_pool = pool\<rparr>) in
           if caFile \<noteq> []
           then (case loadCAPool d caFile of Inl err \<Rightarrow> Inl err | Inr n \<Rightarrow> built (Some n))
           else built None))"

section \<open>Rotation\<close>

text \<open>A sequence of handshakes, each with the disk as it finds it.\<close>

fun handshakes :: "(Disk \<times> Disk \<times> Disk) list \<Rightarrow> certReloader \<Rightarrow> certReloader" where
  "handshakes [] r = r"
| "handshakes ((look, load, stat) # ds) r = handshakes ds (snd (current look load stat r))"

lemma current_files [simp]: "cr_certFile (snd (current a b c r)) = cr_certFile r" "cr_keyFile (snd (current a b c r)) = cr_keyFile r"
  by (auto simp: current_def reload_def Let_def split: option.splits)

lemma handshakes_files [simp]: "cr_certFile (handshakes ds r) = cr_certFile r" "cr_keyFile (handshakes ds r) = cr_keyFile r"
  by (induction ds r rule: handshakes.induct) simp_all

text \<open>
  What a handshake serves is always a pair that parsed: the one it had, or one that a load of the two files gave.
\<close>

lemma current_valid:
  "cr_cached r = Some cert \<Longrightarrow> \<exists>cert'. fst (current look load stat r) = Some cert' \<and> cr_cached (snd (current look load stat r)) = Some cert' \<and>
     (cert' = cert \<or> dk_pair load (cr_certFile r) (cr_keyFile r) = Some cert')"
  by (auto simp: current_def reload_def Let_def split: option.splits)

lemma handshakes_valid:
  "cr_cached r = Some cert \<Longrightarrow> \<exists>cert'. cr_cached (handshakes ds r) = Some cert' \<and>
     (cert' = cert \<or> (\<exists>(look, load, stat)\<in>set ds. dk_pair load (cr_certFile r) (cr_keyFile r) = Some cert'))"
proof (induction ds r arbitrary: cert rule: handshakes.induct)
  case (2 look load stat ds r)
  obtain c1 where c1: "cr_cached (snd (current look load stat r)) = Some c1"
    "c1 = cert \<or> dk_pair load (cr_certFile r) (cr_keyFile r) = Some c1"
    using current_valid [OF "2.prems", of look load stat] by auto
  show ?case using "2.IH" [OF c1(1)] c1(2) by auto
qed simp

text \<open>
  Once the files have come to rest with a valid pair and another modification time, the first handshake serves the new pair, and
  every later one does too.
\<close>

lemma current_settled:
  assumes "dk_pair d (cr_certFile r) (cr_keyFile r) = Some cert" "dk_mtime d (cr_certFile r) = Some c" "dk_mtime d (cr_keyFile r) = Some k"
    and "c \<noteq> cr_modCert r \<or> k \<noteq> cr_modKey r \<or> cr_cached r = Some cert"
  shows "fst (current d d d r) = Some cert \<and> cr_modCert (snd (current d d d r)) = c \<and> cr_modKey (snd (current d d d r)) = k \<and>
    cr_cached (snd (current d d d r)) = Some cert"
  using assms by (auto simp: current_def certs_changed_def reload_def Let_def)

theorem rotation_followed:
  assumes "cr_cached r = Some old" "dk_pair d (cr_certFile r) (cr_keyFile r) = Some cert" "dk_mtime d (cr_certFile r) = Some c"
    "dk_mtime d (cr_keyFile r) = Some k" "c \<noteq> cr_modCert r \<or> k \<noteq> cr_modKey r"
  shows "fst (current d d d r) = Some cert \<and> cr_cached (handshakes (replicate n (d, d, d)) (snd (current d d d r))) = Some cert"
proof -
  have "cr_cached s = Some cert \<Longrightarrow> cr_certFile s = cr_certFile r \<Longrightarrow> cr_keyFile s = cr_keyFile r \<Longrightarrow>
      cr_cached (handshakes (replicate n (d, d, d)) s) = Some cert" for s
  proof (induction n arbitrary: s)
    case (Suc n)
    then have "cr_cached (snd (current d d d s)) = Some cert" using current_settled [of d s cert c k] assms by simp
    then show ?case using Suc.IH [of "snd (current d d d s)"] Suc.prems by simp
  qed simp
  then show ?thesis using current_settled [of d r cert c k] assms by auto
qed

text \<open>
  The pair is read before the modification times. A rotation between the two is lost: the old
  pair is kept with the new times, and no later handshake looks again.
\<close>

lemma rotation_lost:
  assumes "certs_changed look r" "dk_pair load (cr_certFile r) (cr_keyFile r) = Some old"
    "dk_mtime stat (cr_certFile r) = Some c" "dk_mtime stat (cr_keyFile r) = Some k"
    "dk_pair stat (cr_certFile r) (cr_keyFile r) = Some new" "new \<noteq> old"
  shows "fst (current stat stat stat (snd (current look load stat r))) = Some old"
  using assms by (simp add: current_def reload_def certs_changed_def Let_def)

end
