(* ===== verification/GoStrings.thy ===== *)
theory GoStrings
  imports Prelude
begin

text \<open>
  The functions of Go's \<^verbatim>\<open>strings\<close> and \<^verbatim>\<open>strconv\<close> packages that the sources call, on byte strings.
  \<^verbatim>\<open>ToLower\<close>, \<^verbatim>\<open>EqualFold\<close> and \<^verbatim>\<open>TrimSpace\<close> follow Go on ASCII text; a byte outside ASCII is left as it
  is (Go would decode UTF-8 there).
\<close>

section \<open>Prefixes and suffixes\<close>

definition HasPrefix :: "string \<Rightarrow> string \<Rightarrow> bool" where
  "HasPrefix s p \<longleftrightarrow> take (length p) s = p"

definition HasSuffix :: "string \<Rightarrow> string \<Rightarrow> bool" where
  "HasSuffix s p \<longleftrightarrow> length p \<le> length s \<and> drop (length s - length p) s = p"

definition TrimPrefix :: "string \<Rightarrow> string \<Rightarrow> string" where
  "TrimPrefix s p = (if HasPrefix s p then drop (length p) s else s)"

definition TrimSuffix :: "string \<Rightarrow> string \<Rightarrow> string" where
  "TrimSuffix s p = (if HasSuffix s p then take (length s - length p) s else s)"

lemma HasPrefix_append [simp]: "HasPrefix (p @ s) p"
  by (simp add: HasPrefix_def)

lemma HasSuffix_append [simp]: "HasSuffix (s @ p) p"
  by (simp add: HasSuffix_def)

lemma HasPrefixE: "HasPrefix s p \<Longrightarrow> (\<And>r. s = p @ r \<Longrightarrow> thesis) \<Longrightarrow> thesis"
  by (metis HasPrefix_def append_take_drop_id)

lemma HasSuffixE: "HasSuffix s p \<Longrightarrow> (\<And>r. s = r @ p \<Longrightarrow> thesis) \<Longrightarrow> thesis"
  by (metis HasSuffix_def append_take_drop_id)

lemma TrimPrefix_append [simp]: "TrimPrefix (p @ s) p = s"
  by (simp add: TrimPrefix_def)

lemma TrimSuffix_append [simp]: "TrimSuffix (s @ p) p = s"
  by (simp add: TrimSuffix_def)

section \<open>Letter case and white space\<close>

definition lower_char :: "char \<Rightarrow> char" where
  "lower_char c = (if CHR ''A'' \<le> c \<and> c \<le> CHR ''Z'' then char_of (of_char c + 32 :: nat) else c)"

definition ToLower :: "string \<Rightarrow> string" where
  "ToLower s = map lower_char s"

definition EqualFold :: "string \<Rightarrow> string \<Rightarrow> bool" where
  "EqualFold s t \<longleftrightarrow> ToLower s = ToLower t"

definition is_space :: "char \<Rightarrow> bool" where
  "is_space c \<longleftrightarrow> c \<in> {CHR 0x09, CHR 0x0A, CHR 0x0B, CHR 0x0C, CHR 0x0D, CHR '' ''}"

definition TrimSpace :: "string \<Rightarrow> string" where
  "TrimSpace s = rev (dropWhile is_space (rev (dropWhile is_space s)))"

lemma ToLower_append [simp]: "ToLower (s @ t) = ToLower s @ ToLower t"
  by (simp add: ToLower_def)

lemma length_ToLower [simp]: "length (ToLower s) = length s"
  by (simp add: ToLower_def)

lemma TrimSpace_Nil [simp]: "TrimSpace [] = []"
  by (simp add: TrimSpace_def)

lemma TrimSpace_id:
  assumes "s = [] \<or> (\<not> is_space (hd s) \<and> \<not> is_space (last s))"
  shows "TrimSpace s = s"
proof -
  have "dropWhile is_space s = s" "dropWhile is_space (rev s) = rev s"
    using assms by (auto simp: dropWhile_eq_self_iff hd_rev)
  then show ?thesis by (simp add: TrimSpace_def)
qed

section \<open>Split, Join, Cut\<close>

text \<open>\<^verbatim>\<open>strings.Split\<close> for a one-byte separator: always at least one part.\<close>

fun Split :: "char \<Rightarrow> string \<Rightarrow> string list" where
  "Split c [] = [[]]"
| "Split c (x # xs) =
     (if x = c then [] # Split c xs
      else (case Split c xs of [] \<Rightarrow> [[x]] | p # ps \<Rightarrow> (x # p) # ps))"

fun Join :: "string \<Rightarrow> string list \<Rightarrow> string" where
  "Join sep [] = []"
| "Join sep [x] = x"
| "Join sep (x # y # ys) = x @ sep @ Join sep (y # ys)"

text \<open>\<^verbatim>\<open>strings.Cut\<close> at the first occurrence of a one-byte separator: before, after, found.\<close>

fun Cut :: "char \<Rightarrow> string \<Rightarrow> string \<times> string \<times> bool" where
  "Cut c [] = ([], [], False)"
| "Cut c (x # xs) =
     (if x = c then ([], xs, True)
      else (case Cut c xs of (b, a, f) \<Rightarrow> (x # b, a, f)))"

lemma Split_not_Nil [simp]: "Split c s \<noteq> []"
  by (induction s) (auto split: list.splits)

lemma Split_no_sep [simp]: "c \<notin> set s \<Longrightarrow> Split c s = [s]"
  by (induction s) auto

lemma Split_append_sep:
  "c \<notin> set s \<Longrightarrow> Split c (s @ c # t) = s # Split c t"
  by (induction s) auto

lemma Split_Join:
  assumes "xs \<noteq> []" "\<And>x. x \<in> set xs \<Longrightarrow> c \<notin> set x"
  shows "Split c (Join [c] xs) = xs"
  using assms
  by (induction "[c]" xs rule: Join.induct) (auto simp: Split_append_sep)

lemma Join_Split: "Join [c] (Split c s) = s"
proof (induction s)
  case Nil
  then show ?case by simp
next
  case (Cons x s)
  then show ?case
    by (cases "Split c s"; cases "tl (Split c s)") auto
qed

lemma Split_parts: "p \<in> set (Split c s) \<Longrightarrow> c \<notin> set p"
  by (induction s arbitrary: p) (auto split: list.splits if_splits)

lemma Join_single_inj:
  assumes "xs \<noteq> []" "ys \<noteq> []"
    and "\<And>x. x \<in> set xs \<union> set ys \<Longrightarrow> c \<notin> set x" and "Join [c] xs = Join [c] ys"
  shows "xs = ys"
  by (metis Split_Join UnCI assms)

lemma Cut_found: "c \<notin> set b \<Longrightarrow> Cut c (b @ c # a) = (b, a, True)"
  by (induction b) auto

lemma Cut_not_found: "c \<notin> set s \<Longrightarrow> Cut c s = (s, [], False)"
  by (induction s) auto

section \<open>Decimal numbers\<close>

text \<open>\<^verbatim>\<open>strconv.FormatUint(n, 10)\<close>.\<close>

definition digit_char :: "nat \<Rightarrow> char" where
  "digit_char d = char_of (48 + d)"

fun decimal :: "nat \<Rightarrow> string" where
  "decimal n = (if n < 10 then [digit_char n] else decimal (n div 10) @ [digit_char (n mod 10)])"

declare decimal.simps [simp del]

definition FormatUint :: "uint64 \<Rightarrow> string" where
  "FormatUint w = decimal (unat w)"

text \<open>
  \<^verbatim>\<open>strconv.ParseUint(s, 10, 64)\<close>: an error on the empty string, on a byte that is not a digit, and on
  a value that does not fit in 64 bits.
\<close>

datatype num_error = ErrSyntax | ErrRange

definition is_digit :: "char \<Rightarrow> bool" where
  "is_digit c \<longleftrightarrow> CHR ''0'' \<le> c \<and> c \<le> CHR ''9''"

definition digits_value :: "string \<Rightarrow> nat" where
  "digits_value s = foldl (\<lambda>n c. 10 * n + (of_char c - 48)) 0 s"

definition ParseUint :: "string \<Rightarrow> num_error + uint64" where
  "ParseUint s =
     (if s = [] \<or> \<not> list_all is_digit s then Inl ErrSyntax
      else if digits_value s < 18446744073709551616 then Inr (of_nat (digits_value s))
      else Inl ErrRange)"

lemma of_char_digit_char: "d < 10 \<Longrightarrow> of_char (digit_char d) = (48 + d :: nat)"
  by (simp add: digit_char_def)

lemma is_digit_digit_char: "d < 10 \<Longrightarrow> is_digit (digit_char d)"
  by (simp add: is_digit_def less_eq_char_def of_char_digit_char)

lemma decimal_not_Nil [simp]: "decimal n \<noteq> []"
  by (subst decimal.simps) simp

lemma decimal_digits: "list_all is_digit (decimal n)"
  by (induction n rule: decimal.induct) (subst decimal.simps, auto simp: is_digit_digit_char)

lemma digits_value_snoc: "digits_value (s @ [c]) = 10 * digits_value s + (of_char c - 48)"
  by (simp add: digits_value_def)

lemma digits_value_decimal: "digits_value (decimal n) = n"
proof (induction n rule: decimal.induct)
  case (1 n)
  show ?case
  proof (cases "n < 10")
    case True
    then show ?thesis
      by (subst decimal.simps) (simp add: digits_value_def of_char_digit_char)
  next
    case False
    with 1 have "digits_value (decimal (n div 10)) = n div 10" by simp
    with False show ?thesis
      by (subst decimal.simps) (simp add: digits_value_snoc of_char_digit_char)
  qed
qed

lemma ParseUint_FormatUint [simp]: "ParseUint (FormatUint w) = Inr w"
  using unsigned_less [of w, where 'a = nat]
  by (simp add: ParseUint_def FormatUint_def decimal_digits digits_value_decimal)

lemma is_digit_not_space: "is_digit c \<Longrightarrow> \<not> is_space c"
  by (auto simp: is_digit_def is_space_def less_eq_char_def)

lemma TrimSpace_FormatUint_newline [simp]:
  "TrimSpace (FormatUint w @ [CHR 0x0A]) = FormatUint w"
proof -
  let ?d = "decimal (unat w)"
  have "\<not> is_space c" if "c \<in> set ?d" for c
    using that decimal_digits [of "unat w"] by (auto simp: list_all_iff is_digit_not_space)
  then have nsp: "\<not> is_space (hd ?d)" "\<not> is_space (last ?d)"
    by simp_all
  then have "dropWhile is_space (?d @ [CHR 0x0A]) = ?d @ [CHR 0x0A]"
    by (simp add: dropWhile_eq_self_iff)
  moreover have "dropWhile is_space (rev ?d) = rev ?d"
    using nsp by (simp add: dropWhile_eq_self_iff hd_rev)
  moreover have "is_space (CHR 0x0A)"
    by (simp add: is_space_def)
  ultimately show ?thesis
    by (simp add: TrimSpace_def FormatUint_def)
qed

text \<open>\<^verbatim>\<open>net.JoinHostPort\<close> brackets a host with a colon.\<close>

definition JoinHostPort :: "string \<Rightarrow> string \<Rightarrow> string" where
  "JoinHostPort host port =
     (if CHR '':'' \<in> set host then ''['' @ host @ '']:'' @ port else host @ '':'' @ port)"

end
