(* ===== verification/Model.thy ===== *)
theory Model
  imports GoStrings
begin

text \<open>
  The domain model of \<^verbatim>\<open>internal/model\<close> (\<^verbatim>\<open>model.go\<close>, \<^verbatim>\<open>health.go\<close>, \<^verbatim>\<open>tags.go\<close>): nodes, service
  instances, registrations, entries, queries and change events, with the functions the package
  defines on them. A field of a Go struct is the record field of the same name with the letters of
  its type in front (\<^verbatim>\<open>Node.ID\<close> is \<open>n_ID\<close>, \<^verbatim>\<open>ServiceInstance.TTL\<close> is \<open>s_TTL\<close>).
\<close>

section \<open>Nodes\<close>

record Node =
  n_ID :: string
  n_Name :: string
  n_Address :: string
  n_Datacenter :: string
  n_Meta :: smap
  n_TaggedAddresses :: smap

definition Node_zero :: Node where
  "Node_zero = \<lparr>n_ID = [], n_Name = [], n_Address = [], n_Datacenter = [],
     n_Meta = fmempty, n_TaggedAddresses = fmempty\<rparr>"

definition DisplayName :: "Node \<Rightarrow> string" where
  "DisplayName n = (if n_Name n \<noteq> [] then n_Name n else n_ID n)"

section \<open>Service instances\<close>

record Weights =
  w_Passing :: uint32
  w_Warning :: uint32

definition DefaultWeights :: Weights where
  "DefaultWeights = \<lparr>w_Passing = 1, w_Warning = 1\<rparr>"

definition Weights_zero :: Weights where
  "Weights_zero = \<lparr>w_Passing = 0, w_Warning = 0\<rparr>"

definition Weights_IsZero :: "Weights \<Rightarrow> bool" where
  "Weights_IsZero w \<longleftrightarrow> w_Passing w = 0 \<and> w_Warning w = 0"

definition OrDefault :: "Weights \<Rightarrow> Weights" where
  "OrDefault w = (if Weights_IsZero w then DefaultWeights else w)"

record ServiceInstance =
  s_ID :: string
  s_Name :: string
  s_Address :: string
  s_Port :: uint16
  s_Tags :: "string list"
  s_Meta :: smap
  s_Weights :: Weights
  s_TTL :: duration
  s_LastSeen :: time
  s_Generation :: uint64

definition ServiceInstance_zero :: ServiceInstance where
  "ServiceInstance_zero = \<lparr>s_ID = [], s_Name = [], s_Address = [], s_Port = 0, s_Tags = [],
     s_Meta = fmempty, s_Weights = Weights_zero, s_TTL = 0, s_LastSeen = zeroTime,
     s_Generation = 0\<rparr>"

definition WinsLWW :: "ServiceInstance \<Rightarrow> ServiceInstance \<Rightarrow> bool" where
  "WinsLWW s other =
     (if s_Generation s \<noteq> s_Generation other then s_Generation s > s_Generation other
      else s_LastSeen s > s_LastSeen other)"

section \<open>Tags\<close>

definition HasTag :: "ServiceInstance \<Rightarrow> string \<Rightarrow> bool" where
  "HasTag s tag \<longleftrightarrow> list_ex (\<lambda>t. t = tag) (s_Tags s)"

definition MatchesTags :: "ServiceInstance \<Rightarrow> string list \<Rightarrow> bool" where
  "MatchesTags s wanted \<longleftrightarrow> list_all (HasTag s) wanted"

fun tagsMap_loop :: "string list \<Rightarrow> smap \<Rightarrow> smap" where
  "tagsMap_loop [] m = m"
| "tagsMap_loop (t # ts) m =
     (case Cut CHR ''='' t of (key, val, _) \<Rightarrow>
        if fmlookup m key \<noteq> None then tagsMap_loop ts m
        else tagsMap_loop ts (fmupd key val m))"

definition TagsMap :: "ServiceInstance \<Rightarrow> smap" where
  "TagsMap s = (if s_Tags s = [] then fmempty else tagsMap_loop (s_Tags s) fmempty)"

section \<open>Registrations, entries, queries, events\<close>

record Registration =
  r_Node :: Node
  r_Services :: "ServiceInstance list"
  r_Generation :: uint64

datatype HealthState = HealthUnspecified | HealthPassing | HealthWarning | HealthCritical

fun HealthState_String :: "HealthState \<Rightarrow> string" where
  "HealthState_String HealthPassing = ''passing''"
| "HealthState_String HealthWarning = ''warning''"
| "HealthState_String HealthCritical = ''critical''"
| "HealthState_String HealthUnspecified = ''unspecified''"

record ServiceEntry =
  e_Node :: Node
  e_Service :: ServiceInstance
  e_Health :: HealthState
  e_Maintenance :: bool
  e_CreateIndex :: uint64
  e_ModifyIndex :: uint64

definition ReachableAddress :: "ServiceEntry \<Rightarrow> string" where
  "ReachableAddress e =
     (if s_Address (e_Service e) \<noteq> [] then s_Address (e_Service e) else n_Address (e_Node e))"

record LookupResult =
  lr_Entries :: "ServiceEntry list"
  lr_Index :: uint64

datatype Consistency = ConsistencyDefault | ConsistencyStale | ConsistencyConsistent

record Query =
  q_Name :: string
  q_Datacenter :: string
  q_Tags :: "string list"
  q_OnlyHealthy :: bool

definition Query_zero :: Query where
  "Query_zero = \<lparr>q_Name = [], q_Datacenter = [], q_Tags = [], q_OnlyHealthy = False\<rparr>"

datatype ChangeType = ChangeUnspecified | ChangePut | ChangeDelete

fun ChangeType_String :: "ChangeType \<Rightarrow> string" where
  "ChangeType_String ChangePut = ''put''"
| "ChangeType_String ChangeDelete = ''delete''"
| "ChangeType_String ChangeUnspecified = ''unspecified''"

record ChangeEvent =
  c_Type :: ChangeType
  c_Entry :: ServiceEntry
  c_Index :: uint64

record Principal =
  p_ID :: string
  p_Anonymous :: bool
  p_Attributes :: smap

text \<open>The identity of an entry, the pair every merge and every sort of the program is keyed by.\<close>

abbreviation entry_id :: "ServiceEntry \<Rightarrow> string \<times> string" where
  "entry_id e \<equiv> (n_ID (e_Node e), s_ID (e_Service e))"

section \<open>The last-writer-wins order\<close>

text \<open>The data version: the pair that \<^const>\<open>WinsLWW\<close> compares lexicographically.\<close>

abbreviation version :: "ServiceInstance \<Rightarrow> uint64 \<times> time" where
  "version s \<equiv> (s_Generation s, s_LastSeen s)"

lemma WinsLWW_iff [model_simps]: "WinsLWW s t \<longleftrightarrow> version t < version s"
  by (auto simp: WinsLWW_def)

lemma WinsLWW_irrefl: "\<not> WinsLWW s s"
  by (simp add: model_simps)

lemma WinsLWW_trans: "WinsLWW s t \<Longrightarrow> WinsLWW t u \<Longrightarrow> WinsLWW s u"
  unfolding WinsLWW_iff by (rule less_trans)

lemma WinsLWW_total: "version s \<noteq> version t \<Longrightarrow> WinsLWW s t \<or> WinsLWW t s"
  unfolding WinsLWW_iff by (metis neqE)

section \<open>Facts about tags\<close>

lemma HasTag_iff [model_simps]: "HasTag s t \<longleftrightarrow> t \<in> set (s_Tags s)"
  by (auto simp: HasTag_def list_ex_iff)

lemma MatchesTags_iff [model_simps]: "MatchesTags s ts \<longleftrightarrow> set ts \<subseteq> set (s_Tags s)"
  by (auto simp: MatchesTags_def list_all_iff model_simps)

lemma MatchesTags_Nil [simp]: "MatchesTags s []"
  by (simp add: MatchesTags_def)

text \<open>The loop of \<^const>\<open>TagsMap\<close> keeps the first tag of every key.\<close>

definition tag_key :: "string \<Rightarrow> string" where
  "tag_key t = fst (Cut CHR ''='' t)"

definition tag_value :: "string \<Rightarrow> string" where
  "tag_value t = fst (snd (Cut CHR ''='' t))"

lemma tagsMap_loop_lookup:
  "fmlookup (tagsMap_loop ts m) k =
     (case fmlookup m k of Some v \<Rightarrow> Some v
      | None \<Rightarrow> map_option tag_value (List.find (\<lambda>t. tag_key t = k) ts))"
proof (induction ts arbitrary: m)
  case Nil
  then show ?case by (auto split: option.splits)
next
  case (Cons t ts)
  obtain key v f where c: "Cut CHR ''='' t = (key, v, f)"
    by (cases "Cut CHR ''='' t") auto
  then show ?case
    by (auto simp: Cons.IH tag_key_def tag_value_def split: option.splits)
qed

lemma TagsMap_lookup:
  "fmlookup (TagsMap s) k = map_option tag_value (List.find (\<lambda>t. tag_key t = k) (s_Tags s))"
  by (simp add: TagsMap_def tagsMap_loop_lookup)

section \<open>Concrete values\<close>

text \<open>Sample data the witnesses of the development evaluate the definitions on.\<close>

definition ex_node :: "string \<Rightarrow> Node" where
  "ex_node nid = Node_zero\<lparr>n_ID := nid, n_Name := nid, n_Address := ''10.0.0.1'', n_Datacenter := ''dc1''\<rparr>"

definition ex_svc :: "string \<Rightarrow> string \<Rightarrow> uint64 \<Rightarrow> time \<Rightarrow> ServiceInstance" where
  "ex_svc sid name gen seen = ServiceInstance_zero\<lparr>s_ID := sid, s_Name := name, s_Port := 8080,
     s_TTL := 30 * second, s_LastSeen := seen, s_Generation := gen\<rparr>"

definition ex_entry :: "string \<Rightarrow> string \<Rightarrow> string \<Rightarrow> uint64 \<Rightarrow> time \<Rightarrow> ServiceEntry" where
  "ex_entry nid sid name gen seen = \<lparr>e_Node = ex_node nid, e_Service = ex_svc sid name gen seen,
     e_Health = HealthPassing, e_Maintenance = False, e_CreateIndex = 1, e_ModifyIndex = 1\<rparr>"

lemmas ex_defs = ex_node_def ex_svc_def ex_entry_def Node_zero_def ServiceInstance_zero_def
  Weights_zero_def

lemma ex_node_sel [simp]: "n_ID (ex_node nid) = nid"
  by (simp add: ex_node_def)

lemma ex_svc_sel [simp]:
  "s_ID (ex_svc sid name gen seen) = sid" "s_Name (ex_svc sid name gen seen) = name"
  "s_LastSeen (ex_svc sid name gen seen) = seen" "s_Generation (ex_svc sid name gen seen) = gen"
  "s_TTL (ex_svc sid name gen seen) = 30 * second" "s_Tags (ex_svc sid name gen seen) = []"
  by (simp_all add: ex_svc_def ServiceInstance_zero_def)

lemma ex_entry_sel [simp]:
  "e_Node (ex_entry nid sid name gen seen) = ex_node nid"
  "e_Service (ex_entry nid sid name gen seen) = ex_svc sid name gen seen"
  "e_Health (ex_entry nid sid name gen seen) = HealthPassing"
  "e_Maintenance (ex_entry nid sid name gen seen) = False"
  by (simp_all add: ex_entry_def)

end
