(* ===== verification/Lww.thy ===== *)
theory Lww
  imports Model
begin

text \<open>
  The contract of a last-writer-wins order, which the cross-seed read merge
  (\<^verbatim>\<open>health.MergeLWW\<close>) and the seed anti-entropy merge (\<^verbatim>\<open>store.Merge\<close>) share: a strict weak order
  \<open>wins\<close>, where a candidate replaces the current winner only if it strictly beats it. The lemmas of
  the locale are about any such order; it is interpreted on \<^const>\<open>WinsLWW\<close>.
\<close>

section \<open>Keeping a winner\<close>

fun champion :: "('a \<Rightarrow> 'a \<Rightarrow> bool) \<Rightarrow> 'a option \<Rightarrow> 'a list \<Rightarrow> 'a option" where
  "champion wins cur [] = cur"
| "champion wins None (x # xs) = champion wins (Some x) xs"
| "champion wins (Some c) (x # xs) = champion wins (Some (if wins x c then x else c)) xs"

lemma champion_append: "champion wins c (xs @ ys) = champion wins (champion wins c xs) ys"
  by (induction wins c xs rule: champion.induct) auto

lemma champion_Some: "\<exists>d. champion wins (Some c) xs = Some d"
  by (induction xs arbitrary: c) auto

lemma champion_eq_None [simp]: "champion wins c xs = None \<longleftrightarrow> c = None \<and> xs = []"
  by (cases c; cases xs) (auto simp: champion_Some dest: sym intro: champion_Some [THEN exE])

lemma champion_mem: "champion wins c xs = Some d \<Longrightarrow> c = Some d \<or> d \<in> set xs"
  by (induction wins c xs rule: champion.induct) (auto split: if_splits)

section \<open>The contract\<close>

locale strict_weak =
  fixes wins :: "'a \<Rightarrow> 'a \<Rightarrow> bool"
  assumes irreflexive: "\<not> wins a a"
    and transitive: "wins a b \<Longrightarrow> wins b c \<Longrightarrow> wins a c"
    and neg_transitive: "\<not> wins a b \<Longrightarrow> \<not> wins b c \<Longrightarrow> \<not> wins a c"
begin

lemma asym: "wins a b \<Longrightarrow> \<not> wins b a"
  using irreflexive transitive by blast

lemma champion_keeps: "champion wins (Some c) xs = Some d \<Longrightarrow> \<not> wins c d"
proof (induction xs arbitrary: c)
  case Nil
  then show ?case by (simp add: irreflexive)
next
  case (Cons x xs)
  show ?case
  proof (cases "wins x c")
    case True
    with Cons have "\<not> wins x d" by simp
    with True asym neg_transitive show ?thesis by blast
  next
    case False
    with Cons show ?thesis by simp
  qed
qed

lemma champion_unbeaten:
  "champion wins c xs = Some d \<Longrightarrow> x \<in> set xs \<Longrightarrow> \<not> wins x d"
proof (induction xs arbitrary: c)
  case (Cons y xs)
  let ?c = "case c of None \<Rightarrow> y | Some c' \<Rightarrow> if wins y c' then y else c'"
  have step: "champion wins (Some ?c) xs = Some d"
    using Cons.prems by (cases c) auto
  have "\<not> wins y ?c"
    by (auto simp: irreflexive split: option.splits)
  then have "\<not> wins y d"
    using neg_transitive champion_keeps [OF step] by blast
  then show ?case
    using Cons.prems Cons.IH [OF step] by auto
qed simp

lemma champion_unique:
  assumes "champion wins None xs = Some d" "e \<in> set xs"
    and unbeaten: "\<And>x. x \<in> set xs \<Longrightarrow> \<not> wins x e"
    and no_ties: "\<And>a b. a \<in> set xs \<Longrightarrow> b \<in> set xs \<Longrightarrow> \<not> wins a b \<Longrightarrow> \<not> wins b a \<Longrightarrow> a = b"
  shows "d = e"
proof -
  have "d \<in> set xs" using champion_mem [OF assms(1)] by simp
  then show ?thesis
    using champion_unbeaten [OF assms(1)] assms by blast
qed

text \<open>Without ties the winner depends only on the set of candidates.\<close>

lemma champion_set:
  assumes "set xs = set ys"
    and no_ties: "\<And>a b. a \<in> set xs \<Longrightarrow> b \<in> set xs \<Longrightarrow> \<not> wins a b \<Longrightarrow> \<not> wins b a \<Longrightarrow> a = b"
  shows "champion wins None xs = champion wins None ys"
proof (cases "champion wins None ys")
  case None
  then have "ys = []" by simp
  then show ?thesis using assms(1) by simp
next
  case (Some e)
  have e: "e \<in> set xs" "\<And>x. x \<in> set xs \<Longrightarrow> \<not> wins x e"
    using champion_mem [OF Some] champion_unbeaten [OF Some] assms(1) by auto
  then have "champion wins None xs \<noteq> None" by auto
  then obtain d where d: "champion wins None xs = Some d" unfolding not_None_eq by blast
  then show ?thesis using champion_unique [OF d e no_ties] Some by simp
qed

end

section \<open>The order of the program\<close>

interpretation svc: strict_weak WinsLWW
  by unfold_locales (auto simp: WinsLWW_def split: if_splits)

interpretation ent: strict_weak "\<lambda>e f. WinsLWW (e_Service e) (e_Service f)"
  by unfold_locales (auto simp: WinsLWW_def split: if_splits)

end
