(* ===== verification/Health.thy ===== *)
theory Health
  imports Lww
begin

text \<open>
  \<^verbatim>\<open>internal/health/health.go\<close>: the visibility filter and the cross-seed merge, the two pure
  functions every read surface goes through.
\<close>

section \<open>The filter\<close>

record FilterOptions =
  OnlyPassing :: bool

definition Visible :: "ServiceEntry \<Rightarrow> FilterOptions \<Rightarrow> bool" where
  "Visible e opts =
     (if \<not> OnlyPassing opts then True
      else if e_Maintenance e then False
      else (case e_Health e of
              HealthPassing \<Rightarrow> True
            | HealthWarning \<Rightarrow> True
            | _ \<Rightarrow> False))"

definition Filter :: "ServiceEntry list \<Rightarrow> FilterOptions \<Rightarrow> ServiceEntry list" where
  "Filter xs opts = filter (\<lambda>e. Visible e opts) xs"

abbreviation passing_only :: FilterOptions where
  "passing_only \<equiv> \<lparr>OnlyPassing = True\<rparr>"

section \<open>The merge\<close>

fun winners_loop :: "ServiceEntry list \<Rightarrow> (string \<times> string, ServiceEntry) fmap
    \<Rightarrow> (string \<times> string, ServiceEntry) fmap" where
  "winners_loop [] winners = winners"
| "winners_loop (e # es) winners =
     (let k = (n_ID (e_Node e), s_ID (e_Service e)) in
      case fmlookup winners k of
        Some cur \<Rightarrow>
          if \<not> WinsLWW (e_Service e) (e_Service cur) then winners_loop es winners
          else winners_loop es (fmupd k e winners)
      | None \<Rightarrow> winners_loop es (fmupd k e winners))"

definition MergeLWW :: "ServiceEntry list \<Rightarrow> ServiceEntry list" where
  "MergeLWW xs =
     (if xs = [] then []
      else sort_key (\<lambda>e. (n_ID (e_Node e), s_ID (e_Service e)))
             (range_values (winners_loop xs fmempty)))"

section \<open>What the merge computes\<close>

abbreviation entry_wins :: "ServiceEntry \<Rightarrow> ServiceEntry \<Rightarrow> bool" where
  "entry_wins \<equiv> \<lambda>e f. WinsLWW (e_Service e) (e_Service f)"

text \<open>Per identity, the loop is the champion of the last-writer-wins order.\<close>

lemma winners_loop_lookup:
  "fmlookup (winners_loop xs w) k =
     champion entry_wins (fmlookup w k) (filter (\<lambda>e. entry_id e = k) xs)"
  by (induction xs arbitrary: w) (auto simp: Let_def split: option.splits)

lemma winners_loop_append: "winners_loop (xs @ ys) w = winners_loop ys (winners_loop xs w)"
  by (induction xs arbitrary: w) (auto simp: Let_def split: option.splits)

lemma winners_loop_id:
  assumes "fmlookup (winners_loop xs fmempty) k = Some e"
  shows "e \<in> set xs" "entry_id e = k"
  using champion_mem [of entry_wins None "filter (\<lambda>e. entry_id e = k) xs" e] assms
  by (auto simp: winners_loop_lookup)

lemma map_entry_id_range_values:
  "map entry_id (range_values (winners_loop xs fmempty)) = range_keys (winners_loop xs fmempty)"
proof -
  have "entry_id (the (fmlookup (winners_loop xs fmempty) k)) = k"
    if k: "k \<in> set (range_keys (winners_loop xs fmempty))" for k
  proof -
    from k obtain e where "fmlookup (winners_loop xs fmempty) k = Some e"
      by auto
    then show ?thesis using winners_loop_id(2) by auto
  qed
  then show ?thesis
    by (auto simp: range_values_def map_idI simp del: set_range_keys)
qed

lemma MergeLWW_range_values: "MergeLWW xs = range_values (winners_loop xs fmempty)"
proof (cases "xs = []")
  case True
  then show ?thesis by (simp add: MergeLWW_def)
next
  case False
  have "sorted (map entry_id (range_values (winners_loop xs fmempty)))"
    unfolding map_entry_id_range_values
    by (simp add: range_keys_def sorted_list_of_fset.rep_eq)
  then show ?thesis using False
    by (simp add: MergeLWW_def sort_key_id_if_sorted)
qed

lemma set_MergeLWW:
  "e \<in> set (MergeLWW xs) \<longleftrightarrow> fmlookup (winners_loop xs fmempty) (entry_id e) = Some e"
  unfolding MergeLWW_range_values set_range_values
  by (auto dest: winners_loop_id(2))

lemma map_entry_id_MergeLWW: "map entry_id (MergeLWW xs) = range_keys (winners_loop xs fmempty)"
  by (simp add: MergeLWW_range_values map_entry_id_range_values)

lemma sorted_MergeLWW: "sorted_wrt (<) (map entry_id (MergeLWW xs))"
  unfolding map_entry_id_MergeLWW
  by (simp add: range_keys_def sorted_list_of_fset.rep_eq strict_sorted_iff)

lemma distinct_MergeLWW: "distinct (map entry_id (MergeLWW xs))"
  unfolding map_entry_id_MergeLWW by simp

lemma ids_MergeLWW: "entry_id ` set (MergeLWW xs) = entry_id ` set xs"
proof -
  have "entry_id ` set (MergeLWW xs) = set (map entry_id (MergeLWW xs))"
    by simp
  also have "\<dots> = {k. fmlookup (winners_loop xs fmempty) k \<noteq> None}"
    unfolding map_entry_id_MergeLWW by auto
  also have "\<dots> = entry_id ` set xs"
    by (auto simp: winners_loop_lookup filter_empty_conv)
  finally show ?thesis .
qed

lemma MergeLWW_subset: "set (MergeLWW xs) \<subseteq> set xs"
  by (auto simp: set_MergeLWW dest: winners_loop_id(1))

lemma MergeLWW_unbeaten:
  assumes "e \<in> set (MergeLWW xs)" "f \<in> set xs" "entry_id f = entry_id e"
  shows "\<not> WinsLWW (e_Service f) (e_Service e)"
proof (rule ent.champion_unbeaten)
  show "champion entry_wins None (filter (\<lambda>x. entry_id x = entry_id e) xs) = Some e"
    using assms(1) by (simp add: set_MergeLWW winners_loop_lookup)
  show "f \<in> set (filter (\<lambda>x. entry_id x = entry_id e) xs)"
    using assms by simp
qed

text \<open>A list with one entry per identity, sorted, is its own merge.\<close>

lemma winners_loop_distinct:
  "distinct (map entry_id xs) \<Longrightarrow>
   fmlookup (winners_loop xs fmempty) k = List.find (\<lambda>e. entry_id e = k) xs"
proof -
  assume d: "distinct (map entry_id xs)"
  have "champion entry_wins None (filter (\<lambda>e. entry_id e = k) xs) = List.find (\<lambda>e. entry_id e = k) xs"
    using d
  proof (induction xs)
    case (Cons x xs)
    then show ?case
    proof (cases "entry_id x = k")
      case True
      with Cons.prems have "filter (\<lambda>e. entry_id e = k) xs = []"
        by (auto simp: filter_empty_conv image_iff)
      with True show ?thesis by simp
    qed simp
  qed simp
  then show ?thesis by (simp add: winners_loop_lookup)
qed

lemma winners_loop_MergeLWW: "winners_loop (MergeLWW xs) fmempty = winners_loop xs fmempty"
proof (rule fmap_ext)
  fix k
  let ?w = "winners_loop xs fmempty"
  have "List.find (\<lambda>e. entry_id e = k) (MergeLWW xs) = fmlookup ?w k"
  proof (cases "fmlookup ?w k")
    case None
    then have "k \<notin> set (map entry_id (MergeLWW xs))"
      unfolding map_entry_id_MergeLWW by simp
    then show ?thesis using None by (auto simp: find_None_iff)
  next
    case (Some e)
    then have e: "e \<in> set (MergeLWW xs)" "entry_id e = k"
      using winners_loop_id(2) by (auto simp: set_MergeLWW)
    have "List.find (\<lambda>e. entry_id e = k) (MergeLWW xs) = Some e"
      using e Some by (intro find_unique) (auto simp: set_MergeLWW)
    with Some show ?thesis by simp
  qed
  then show "fmlookup (winners_loop (MergeLWW xs) fmempty) k = fmlookup ?w k"
    by (simp add: winners_loop_distinct distinct_MergeLWW)
qed

section \<open>Properties\<close>

text \<open>
  C8 (functional). The merge of any list of entries is sorted strictly by (node id, service id), has
  exactly the identities of its input, each output entry is one of the input, and no input entry of
  the same identity beats it under last-writer-wins.
\<close>

theorem MergeLWW_spec:
  "sorted_wrt (<) (map entry_id (MergeLWW xs)) \<and>
   entry_id ` set (MergeLWW xs) = entry_id ` set xs \<and>
   set (MergeLWW xs) \<subseteq> set xs \<and>
   (\<forall>e\<in>set (MergeLWW xs). \<forall>f\<in>set xs.
      entry_id f = entry_id e \<longrightarrow> \<not> WinsLWW (e_Service f) (e_Service e))"
  using sorted_MergeLWW ids_MergeLWW MergeLWW_subset MergeLWW_unbeaten by blast

theorem MergeLWW_spec_witness:
  "MergeLWW [ex_entry ''n'' ''s'' ''web'' 1 9, ex_entry ''n'' ''s'' ''web'' 2 5]
     = [ex_entry ''n'' ''s'' ''web'' 2 5] \<and>
   \<not> WinsLWW (ex_svc ''s'' ''web'' 1 9) (ex_svc ''s'' ''web'' 2 5)"
proof -
  let ?xs = "[ex_entry ''n'' ''s'' ''web'' 1 9, ex_entry ''n'' ''s'' ''web'' 2 5]"
  have m: "MergeLWW ?xs = [ex_entry ''n'' ''s'' ''web'' 2 5]"
    by code_simp
  then have "\<not> WinsLWW (e_Service (ex_entry ''n'' ''s'' ''web'' 1 9))
                      (e_Service (ex_entry ''n'' ''s'' ''web'' 2 5))"
    using MergeLWW_spec [of ?xs] by simp
  with m show ?thesis by simp
qed

text \<open>Entries of one identity and one version are the same entry.\<close>

definition no_ties :: "ServiceEntry list \<Rightarrow> bool" where
  "no_ties xs \<longleftrightarrow> (\<forall>e\<in>set xs. \<forall>f\<in>set xs.
     entry_id e = entry_id f \<and> version (e_Service e) = version (e_Service f) \<longrightarrow> e = f)"

lemma champion_no_ties:
  assumes "set xs = set ys" "no_ties xs"
  shows "champion entry_wins None (filter (\<lambda>e. entry_id e = k) xs) =
         champion entry_wins None (filter (\<lambda>e. entry_id e = k) ys)"
proof -
  let ?c = "champion entry_wins None"
  let ?xs = "filter (\<lambda>e. entry_id e = k) xs" and ?ys = "filter (\<lambda>e. entry_id e = k) ys"
  show ?thesis
  proof (cases "?c ?ys")
    case None
    then have "?ys = []" by simp
    then have "?xs = []" using assms(1) by (simp add: filter_empty_conv)
    with \<open>?ys = []\<close> show ?thesis by simp
  next
    case (Some e)
    have same: "set ?xs = set ?ys" using assms(1) by auto
    have "?xs \<noteq> []"
    proof
      assume "?xs = []"
      with same have "set ?ys = {}" by (metis list.set(1))
      then have "?ys = []" by simp
      with Some show False by simp
    qed
    then have "?c ?xs \<noteq> None" by simp
    then obtain d where d: "?c ?xs = Some d"
      unfolding not_None_eq by blast
    have "d = e"
    proof (rule ent.champion_unique [OF d])
      show "e \<in> set ?xs"
        using champion_mem [OF Some] unfolding same by simp
      show "\<not> WinsLWW (e_Service x) (e_Service e)" if "x \<in> set ?xs" for x
        using ent.champion_unbeaten [OF Some, of x] that unfolding same by simp
      show "a = b" if "a \<in> set ?xs" "b \<in> set ?xs" "\<not> WinsLWW (e_Service a) (e_Service b)"
        "\<not> WinsLWW (e_Service b) (e_Service a)" for a b
      proof -
        have "version (e_Service a) = version (e_Service b)"
          using WinsLWW_total that(3,4) by blast
        with that(1,2) assms(2) show ?thesis
          unfolding no_ties_def by auto
      qed
    qed
    with d Some show ?thesis by simp
  qed
qed

lemma merge_same_set:
  assumes "set xs = set ys" "no_ties xs"
  shows "MergeLWW xs = MergeLWW ys"
proof -
  have "winners_loop xs fmempty = winners_loop ys fmempty"
    by (rule fmap_ext) (simp add: winners_loop_lookup champion_no_ties [OF assms])
  then show ?thesis by (simp add: MergeLWW_range_values)
qed

text \<open>
  When no two entries of one identity carry the same version unless they are equal,
  the merge depends only on which entries the seeds returned: not on the order of the answers, nor
  on how often an entry is repeated.
\<close>

theorem MergeLWW_order_independent:
  assumes "set xs = set ys" "no_ties xs"
  shows "MergeLWW xs = MergeLWW ys"
  using assms by (rule merge_same_set)

theorem MergeLWW_order_independent_witness:
  "MergeLWW [ex_entry ''n'' ''s'' ''web'' 1 9, ex_entry ''n'' ''s'' ''web'' 2 5] =
   MergeLWW [ex_entry ''n'' ''s'' ''web'' 2 5, ex_entry ''n'' ''s'' ''web'' 1 9] \<and>
   no_ties [ex_entry ''n'' ''s'' ''web'' 1 9, ex_entry ''n'' ''s'' ''web'' 2 5]"
proof -
  let ?xs = "[ex_entry ''n'' ''s'' ''web'' 1 9, ex_entry ''n'' ''s'' ''web'' 2 5]"
  let ?ys = "[ex_entry ''n'' ''s'' ''web'' 2 5, ex_entry ''n'' ''s'' ''web'' 1 9]"
  have t: "no_ties ?xs" by (simp add: no_ties_def)
  have "set ?xs = set ?ys" by auto
  from MergeLWW_order_independent [OF this t] t show ?thesis by simp
qed

text \<open>
  Merging is incremental: merging an already merged set with further entries gives
  what merging everything at once gives. So an agent may merge seed answers as they come, and a merge
  of merged sets (an anti-entropy pull of another seed's merged view) loses nothing.
\<close>

theorem MergeLWW_incremental: "MergeLWW (MergeLWW xs @ ys) = MergeLWW (xs @ ys)"
  by (simp add: MergeLWW_range_values [of "_ @ _"] winners_loop_append winners_loop_MergeLWW)

text \<open>
  The hypothesis of the order independence is needed: with a tie in (generation, last seen) the first
  entry wins, so two seeds that differ in health answer-order dependently.
\<close>

theorem MergeLWW_tie_depends_on_order:
  "\<exists>a b. MergeLWW [a, b] \<noteq> MergeLWW [b, a]"
proof (intro exI)
  show "MergeLWW [ex_entry ''n'' ''s'' ''web'' 1 9,
          (ex_entry ''n'' ''s'' ''web'' 1 9)\<lparr>e_Health := HealthCritical\<rparr>] \<noteq>
        MergeLWW [(ex_entry ''n'' ''s'' ''web'' 1 9)\<lparr>e_Health := HealthCritical\<rparr>,
          ex_entry ''n'' ''s'' ''web'' 1 9]"
    by code_simp
qed

text \<open>
  The filter keeps the order and exactly the visible entries: everything without
  \<^verbatim>\<open>OnlyPassing\<close>; with it, the entries that are passing or warning and not in maintenance.
\<close>

theorem Filter_spec:
  "Filter xs opts = [e \<leftarrow> xs. \<not> OnlyPassing opts \<or>
     (\<not> e_Maintenance e \<and> e_Health e \<noteq> HealthCritical \<and> e_Health e \<noteq> HealthUnspecified)]"
proof -
  have "Visible e opts \<longleftrightarrow> \<not> OnlyPassing opts \<or>
    (\<not> e_Maintenance e \<and> e_Health e \<noteq> HealthCritical \<and> e_Health e \<noteq> HealthUnspecified)" for e
    by (cases "e_Health e") (auto simp: Visible_def)
  then show ?thesis by (simp add: Filter_def)
qed

end
