(* ===== verification/Store.thy ===== *)
theory Store
  imports Health
begin

text \<open>
  \<^verbatim>\<open>internal/store/store.go\<close> and \<^verbatim>\<open>gcloop.go\<close>: the seed's in-memory registry. The state is the record
  \<open>Memory\<close>; the pointers to nodes and services of the Go maps are values here, written back into the
  maps after every mutation. Each operation holds the mutex from its first read to its last write, so
  it is one function from state to state; it returns its error, the batch of events it passes to
  \<^verbatim>\<open>OnChange\<close> (the empty list when it does not call it) and the new state.

  The clock is an argument. \<open>now\<close> is the reading an operation takes for itself; \<open>evclk\<close> gives the
  reading \<^verbatim>\<open>putEvent\<close> takes, which Go reads again for each event, so it is a function of the index
  allotted to the event. \<^verbatim>\<open>Deregister\<close> and \<^verbatim>\<open>GC\<close> number their events in the order in which \<^verbatim>\<open>range\<close>
  visits the maps, so they take that order as an argument.
\<close>

section \<open>Data\<close>

datatype StoreError = ErrNotFound | ErrInvalid | ErrCapacity

record Options =
  o_DefaultTTL :: duration
  o_MinTTL :: duration
  o_MaxTTL :: duration
  o_GracePeriod :: duration
  o_StartIndex :: uint64
  o_MaxServices :: int
  o_OnChange :: bool

definition defaultTTL :: duration where
  "defaultTTL = 30 * second"

record service =
  sv_def :: ServiceInstance
  sv_maintenance :: bool
  sv_failed :: bool
  sv_lastState :: HealthState
  sv_createIndex :: uint64
  sv_modifyIndex :: uint64

record node =
  nd_meta :: Node
  nd_services :: "(string, service) fmap"

type_synonym svcRef = "string \<times> string"

record Memory =
  m_opts :: Options
  m_nodes :: "(string, node) fmap"
  m_byName :: "(string, svcRef fset) fmap"
  m_index :: uint64

definition NewMemory :: "Options \<Rightarrow> Memory" where
  "NewMemory opts =
     (let opts = (if o_DefaultTTL opts \<le> 0 then opts\<lparr>o_DefaultTTL := defaultTTL\<rparr> else opts)
      in \<lparr>m_opts = opts, m_nodes = fmempty, m_byName = fmempty, m_index = o_StartIndex opts\<rparr>)"

type_synonym clock = "uint64 \<Rightarrow> time"
type_synonym outcome = "StoreError option \<times> ChangeEvent list \<times> Memory"

text \<open>Reading and writing one service through its node, as \<^verbatim>\<open>m.nodes[nid].services[sid]\<close> does.\<close>

definition svc_at :: "Memory \<Rightarrow> string \<Rightarrow> string \<Rightarrow> service option" where
  "svc_at m nid sid =
     (case fmlookup (m_nodes m) nid of None \<Rightarrow> None | Some n \<Rightarrow> fmlookup (nd_services n) sid)"

definition put_svc :: "string \<Rightarrow> string \<Rightarrow> service \<Rightarrow> Memory \<Rightarrow> Memory" where
  "put_svc nid sid svc m =
     (case fmlookup (m_nodes m) nid of
        None \<Rightarrow> m
      | Some n \<Rightarrow> m\<lparr>m_nodes := fmupd nid (n\<lparr>nd_services := fmupd sid svc (nd_services n)\<rparr>) (m_nodes m)\<rparr>)"

definition delete_svc :: "string \<Rightarrow> string \<Rightarrow> Memory \<Rightarrow> Memory" where
  "delete_svc nid sid m =
     (case fmlookup (m_nodes m) nid of
        None \<Rightarrow> m
      | Some n \<Rightarrow> m\<lparr>m_nodes := fmupd nid (n\<lparr>nd_services := fmdrop sid (nd_services n)\<rparr>) (m_nodes m)\<rparr>)"

text \<open>The node a write creates or whose attributes it replaces.\<close>

definition touch_node :: "Node \<Rightarrow> Memory \<Rightarrow> Memory" where
  "touch_node meta m =
     (case fmlookup (m_nodes m) (n_ID meta) of
        None \<Rightarrow> m\<lparr>m_nodes := fmupd (n_ID meta) \<lparr>nd_meta = meta, nd_services = fmempty\<rparr> (m_nodes m)\<rparr>
      | Some n \<Rightarrow> m\<lparr>m_nodes := fmupd (n_ID meta) (n\<lparr>nd_meta := meta\<rparr>) (m_nodes m)\<rparr>)"

section \<open>Helpers of the operations\<close>

definition Memory_Index :: "Memory \<Rightarrow> uint64" where
  "Memory_Index m = m_index m"

definition Memory_Size :: "Memory \<Rightarrow> nat" where
  "Memory_Size m = sum_list (map (\<lambda>n. fmlen (nd_services n)) (range_values (m_nodes m)))"

definition next_index :: "Memory \<Rightarrow> uint64 \<times> Memory" where
  "next_index m = (m_index m + 1, m\<lparr>m_index := m_index m + 1\<rparr>)"

definition clampTTL :: "Options \<Rightarrow> duration \<Rightarrow> duration" where
  "clampTTL opts d =
     (let d = (if d \<le> 0 then o_DefaultTTL opts else d);
          d = (if o_MinTTL opts > 0 \<and> d < o_MinTTL opts then o_MinTTL opts else d);
          d = (if o_MaxTTL opts > 0 \<and> d > o_MaxTTL opts then o_MaxTTL opts else d)
      in d)"

definition lease :: "Options \<Rightarrow> service \<Rightarrow> time \<Rightarrow> HealthState \<times> bool" where
  "lease opts svc now =
     (if sv_failed svc then (HealthCritical, False)
      else let age = time_Sub now (s_LastSeen (sv_def svc)) in
        if age \<le> s_TTL (sv_def svc) then (HealthPassing, False)
        else if age \<le> dur_add (s_TTL (sv_def svc)) (o_GracePeriod opts) then (HealthCritical, False)
        else (HealthCritical, True))"

definition entry :: "Node \<Rightarrow> service \<Rightarrow> HealthState \<Rightarrow> ServiceEntry" where
  "entry meta svc state =
     \<lparr>e_Node = meta, e_Service = sv_def svc, e_Health = state, e_Maintenance = sv_maintenance svc,
      e_CreateIndex = sv_createIndex svc, e_ModifyIndex = sv_modifyIndex svc\<rparr>"

definition putEvent :: "Options \<Rightarrow> clock \<Rightarrow> Node \<Rightarrow> service \<Rightarrow> ChangeEvent" where
  "putEvent opts evclk meta svc =
     (let state = fst (lease opts svc (evclk (sv_modifyIndex svc)))
      in \<lparr>c_Type = ChangePut, c_Entry = entry meta svc state, c_Index = sv_modifyIndex svc\<rparr>)"

definition deleteEvent :: "Node \<Rightarrow> service \<Rightarrow> ChangeEvent" where
  "deleteEvent meta svc =
     \<lparr>c_Type = ChangeDelete, c_Entry = entry meta svc HealthCritical, c_Index = sv_modifyIndex svc\<rparr>"

definition emit :: "Memory \<Rightarrow> ChangeEvent list \<Rightarrow> ChangeEvent list" where
  "emit m events = (if events = [] \<or> \<not> o_OnChange (m_opts m) then [] else events)"

definition indexName :: "string \<Rightarrow> ServiceInstance \<Rightarrow> Memory \<Rightarrow> Memory" where
  "indexName nodeID def m =
     (let refs = (case fmlookup (m_byName m) (s_Name def) of None \<Rightarrow> {||} | Some S \<Rightarrow> S)
      in m\<lparr>m_byName := fmupd (s_Name def) (finsert (nodeID, s_ID def) refs) (m_byName m)\<rparr>)"

definition unindexName :: "string \<Rightarrow> string \<Rightarrow> string \<Rightarrow> Memory \<Rightarrow> Memory" where
  "unindexName nodeID name serviceID m =
     (case fmlookup (m_byName m) name of
        None \<Rightarrow> m
      | Some refs \<Rightarrow>
          (let refs' = refs |-| {|(nodeID, serviceID)|} in
           if refs' = {||} then m\<lparr>m_byName := fmdrop name (m_byName m)\<rparr>
           else m\<lparr>m_byName := fmupd name refs' (m_byName m)\<rparr>))"

definition equalStrings :: "string list \<Rightarrow> string list \<Rightarrow> bool" where
  "equalStrings a b = (if length a \<noteq> length b then False else list_all2 (=) a b)"

text \<open>Indexing a Go map gives the zero value, the empty string, where the key is missing.\<close>

definition map_index :: "smap \<Rightarrow> string \<Rightarrow> string" where
  "map_index m k = (case fmlookup m k of None \<Rightarrow> [] | Some v \<Rightarrow> v)"

definition equalMap :: "smap \<Rightarrow> smap \<Rightarrow> bool" where
  "equalMap a b =
     (if fmlen a \<noteq> fmlen b then False
      else list_all (\<lambda>k. map_index b k = the (fmlookup a k)) (range_keys a))"

definition changed :: "ServiceInstance \<Rightarrow> ServiceInstance \<Rightarrow> bool" where
  "changed a b =
     (if s_Name a \<noteq> s_Name b \<or> s_Address a \<noteq> s_Address b \<or> s_Port a \<noteq> s_Port b
         \<or> s_TTL a \<noteq> s_TTL b \<or> s_Generation a \<noteq> s_Generation b \<or> s_Weights a \<noteq> s_Weights b
      then True
      else \<not> equalStrings (s_Tags a) (s_Tags b) \<or> \<not> equalMap (s_Meta a) (s_Meta b))"

section \<open>Register\<close>

definition normalise_def :: "Options \<Rightarrow> time \<Rightarrow> uint64 \<Rightarrow> ServiceInstance \<Rightarrow> ServiceInstance" where
  "normalise_def opts now gen svc =
     (let def = (if s_ID svc = [] then svc\<lparr>s_ID := s_Name svc\<rparr> else svc)
      in def\<lparr>s_TTL := clampTTL opts (s_TTL def), s_LastSeen := now, s_Generation := gen\<rparr>)"

definition create_svc :: "clock \<Rightarrow> Node \<Rightarrow> ServiceInstance \<Rightarrow> Memory \<Rightarrow> ChangeEvent \<times> Memory" where
  "create_svc evclk meta def m =
     (let (idx, m) = next_index m;
          svc = \<lparr>sv_def = def, sv_maintenance = False, sv_failed = False,
                 sv_lastState = HealthPassing, sv_createIndex = idx, sv_modifyIndex = idx\<rparr>;
          m = indexName (n_ID meta) def (put_svc (n_ID meta) (s_ID def) svc m)
      in (putEvent (m_opts m) evclk meta svc, m))"

definition reindex_name :: "string \<Rightarrow> string \<Rightarrow> ServiceInstance \<Rightarrow> Memory \<Rightarrow> Memory" where
  "reindex_name nodeID oldName def m =
     (if oldName \<noteq> s_Name def then indexName nodeID def (unindexName nodeID oldName (s_ID def) m) else m)"

fun register_loop :: "time \<Rightarrow> clock \<Rightarrow> Node \<Rightarrow> uint64 \<Rightarrow> ServiceInstance list \<Rightarrow> nat
    \<Rightarrow> ChangeEvent list \<Rightarrow> Memory \<Rightarrow> outcome" where
  "register_loop now evclk meta gen [] sz events m = (None, emit m events, m)"
| "register_loop now evclk meta gen (svc_in # rest) sz events m =
     (let def = normalise_def (m_opts m) now gen svc_in in
      case svc_at m (n_ID meta) (s_ID def) of
        None \<Rightarrow>
          if o_MaxServices (m_opts m) > 0 \<and> int sz \<ge> o_MaxServices (m_opts m)
          then (Some ErrCapacity, emit m events, m)
          else (case create_svc evclk meta def m of (ev, m') \<Rightarrow>
                  register_loop now evclk meta gen rest (Suc sz) (events @ [ev]) m')
      | Some svc \<Rightarrow>
          if changed (sv_def svc) def then
            (let oldName = s_Name (sv_def svc);
                 (idx, m') = next_index m;
                 svc' = svc\<lparr>sv_def := def, sv_lastState := HealthPassing, sv_modifyIndex := idx\<rparr>;
                 m' = reindex_name (n_ID meta) oldName def (put_svc (n_ID meta) (s_ID def) svc' m')
             in register_loop now evclk meta gen rest sz
                  (events @ [putEvent (m_opts m) evclk meta svc']) m')
          else
            register_loop now evclk meta gen rest sz events
              (put_svc (n_ID meta) (s_ID def) (svc\<lparr>sv_def := (sv_def svc)\<lparr>s_LastSeen := now\<rparr>\<rparr>) m))"

definition Memory_Register :: "time \<Rightarrow> clock \<Rightarrow> Registration \<Rightarrow> Memory \<Rightarrow> outcome" where
  "Memory_Register now evclk reg m =
     (if n_ID (r_Node reg) = [] then (Some ErrInvalid, [], m)
      else if list_ex (\<lambda>s. s_Name s = []) (r_Services reg) then (Some ErrInvalid, [], m)
      else register_loop now evclk (r_Node reg) (r_Generation reg) (r_Services reg)
             (Memory_Size m) [] (touch_node (r_Node reg) m))"

section \<open>Merge\<close>

fun merge_loop :: "clock \<Rightarrow> ServiceEntry list \<Rightarrow> nat \<Rightarrow> ChangeEvent list \<Rightarrow> nat \<Rightarrow> Memory
    \<Rightarrow> nat \<times> ChangeEvent list \<times> Memory" where
  "merge_loop evclk [] sz events applied m = (applied, emit m events, m)"
| "merge_loop evclk (e # es) sz events applied m =
     (if n_ID (e_Node e) = [] \<or> s_ID (e_Service e) = [] then merge_loop evclk es sz events applied m
      else
        let m = touch_node (e_Node e) m;
            def = (e_Service e)\<lparr>s_TTL := clampTTL (m_opts m) (s_TTL (e_Service e))\<rparr> in
        case svc_at m (n_ID (e_Node e)) (s_ID def) of
          None \<Rightarrow>
            if o_MaxServices (m_opts m) > 0 \<and> int sz \<ge> o_MaxServices (m_opts m)
            then merge_loop evclk es sz events applied m
            else (case create_svc evclk (e_Node e) def m of (ev, m') \<Rightarrow>
                    merge_loop evclk es (Suc sz) (events @ [ev]) (Suc applied) m')
        | Some svc \<Rightarrow>
            if WinsLWW def (sv_def svc) then
              (let oldName = s_Name (sv_def svc);
                   (idx, m') = next_index m;
                   svc' = svc\<lparr>sv_def := def, sv_modifyIndex := idx\<rparr>;
                   m' = reindex_name (n_ID (e_Node e)) oldName def
                          (put_svc (n_ID (e_Node e)) (s_ID def) svc' m')
               in merge_loop evclk es sz (events @ [putEvent (m_opts m) evclk (e_Node e) svc'])
                    (Suc applied) m')
            else merge_loop evclk es sz events applied m)"

definition Memory_Merge :: "clock \<Rightarrow> ServiceEntry list \<Rightarrow> Memory \<Rightarrow> nat \<times> ChangeEvent list \<times> Memory" where
  "Memory_Merge evclk entries m = merge_loop evclk entries (Memory_Size m) [] 0 m"

section \<open>Renew and Fail\<close>

definition renew_svc :: "time \<Rightarrow> service \<Rightarrow> service" where
  "renew_svc now svc = svc\<lparr>sv_def := (sv_def svc)\<lparr>s_LastSeen := now\<rparr>, sv_failed := False\<rparr>"

fun renew_loop :: "time \<Rightarrow> string \<Rightarrow> string list \<Rightarrow> Memory \<Rightarrow> StoreError option \<times> Memory" where
  "renew_loop now nodeID [] m = (None, m)"
| "renew_loop now nodeID (sid # ids) m =
     (case svc_at m nodeID sid of
        None \<Rightarrow> (Some ErrNotFound, m)
      | Some svc \<Rightarrow> renew_loop now nodeID ids (put_svc nodeID sid (renew_svc now svc) m))"

definition Memory_Renew :: "time \<Rightarrow> string \<Rightarrow> string list \<Rightarrow> Memory \<Rightarrow> StoreError option \<times> Memory" where
  "Memory_Renew now nodeID serviceIDs m =
     (case fmlookup (m_nodes m) nodeID of
        None \<Rightarrow> (Some ErrNotFound, m)
      | Some n \<Rightarrow>
          if serviceIDs = [] then
            (None, m\<lparr>m_nodes := fmupd nodeID
               (n\<lparr>nd_services := fmmap (renew_svc now) (nd_services n)\<rparr>) (m_nodes m)\<rparr>)
          else renew_loop now nodeID serviceIDs m)"

definition Memory_Fail :: "clock \<Rightarrow> string \<Rightarrow> string \<Rightarrow> Memory \<Rightarrow> outcome" where
  "Memory_Fail evclk nodeID serviceID m =
     (case fmlookup (m_nodes m) nodeID of
        None \<Rightarrow> (Some ErrNotFound, [], m)
      | Some n \<Rightarrow>
          (case fmlookup (nd_services n) serviceID of
             None \<Rightarrow> (Some ErrNotFound, [], m)
           | Some svc \<Rightarrow>
               if sv_failed svc then (None, [], m)
               else
                 (let (idx, m') = next_index m;
                      svc' = svc\<lparr>sv_failed := True, sv_modifyIndex := idx\<rparr>
                  in (None, emit m [putEvent (m_opts m) evclk (nd_meta n) svc'],
                      put_svc nodeID serviceID svc' m'))))"

section \<open>Deregister, DeregisterService, SetMaintenance\<close>

fun deregister_loop :: "string \<Rightarrow> node \<Rightarrow> string list \<Rightarrow> ChangeEvent list \<Rightarrow> Memory
    \<Rightarrow> ChangeEvent list \<times> Memory" where
  "deregister_loop nodeID n [] events m = (events, m)"
| "deregister_loop nodeID n (sid # ids) events m =
     (case fmlookup (nd_services n) sid of
        None \<Rightarrow> deregister_loop nodeID n ids events m
      | Some svc \<Rightarrow>
          (let (idx, m) = next_index m;
               svc' = svc\<lparr>sv_modifyIndex := idx\<rparr>
           in deregister_loop nodeID n ids (events @ [deleteEvent (nd_meta n) svc'])
                (unindexName nodeID (s_Name (sv_def svc)) sid m)))"

definition Memory_Deregister :: "string list \<Rightarrow> string \<Rightarrow> Memory \<Rightarrow> outcome" where
  "Memory_Deregister order nodeID m =
     (case fmlookup (m_nodes m) nodeID of
        None \<Rightarrow> (Some ErrNotFound, [], m)
      | Some n \<Rightarrow>
          (case deregister_loop nodeID n order [] m of (events, m') \<Rightarrow>
             (None, emit m events, m'\<lparr>m_nodes := fmdrop nodeID (m_nodes m')\<rparr>)))"

definition drop_empty_node :: "string \<Rightarrow> Memory \<Rightarrow> Memory" where
  "drop_empty_node nodeID m =
     (case fmlookup (m_nodes m) nodeID of
        None \<Rightarrow> m
      | Some n \<Rightarrow> if fmlen (nd_services n) = 0 then m\<lparr>m_nodes := fmdrop nodeID (m_nodes m)\<rparr> else m)"

definition Memory_DeregisterService :: "string \<Rightarrow> string \<Rightarrow> Memory \<Rightarrow> outcome" where
  "Memory_DeregisterService nodeID serviceID m =
     (case fmlookup (m_nodes m) nodeID of
        None \<Rightarrow> (Some ErrNotFound, [], m)
      | Some n \<Rightarrow>
          (case fmlookup (nd_services n) serviceID of
             None \<Rightarrow> (Some ErrNotFound, [], m)
           | Some svc \<Rightarrow>
               (let (idx, m') = next_index m;
                    svc' = svc\<lparr>sv_modifyIndex := idx\<rparr>;
                    event = deleteEvent (nd_meta n) svc';
                    m' = unindexName nodeID (s_Name (sv_def svc)) serviceID
                           (delete_svc nodeID serviceID m')
                in (None, emit m [event], drop_empty_node nodeID m'))))"

definition Memory_SetMaintenance :: "clock \<Rightarrow> string \<Rightarrow> string \<Rightarrow> bool \<Rightarrow> Memory \<Rightarrow> outcome" where
  "Memory_SetMaintenance evclk nodeID serviceID enabled m =
     (case fmlookup (m_nodes m) nodeID of
        None \<Rightarrow> (Some ErrNotFound, [], m)
      | Some n \<Rightarrow>
          (case fmlookup (nd_services n) serviceID of
             None \<Rightarrow> (Some ErrNotFound, [], m)
           | Some svc \<Rightarrow>
               if sv_maintenance svc = enabled then (None, [], m)
               else
                 (let (idx, m') = next_index m;
                      svc' = svc\<lparr>sv_maintenance := enabled, sv_modifyIndex := idx\<rparr>
                  in (None, emit m [putEvent (m_opts m) evclk (nd_meta n) svc'],
                      put_svc nodeID serviceID svc' m'))))"

section \<open>Lookup\<close>

text \<open>The references the two branches of \<^verbatim>\<open>Lookup\<close> visit, in one of the orders \<^verbatim>\<open>range\<close> may take.\<close>

definition visit_all :: "Memory \<Rightarrow> svcRef list" where
  "visit_all m =
     concat (map (\<lambda>nid. map (Pair nid) (range_keys (nd_services (the (fmlookup (m_nodes m) nid)))))
       (range_keys (m_nodes m)))"

definition visit_named :: "Memory \<Rightarrow> string \<Rightarrow> svcRef list" where
  "visit_named m name =
     (case fmlookup (m_byName m) name of None \<Rightarrow> [] | Some S \<Rightarrow> sorted_list_of_fset S)"

definition visit :: "time \<Rightarrow> Query \<Rightarrow> Memory \<Rightarrow> svcRef \<Rightarrow> ServiceEntry option" where
  "visit now q m ref =
     (case fmlookup (m_nodes m) (fst ref) of
        None \<Rightarrow> None
      | Some n \<Rightarrow>
          (case fmlookup (nd_services n) (snd ref) of
             None \<Rightarrow> None
           | Some svc \<Rightarrow>
               if q_Datacenter q \<noteq> [] \<and> n_Datacenter (nd_meta n) \<noteq> q_Datacenter q then None
               else if \<not> MatchesTags (sv_def svc) (q_Tags q) then None
               else (case lease (m_opts m) svc now of (state, expired) \<Rightarrow>
                       if expired then None else Some (entry (nd_meta n) svc state))))"

definition lookup_visiting :: "svcRef list \<Rightarrow> time \<Rightarrow> Query \<Rightarrow> Memory \<Rightarrow> ServiceEntry list" where
  "lookup_visiting refs now q m =
     sort_key (\<lambda>e. (n_ID (e_Node e), s_ID (e_Service e))) (List.map_filter (visit now q m) refs)"

definition Memory_Lookup :: "time \<Rightarrow> Query \<Rightarrow> Memory \<Rightarrow> LookupResult" where
  "Memory_Lookup now q m =
     \<lparr>lr_Entries = lookup_visiting
        (if q_Name q = [] then visit_all m else visit_named m (q_Name q)) now q m,
      lr_Index = m_index m\<rparr>"

section \<open>GC\<close>

fun gc_services :: "time \<Rightarrow> clock \<Rightarrow> string \<Rightarrow> string list \<Rightarrow> ChangeEvent list \<Rightarrow> nat \<Rightarrow> Memory
    \<Rightarrow> ChangeEvent list \<times> nat \<times> Memory" where
  "gc_services now evclk nodeID [] events removed m = (events, removed, m)"
| "gc_services now evclk nodeID (sid # ids) events removed m =
     (case fmlookup (m_nodes m) nodeID of
        None \<Rightarrow> gc_services now evclk nodeID ids events removed m
      | Some n \<Rightarrow>
          (case fmlookup (nd_services n) sid of
             None \<Rightarrow> gc_services now evclk nodeID ids events removed m
           | Some svc \<Rightarrow>
               (case lease (m_opts m) svc now of (state, expired) \<Rightarrow>
                  if expired then
                    (let (idx, m') = next_index m;
                         svc' = svc\<lparr>sv_modifyIndex := idx\<rparr>
                     in gc_services now evclk nodeID ids
                          (events @ [deleteEvent (nd_meta n) svc']) (Suc removed)
                          (unindexName nodeID (s_Name (sv_def svc)) sid (delete_svc nodeID sid m')))
                  else if state \<noteq> sv_lastState svc then
                    (let (idx, m') = next_index m;
                         svc' = svc\<lparr>sv_lastState := state, sv_modifyIndex := idx\<rparr>
                     in gc_services now evclk nodeID ids
                          (events @ [putEvent (m_opts m) evclk (nd_meta n) svc']) removed
                          (put_svc nodeID sid svc' m'))
                  else gc_services now evclk nodeID ids events removed m)))"

fun gc_nodes :: "time \<Rightarrow> clock \<Rightarrow> (string \<times> string list) list \<Rightarrow> ChangeEvent list \<Rightarrow> nat \<Rightarrow> Memory
    \<Rightarrow> ChangeEvent list \<times> nat \<times> Memory" where
  "gc_nodes now evclk [] events removed m = (events, removed, m)"
| "gc_nodes now evclk ((nodeID, ids) # rest) events removed m =
     (case gc_services now evclk nodeID ids events removed m of (events', removed', m') \<Rightarrow>
        gc_nodes now evclk rest events' removed' (drop_empty_node nodeID m'))"

definition Memory_GC :: "(string \<times> string list) list \<Rightarrow> time \<Rightarrow> clock \<Rightarrow> Memory
    \<Rightarrow> nat \<times> ChangeEvent list \<times> Memory" where
  "Memory_GC order now evclk m =
     (case gc_nodes now evclk order [] 0 m of (events, removed, m') \<Rightarrow> (removed, emit m events, m'))"

text \<open>The orders a \<^verbatim>\<open>GC\<close> may visit the registry in.\<close>

definition gc_order :: "Memory \<Rightarrow> (string \<times> string list) list \<Rightarrow> bool" where
  "gc_order m order \<longleftrightarrow>
     range_order (m_nodes m) (map fst order) \<and>
     list_all (\<lambda>(nid, ids). range_order (nd_services (the (fmlookup (m_nodes m) nid))) ids) order"

definition some_gc_order :: "Memory \<Rightarrow> (string \<times> string list) list" where
  "some_gc_order m =
     map (\<lambda>nid. (nid, range_keys (nd_services (the (fmlookup (m_nodes m) nid))))) (range_keys (m_nodes m))"

section \<open>The GC loop\<close>

definition defaultGCInterval :: duration where
  "defaultGCInterval = 5 * second"

definition GCLoop_interval :: "duration \<Rightarrow> duration" where
  "GCLoop_interval interval = (if interval \<le> 0 then defaultGCInterval else interval)"

text \<open>One tick of \<^verbatim>\<open>GCLoop.Start\<close>: what the reap hook receives, the events and the new registry.\<close>

definition GCLoop_tick :: "(string \<times> string list) list \<Rightarrow> time \<Rightarrow> clock \<Rightarrow> Memory
    \<Rightarrow> (nat \<times> nat) \<times> ChangeEvent list \<times> Memory" where
  "GCLoop_tick order now evclk m =
     (case Memory_GC order now evclk m of (n, events, m') \<Rightarrow> ((n, Memory_Size m'), events, m'))"

end
