(* ===== verification/Store_View.thy ===== *)
theory Store_View
  imports Store
begin

text \<open>
  The registry seen through two functions: \<^const>\<open>svc_at\<close>, the service stored under a node id and a
  service id, and \<open>named\<close>, the references the name index holds for a service name. Every primitive
  of the store is characterised by what it does to these two, to the index counter and to the
  nodes; the proofs about the operations rewrite with these laws and never unfold the nested maps.
\<close>

definition named :: "Memory \<Rightarrow> string \<Rightarrow> svcRef fset" where
  "named m name = (case fmlookup (m_byName m) name of None \<Rightarrow> {||} | Some S \<Rightarrow> S)"

definition meta_at :: "Memory \<Rightarrow> string \<Rightarrow> Node option" where
  "meta_at m nid = map_option nd_meta (fmlookup (m_nodes m) nid)"

definition no_empty_name :: "Memory \<Rightarrow> bool" where
  "no_empty_name m \<longleftrightarrow> (\<forall>name. fmlookup (m_byName m) name \<noteq> Some {||})"

section \<open>Laws of the primitives\<close>

lemma svc_at_node: "svc_at m nid sid = Some svc \<Longrightarrow>
   \<exists>n. fmlookup (m_nodes m) nid = Some n \<and> fmlookup (nd_services n) sid = Some svc"
  by (auto simp: svc_at_def split: option.splits)

lemma svc_at_meta: "svc_at m nid sid = Some svc \<Longrightarrow> \<exists>meta. meta_at m nid = Some meta"
  by (auto simp: svc_at_def meta_at_def split: option.splits)

lemma svc_at_put_svc [store_simps]:
  "svc_at (put_svc nid sid svc m) nid' sid' =
     (if nid' = nid \<and> sid' = sid \<and> meta_at m nid \<noteq> None then Some svc else svc_at m nid' sid')"
  by (auto simp: svc_at_def put_svc_def meta_at_def split: option.splits)

lemma svc_at_delete_svc [store_simps]:
  "svc_at (delete_svc nid sid m) nid' sid' =
     (if nid' = nid \<and> sid' = sid then None else svc_at m nid' sid')"
  by (auto simp: svc_at_def delete_svc_def split: option.splits)

lemma svc_at_touch_node [store_simps]: "svc_at (touch_node meta m) nid sid = svc_at m nid sid"
  by (auto simp: svc_at_def touch_node_def split: option.splits)

lemma svc_at_indexName [store_simps]: "svc_at (indexName nid def m) = svc_at m"
  by (intro ext) (simp add: svc_at_def indexName_def Let_def)

lemma svc_at_unindexName [store_simps]: "svc_at (unindexName nid name sid m) = svc_at m"
  by (intro ext) (simp add: svc_at_def unindexName_def Let_def split: option.splits)

lemma svc_at_reindex_name [store_simps]: "svc_at (reindex_name nid name def m) = svc_at m"
  by (simp add: reindex_name_def store_simps)

lemma svc_at_index_update [store_simps]: "svc_at (m\<lparr>m_index := i\<rparr>) = svc_at m"
  by (intro ext) (simp add: svc_at_def)

lemma svc_at_drop_empty_node [store_simps]: "svc_at (drop_empty_node nid m) nid' sid = svc_at m nid' sid"
  by (auto simp: svc_at_def drop_empty_node_def split: option.splits)

lemma meta_at_put_svc [store_simps]: "meta_at (put_svc nid sid svc m) = meta_at m"
  by (auto simp: meta_at_def put_svc_def fun_eq_iff split: option.splits)

lemma meta_at_delete_svc [store_simps]: "meta_at (delete_svc nid sid m) = meta_at m"
  by (auto simp: meta_at_def delete_svc_def fun_eq_iff split: option.splits)

lemma meta_at_touch_node [store_simps]:
  "meta_at (touch_node meta m) nid = (if nid = n_ID meta then Some meta else meta_at m nid)"
  by (auto simp: meta_at_def touch_node_def split: option.splits)

lemma meta_at_indexName [store_simps]: "meta_at (indexName nid def m) = meta_at m"
  by (auto simp: meta_at_def indexName_def Let_def)

lemma meta_at_unindexName [store_simps]: "meta_at (unindexName nid name sid m) = meta_at m"
  by (auto simp: meta_at_def unindexName_def Let_def fun_eq_iff split: option.splits)

lemma meta_at_reindex_name [store_simps]: "meta_at (reindex_name nid name def m) = meta_at m"
  by (simp add: reindex_name_def store_simps)

lemma meta_at_index_update [store_simps]: "meta_at (m\<lparr>m_index := i\<rparr>) = meta_at m"
  by (auto simp: meta_at_def)

lemma meta_at_drop_empty_node:
  "meta_at (drop_empty_node nid m) nid' =
     (if nid' = nid \<and> (\<forall>sid. svc_at m nid sid = None) then None else meta_at m nid')"
proof -
  have "fmlen S = 0 \<longleftrightarrow> (\<forall>sid. fmlookup S sid = None)" for S :: "(string, service) fmap"
    by (auto intro: fmap_ext)
  then show ?thesis
    by (auto simp: meta_at_def drop_empty_node_def svc_at_def split: option.splits)
qed

lemma named_indexName [store_simps]:
  "named (indexName nid def m) name =
     (if name = s_Name def then finsert (nid, s_ID def) (named m name) else named m name)"
  by (auto simp: named_def indexName_def Let_def split: option.splits)

lemma named_unindexName [store_simps]:
  "named (unindexName nid name sid m) name' =
     (if name' = name then named m name' |-| {|(nid, sid)|} else named m name')"
  by (auto simp: named_def unindexName_def Let_def split: option.splits)

lemma named_reindex_name [store_simps]:
  "named (reindex_name nid old def m) name =
     (if old = s_Name def then named m name
      else if name = s_Name def then finsert (nid, s_ID def) (named m name)
      else if name = old then named m name |-| {|(nid, s_ID def)|}
      else named m name)"
  by (simp add: reindex_name_def store_simps)

lemma named_put_svc [store_simps]: "named (put_svc nid sid svc m) = named m"
  by (auto simp: named_def put_svc_def fun_eq_iff split: option.splits)

lemma named_delete_svc [store_simps]: "named (delete_svc nid sid m) = named m"
  by (auto simp: named_def delete_svc_def fun_eq_iff split: option.splits)

lemma named_touch_node [store_simps]: "named (touch_node meta m) = named m"
  by (auto simp: named_def touch_node_def fun_eq_iff split: option.splits)

lemma named_index_update [store_simps]: "named (m\<lparr>m_index := i\<rparr>) = named m"
  by (auto simp: named_def)

lemma named_drop_empty_node [store_simps]: "named (drop_empty_node nid m) = named m"
  by (auto simp: named_def drop_empty_node_def fun_eq_iff split: option.splits)

lemma m_index_prim [store_simps]:
  "m_index (put_svc nid sid svc m) = m_index m" "m_index (delete_svc nid sid m) = m_index m"
  "m_index (touch_node meta m) = m_index m" "m_index (indexName nid def m) = m_index m"
  "m_index (unindexName nid name sid m) = m_index m" "m_index (drop_empty_node nid m) = m_index m"
  "m_index (reindex_name nid name def m) = m_index m"
  by (auto simp: put_svc_def delete_svc_def touch_node_def indexName_def unindexName_def
      drop_empty_node_def reindex_name_def Let_def split: option.splits)

lemma m_opts_prim [store_simps]:
  "m_opts (put_svc nid sid svc m) = m_opts m" "m_opts (delete_svc nid sid m) = m_opts m"
  "m_opts (touch_node meta m) = m_opts m" "m_opts (indexName nid def m) = m_opts m"
  "m_opts (unindexName nid name sid m) = m_opts m" "m_opts (drop_empty_node nid m) = m_opts m"
  "m_opts (reindex_name nid name def m) = m_opts m"
  by (auto simp: put_svc_def delete_svc_def touch_node_def indexName_def unindexName_def
      drop_empty_node_def reindex_name_def Let_def split: option.splits)

lemma no_empty_name_indexName [store_simps]:
  "no_empty_name m \<Longrightarrow> no_empty_name (indexName nid def m)"
  by (auto simp: no_empty_name_def indexName_def Let_def)

lemma no_empty_name_unindexName [store_simps]:
  "no_empty_name m \<Longrightarrow> no_empty_name (unindexName nid name sid m)"
  by (auto simp: no_empty_name_def unindexName_def Let_def split: option.splits)

lemma no_empty_name_prim [store_simps]:
  "no_empty_name (put_svc nid sid svc m) = no_empty_name m"
  "no_empty_name (delete_svc nid sid m) = no_empty_name m"
  "no_empty_name (touch_node meta m) = no_empty_name m"
  "no_empty_name (drop_empty_node nid m) = no_empty_name m"
  "no_empty_name (m\<lparr>m_index := i\<rparr>) = no_empty_name m"
  by (auto simp: no_empty_name_def put_svc_def delete_svc_def touch_node_def drop_empty_node_def
      split: option.splits)

lemma no_empty_name_reindex_name [store_simps]:
  "no_empty_name m \<Longrightarrow> no_empty_name (reindex_name nid name def m)"
  by (simp add: reindex_name_def store_simps)

section \<open>The number of services\<close>

definition keys :: "Memory \<Rightarrow> svcRef set" where
  "keys m = {(nid, sid). svc_at m nid sid \<noteq> None}"

lemma keys_Sigma: "keys m = Sigma (fmdom' (m_nodes m)) (\<lambda>nid. fmdom' (nd_services (the (fmlookup (m_nodes m) nid))))"
  by (auto simp: keys_def svc_at_def split: option.splits)

lemma finite_keys [simp]: "finite (keys m)"
  by (simp add: keys_Sigma)

lemma Memory_Size_card: "Memory_Size m = card (keys m)"
proof -
  have card: "fmlen S = card (fmdom' S)" for S :: "(string, service) fmap"
    by (simp add: fmlen_def fcard.rep_eq fmdom'_alt_def)
  have "card (keys m) = (\<Sum>nid\<in>fmdom' (m_nodes m). fmlen (nd_services (the (fmlookup (m_nodes m) nid))))"
    by (simp add: keys_Sigma card)
  also have "\<dots> = Memory_Size m"
    by (simp add: Memory_Size_def range_values_def comp_def sum_list_distinct_conv_sum_set)
  finally show ?thesis by simp
qed

lemma keys_put_svc: "meta_at m nid \<noteq> None \<Longrightarrow> keys (put_svc nid sid svc m) = insert (nid, sid) (keys m)"
  by (auto simp: keys_def store_simps)

lemma keys_delete_svc: "keys (delete_svc nid sid m) = keys m - {(nid, sid)}"
  by (auto simp: keys_def store_simps)

lemma keys_prim [store_simps]:
  "keys (touch_node meta m) = keys m" "keys (indexName nid def m) = keys m"
  "keys (unindexName nid name sid m) = keys m" "keys (drop_empty_node nid m) = keys m"
  "keys (reindex_name nid name def m) = keys m" "keys (m\<lparr>m_index := i\<rparr>) = keys m"
  by (simp_all add: keys_def store_simps)

lemma keys_put_svc_same: "svc_at m nid sid = Some svc \<Longrightarrow> keys (put_svc nid sid svc' m) = keys m"
  by (auto simp: keys_def store_simps)

end
