(* ===== verification/Store_Steps.thy ===== *)
theory Store_Steps
  imports Store_View
begin

text \<open>
  The registry as a state machine. \<open>mstep\<close> lists the atomic changes an operation makes to the
  registry and the event each appends to the batch; every operation of \<^verbatim>\<open>Store\<close> is a sequence of
  them (\<open>Memory_Register_msteps\<close> and its siblings). \<open>mem_step\<close> is the step relation of the whole
  component, one rule per operation, and \<open>mem_reach\<close> the states it reaches from \<^const>\<open>NewMemory\<close>.
  An invariant is proved once per atomic change and holds of every reachable registry.
\<close>

section \<open>Atomic changes\<close>

definition has_capacity :: "Memory \<Rightarrow> bool" where
  "has_capacity m \<longleftrightarrow> \<not> (o_MaxServices (m_opts m) > 0 \<and> int (Memory_Size m) \<ge> o_MaxServices (m_opts m))"

definition clamped :: "Options \<Rightarrow> duration \<Rightarrow> bool" where
  "clamped opts d \<longleftrightarrow> (\<exists>d0. d = clampTTL opts d0)"

inductive mstep :: "Memory \<Rightarrow> ChangeEvent list \<Rightarrow> Memory \<Rightarrow> bool" where
  touch: "n_ID meta \<noteq> [] \<Longrightarrow> mstep m [] (touch_node meta m)"
| create: "meta_at m (n_ID meta) = Some meta \<Longrightarrow> n_ID meta \<noteq> [] \<Longrightarrow> s_ID def \<noteq> [] \<Longrightarrow>
    svc_at m (n_ID meta) (s_ID def) = None \<Longrightarrow> has_capacity m \<Longrightarrow> clamped (m_opts m) (s_TTL def) \<Longrightarrow>
    create_svc evclk meta def m = (ev, m') \<Longrightarrow> mstep m [ev] m'"
| update: "svc_at m nid (s_ID (sv_def svc')) = Some svc \<Longrightarrow> meta_at m nid = Some meta \<Longrightarrow>
    sv_createIndex svc' = sv_createIndex svc \<Longrightarrow> sv_modifyIndex svc' = m_index m + 1 \<Longrightarrow>
    s_TTL (sv_def svc') = s_TTL (sv_def svc) \<or> clamped (m_opts m) (s_TTL (sv_def svc')) \<Longrightarrow>
    mstep m [putEvent (m_opts m) evclk meta svc']
      (reindex_name nid (s_Name (sv_def svc)) (sv_def svc')
        (put_svc nid (s_ID (sv_def svc')) svc' (m\<lparr>m_index := m_index m + 1\<rparr>)))"
| refresh: "svc_at m nid sid = Some svc \<Longrightarrow>
    mstep m [] (put_svc nid sid (svc\<lparr>sv_def := (sv_def svc)\<lparr>s_LastSeen := now\<rparr>, sv_failed := f\<rparr>) m)"
| remove: "svc_at m nid sid = Some svc \<Longrightarrow> meta_at m nid = Some meta \<Longrightarrow>
    mstep m [deleteEvent meta (svc\<lparr>sv_modifyIndex := m_index m + 1\<rparr>)]
      (unindexName nid (s_Name (sv_def svc)) sid (delete_svc nid sid (m\<lparr>m_index := m_index m + 1\<rparr>)))"
| dropped: "mstep m [] (drop_empty_node nid m)"

inductive msteps :: "Memory \<Rightarrow> ChangeEvent list \<Rightarrow> Memory \<Rightarrow> bool" where
  msteps_refl: "msteps m [] m"
| msteps_snoc: "msteps m es m' \<Longrightarrow> mstep m' es' m'' \<Longrightarrow> msteps m (es @ es') m''"

lemma msteps_step: "mstep m es m' \<Longrightarrow> msteps m es m'"
  using msteps_snoc [OF msteps_refl] by simp

lemma msteps_trans: "msteps m' es' m'' \<Longrightarrow> msteps m es m' \<Longrightarrow> msteps m (es @ es') m''"
  by (induction rule: msteps.induct) (auto intro: msteps_snoc simp flip: append_assoc)

lemma msteps_silent: "msteps m es m' \<Longrightarrow> mstep m' [] m'' \<Longrightarrow> msteps m es m''"
  using msteps_snoc [of m es m' "[]" m''] by simp

text \<open>A reflexive and transitive relation kept by every atomic change is kept by sequences of them.\<close>

lemma msteps_invariant:
  assumes "msteps m es m'" and "I m" and "\<And>m es m'. mstep m es m' \<Longrightarrow> I m \<Longrightarrow> I m'"
  shows "I m'"
  using assms by (induction rule: msteps.induct) auto

section \<open>The operations are sequences of atomic changes\<close>

lemma s_ID_normalise_def: "s_ID svc \<noteq> [] \<or> s_Name svc \<noteq> [] \<Longrightarrow> s_ID (normalise_def opts now gen svc) \<noteq> []"
  by (auto simp: normalise_def_def Let_def)

lemma clamped_normalise_def [simp]: "clamped opts (s_TTL (normalise_def opts now gen svc))"
  by (auto simp: normalise_def_def Let_def clamped_def)

lemma clamped_clampTTL [simp]: "clamped opts (clampTTL opts d)"
  by (auto simp: clamped_def)

lemma m_opts_create_svc: "create_svc evclk meta def m = (ev, m') \<Longrightarrow> m_opts m' = m_opts m"
  by (auto simp: create_svc_def next_index_def Let_def store_simps)

lemma meta_at_create_svc: "create_svc evclk meta def m = (ev, m') \<Longrightarrow> meta_at m' = meta_at m"
  by (auto simp: create_svc_def next_index_def Let_def store_simps)

lemma keys_create_svc: "create_svc evclk meta def m = (ev, m') \<Longrightarrow> meta_at m (n_ID meta) \<noteq> None \<Longrightarrow>
    keys m' = insert (n_ID meta, s_ID def) (keys m)"
  by (auto simp: create_svc_def next_index_def Let_def store_simps keys_put_svc)

lemma not_key: "svc_at m nid sid = None \<Longrightarrow> (nid, sid) \<notin> keys m"
  by (simp add: keys_def)

lemma emit_opts: "m_opts m = m_opts m0 \<Longrightarrow> emit m es = emit m0 es"
  by (simp add: emit_def)

lemma Memory_Size_create_svc:
  "create_svc evclk meta def m = (ev, m') \<Longrightarrow> meta_at m (n_ID meta) \<noteq> None \<Longrightarrow>
   svc_at m (n_ID meta) (s_ID def) = None \<Longrightarrow> Memory_Size m' = Suc (Memory_Size m)"
  by (simp add: Memory_Size_card keys_create_svc) (simp add: card_insert_if not_key)

text \<open>
  What the loops of the operations keep: the state and the events so far come from the initial
  state by atomic changes, and the running size is the size.
\<close>

definition walk :: "Memory \<Rightarrow> nat \<Rightarrow> ChangeEvent list \<Rightarrow> Memory \<Rightarrow> bool" where
  "walk m0 sz events m \<longleftrightarrow> msteps m0 events m \<and> m_opts m = m_opts m0 \<and> sz = Memory_Size m"

lemma walk_start: "walk m (Memory_Size m) [] m"
  by (simp add: walk_def msteps_refl)

lemma walk_touch: "walk m0 sz events m \<Longrightarrow> n_ID meta \<noteq> [] \<Longrightarrow> walk m0 sz events (touch_node meta m)"
  by (auto simp: walk_def Memory_Size_card store_simps intro: msteps_silent mstep.touch)

lemma walk_create:
  assumes "walk m0 sz events m" "create_svc evclk meta def m = (ev, m1)" "clamped (m_opts m) (s_TTL def)"
    and "meta_at m (n_ID meta) = Some meta" "n_ID meta \<noteq> []" "s_ID def \<noteq> []"
    and "svc_at m (n_ID meta) (s_ID def) = None" "has_capacity m"
  shows "walk m0 (Suc sz) (events @ [ev]) m1"
proof -
  have "mstep m [ev] m1" using assms by (intro mstep.create) auto
  then show ?thesis
    using assms m_opts_create_svc [OF assms(2)] Memory_Size_create_svc [OF assms(2)]
    by (auto simp: walk_def intro: msteps_snoc)
qed

lemma walk_update:
  assumes "walk m0 sz events m" "svc_at m nid (s_ID (sv_def svc')) = Some svc" "meta_at m nid = Some meta"
    and "sv_createIndex svc' = sv_createIndex svc" "sv_modifyIndex svc' = m_index m + 1"
    and "s_TTL (sv_def svc') = s_TTL (sv_def svc) \<or> clamped (m_opts m) (s_TTL (sv_def svc'))"
  shows "walk m0 sz (events @ [putEvent (m_opts m) evclk meta svc'])
      (reindex_name nid (s_Name (sv_def svc)) (sv_def svc')
        (put_svc nid (s_ID (sv_def svc')) svc' (m\<lparr>m_index := m_index m + 1\<rparr>)))"
proof -
  from assms(1) have "msteps m0 events m" "m_opts m = m_opts m0" "sz = Memory_Size m"
    by (simp_all add: walk_def)
  then show ?thesis
    unfolding walk_def using msteps_snoc [OF _ mstep.update [OF assms(2-6)]] assms(2)
    by (simp add: Memory_Size_card store_simps keys_put_svc_same)
qed

lemma walk_refresh:
  assumes "walk m0 sz events m" "svc_at m nid sid = Some svc"
  shows "walk m0 sz events (put_svc nid sid (svc\<lparr>sv_def := (sv_def svc)\<lparr>s_LastSeen := now\<rparr>, sv_failed := f\<rparr>) m)"
  using assms msteps_silent [OF _ mstep.refresh [OF assms(2)]]
  by (simp add: walk_def Memory_Size_card store_simps keys_put_svc_same)

lemma walk_emit: "walk m0 sz events m \<Longrightarrow> emit m events = emit m0 events"
  by (rule emit_opts) (simp add: walk_def)

lemma walk_msteps: "walk m0 sz events m \<Longrightarrow> \<exists>raw. msteps m0 raw m \<and> emit m events = emit m0 raw"
  using walk_emit [of m0 sz events m] by (intro exI [of _ events]) (simp add: walk_def)

lemma register_loop_msteps:
  assumes "register_loop now evclk meta gen svcs sz events m = (err, out, m')"
    and "walk m0 sz events m" "meta_at m (n_ID meta) = Some meta" "n_ID meta \<noteq> []"
    and "\<forall>s\<in>set svcs. s_Name s \<noteq> []"
  shows "\<exists>raw. msteps m0 raw m' \<and> out = emit m0 raw"
  using assms
proof (induction svcs arbitrary: sz events m)
  case Nil
  then show ?case using walk_msteps [of m0 sz events m] by auto
next
  case (Cons s rest)
  define d where "d = normalise_def (m_opts m) now gen s"
  have d: "s_ID d \<noteq> []" "clamped (m_opts m) (s_TTL d)"
    using Cons.prems(5) by (auto simp: d_def s_ID_normalise_def)
  note run = Cons.prems(1) [simplified, folded d_def] and IH = Cons.IH [OF _ _ _ Cons.prems(4)]
  have sz: "sz = Memory_Size m" using Cons.prems(2) by (simp add: walk_def)
  consider (full) "svc_at m (n_ID meta) (s_ID d) = None" "\<not> has_capacity m"
    | (create) ev m1 where "svc_at m (n_ID meta) (s_ID d) = None" "has_capacity m"
        "create_svc evclk meta d m = (ev, m1)"
    | (update) svc where "svc_at m (n_ID meta) (s_ID d) = Some svc" "changed (sv_def svc) d"
    | (refresh) svc where "svc_at m (n_ID meta) (s_ID d) = Some svc" "\<not> changed (sv_def svc) d"
    by (cases "svc_at m (n_ID meta) (s_ID d)"; cases "create_svc evclk meta d m") auto
  then show ?case
  proof cases
    case full
    then show ?thesis using run walk_msteps [OF Cons.prems(2)] by (auto simp: has_capacity_def sz)
  next
    case create
    note w = walk_create [OF Cons.prems(2) create(3) d(2) Cons.prems(3,4) d(1) create(1,2)]
    show ?thesis
      by (rule IH [OF _ w])
         (use run create Cons.prems(3,5) in \<open>auto simp: has_capacity_def sz meta_at_create_svc [OF create(3)]\<close>)
  next
    case update
    define svc' where "svc' = svc\<lparr>sv_def := d, sv_lastState := HealthPassing, sv_modifyIndex := m_index m + 1\<rparr>"
    have "svc_at m (n_ID meta) (s_ID (sv_def svc')) = Some svc" using update by (simp add: svc'_def)
    note w = walk_update [OF Cons.prems(2) this Cons.prems(3), of evclk]
    show ?thesis
      by (rule IH [OF _ w])
         (use run update d Cons.prems(3,5) in \<open>auto simp: next_index_def Let_def svc'_def store_simps\<close>)
  next
    case refresh
    note w = walk_refresh [OF Cons.prems(2) refresh(1), where now = now and f = "sv_failed svc"]
    show ?thesis
      by (rule IH [OF _ w]) (use run refresh Cons.prems(3,5) in \<open>auto simp: store_simps\<close>)
  qed
qed

lemma Memory_Register_msteps:
  assumes "Memory_Register now evclk reg m = (err, out, m')"
  shows "\<exists>raw. msteps m raw m' \<and> out = emit m raw"
proof (cases "n_ID (r_Node reg) = [] \<or> list_ex (\<lambda>s. s_Name s = []) (r_Services reg)")
  case True
  then show ?thesis using assms msteps_refl [of m] by (fastforce simp: Memory_Register_def emit_def split: if_splits)
next
  case False
  then show ?thesis
    using assms register_loop_msteps [OF _ walk_touch [OF walk_start]]
    by (auto simp: Memory_Register_def list_ex_iff store_simps)
qed

lemma merge_loop_msteps:
  assumes "merge_loop evclk es sz events applied m = (n, out, m')" and "walk m0 sz events m"
  shows "\<exists>raw. msteps m0 raw m' \<and> out = emit m0 raw"
  using assms
proof (induction es arbitrary: sz events applied m)
  case Nil
  then show ?case using walk_msteps [of m0 sz events m] by auto
next
  case (Cons e es)
  define t where "t = touch_node (e_Node e) m"
  define d where "d = (e_Service e)\<lparr>s_TTL := clampTTL (m_opts t) (s_TTL (e_Service e))\<rparr>"
  note run = Cons.prems(1) [unfolded merge_loop.simps Let_def, folded t_def, folded d_def]
  show ?case
  proof (cases "n_ID (e_Node e) = [] \<or> s_ID (e_Service e) = []")
    case True
    then show ?thesis using run by (intro Cons.IH [OF _ Cons.prems(2)]) auto
  next
    case False
    let ?nid = "n_ID (e_Node e)"
    have t: "walk m0 sz events t" "meta_at t ?nid = Some (e_Node e)" "?nid \<noteq> []"
      using False walk_touch [OF Cons.prems(2)] by (auto simp: t_def store_simps)
    have d: "clamped (m_opts t) (s_TTL d)" "s_ID d \<noteq> []" using False by (simp_all add: d_def)
    have sz: "sz = Memory_Size t" using t(1) by (simp add: walk_def)
    consider (full) "svc_at t ?nid (s_ID d) = None" "\<not> has_capacity t"
      | (create) ev m1 where "svc_at t ?nid (s_ID d) = None" "has_capacity t"
          "create_svc evclk (e_Node e) d t = (ev, m1)"
      | (update) svc where "svc_at t ?nid (s_ID d) = Some svc" "WinsLWW d (sv_def svc)"
      | (stale) svc where "svc_at t ?nid (s_ID d) = Some svc" "\<not> WinsLWW d (sv_def svc)"
      by (cases "svc_at t ?nid (s_ID d)"; cases "create_svc evclk (e_Node e) d t") auto
    then show ?thesis
    proof cases
      case full
      then show ?thesis using run False by (intro Cons.IH [OF _ t(1)]) (auto simp: has_capacity_def sz)
    next
      case create
      show ?thesis
        by (rule Cons.IH [OF _ walk_create [OF t(1) create(3) d(1) t(2,3) d(2) create(1,2)]])
           (use run False create in \<open>auto simp: has_capacity_def sz\<close>)
    next
      case update
      have "svc_at t ?nid (s_ID (sv_def (svc\<lparr>sv_def := d, sv_modifyIndex := m_index t + 1\<rparr>))) = Some svc"
        using update by simp
      note w = walk_update [OF t(1) this t(2), of evclk]
      show ?thesis
        by (rule Cons.IH [OF _ w]) (use run False update d in \<open>auto simp: next_index_def Let_def\<close>)
    next
      case stale
      then show ?thesis using run False by (intro Cons.IH [OF _ t(1)]) auto
    qed
  qed
qed

lemma Memory_Merge_msteps:
  "Memory_Merge evclk es m = (n, out, m') \<Longrightarrow> \<exists>raw. msteps m raw m' \<and> out = emit m raw"
  unfolding Memory_Merge_def using merge_loop_msteps walk_start by blast

lemma renew_loop_msteps: "renew_loop now nid ids m = (err, m') \<Longrightarrow> msteps m0 [] m \<Longrightarrow> msteps m0 [] m'"
proof (induction ids arbitrary: m)
  case (Cons sid ids)
  show ?case
  proof (cases "svc_at m nid sid")
    case (Some svc)
    note st = msteps_silent [OF Cons.prems(2) mstep.refresh [OF Some, where now = now and f = False], folded renew_svc_def]
    show ?thesis using Cons.prems(1) Some by (intro Cons.IH [OF _ st]) simp
  qed (use Cons.prems in auto)
qed simp

text \<open>Renewing a whole node renews its services one by one.\<close>

definition renew_some :: "time \<Rightarrow> string set \<Rightarrow> node \<Rightarrow> node" where
  "renew_some now ids n =
     n\<lparr>nd_services := fmmap_keys (\<lambda>sid svc. if sid \<in> ids then renew_svc now svc else svc) (nd_services n)\<rparr>"

lemma renew_node_msteps:
  assumes "fmlookup (m_nodes m) nid = Some n"
  shows "set ids \<subseteq> fmdom' (nd_services n) \<Longrightarrow>
    msteps m [] (m\<lparr>m_nodes := fmupd nid (renew_some now (set ids) n) (m_nodes m)\<rparr>)"
proof (induction ids)
  case Nil
  have "m\<lparr>m_nodes := fmupd nid (renew_some now {} n) (m_nodes m)\<rparr> = m"
    using assms by (auto intro!: Memory.equality fmap_ext node.equality simp: renew_some_def fmlookup_fmmap_keys
        option.map_ident split: option.splits)
  then show ?case by (simp add: msteps_refl)
next
  case (Cons sid ids)
  define m1 where "m1 = m\<lparr>m_nodes := fmupd nid (renew_some now (set ids) n) (m_nodes m)\<rparr>"
  from Cons.prems obtain svc where svc: "fmlookup (nd_services n) sid = Some svc"
    by (auto simp: fmdom'I)
  have at: "svc_at m1 nid sid = Some (if sid \<in> set ids then renew_svc now svc else svc)" (is "_ = Some ?svc1")
    using svc by (simp add: m1_def svc_at_def renew_some_def fmlookup_fmmap_keys)
  have "renew_svc now ?svc1 = renew_svc now svc" by (simp add: renew_svc_def)
  then have "put_svc nid sid (renew_svc now ?svc1) m1 =
      m\<lparr>m_nodes := fmupd nid (renew_some now (set (sid # ids)) n) (m_nodes m)\<rparr>"
    using svc by (auto intro!: Memory.equality fmap_ext node.equality
        simp: put_svc_def m1_def renew_some_def fmlookup_fmmap_keys option.map_ident split: option.splits)
  moreover have "msteps m [] m1" using Cons by (simp add: m1_def)
  ultimately show ?case
    using msteps_silent [OF _ mstep.refresh [OF at, where now = now and f = False]] by (simp add: renew_svc_def)
qed

lemma Memory_Renew_msteps:
  assumes "Memory_Renew now nid ids m = (err, m')"
  shows "msteps m [] m'"
proof (cases "fmlookup (m_nodes m) nid")
  case None
  then show ?thesis using assms by (simp add: Memory_Renew_def msteps_refl)
next
  case (Some n)
  have "renew_some now (set (range_keys (nd_services n))) n = n\<lparr>nd_services := fmmap (renew_svc now) (nd_services n)\<rparr>"
    by (auto intro!: node.equality fmap_ext simp: renew_some_def fmlookup_fmmap_keys fmdom'I
        intro!: map_option_cong)
  then show ?thesis
    using assms Some renew_node_msteps [OF Some, of "range_keys (nd_services n)" now]
      renew_loop_msteps [OF _ msteps_refl]
    by (auto simp: Memory_Renew_def split: if_splits)
qed

lemma node_meta_svc:
  "fmlookup (m_nodes m) nid = Some n \<Longrightarrow> meta_at m nid = Some (nd_meta n)"
  "fmlookup (m_nodes m) nid = Some n \<Longrightarrow> svc_at m nid sid = fmlookup (nd_services n) sid"
  by (simp_all add: meta_at_def svc_at_def)

text \<open>A change of one service that keeps its definition.\<close>

lemma mstep_mark:
  assumes "svc_at m nid sid = Some svc" "s_ID (sv_def svc) = sid" "meta_at m nid = Some meta"
    and "sv_def svc' = sv_def svc" "sv_createIndex svc' = sv_createIndex svc" "sv_modifyIndex svc' = m_index m + 1"
  shows "mstep m [putEvent (m_opts m) evclk meta svc'] (put_svc nid sid svc' (m\<lparr>m_index := m_index m + 1\<rparr>))"
  using mstep.update [of m nid svc' svc meta evclk] assms by (simp add: reindex_name_def)

section \<open>Ids are keys\<close>

text \<open>Every node and every service is stored under its own id, which is not empty.\<close>

definition ids_ok :: "Memory \<Rightarrow> bool" where
  "ids_ok m \<longleftrightarrow>
     (\<forall>nid meta. meta_at m nid = Some meta \<longrightarrow> nid \<noteq> [] \<and> n_ID meta = nid) \<and>
     (\<forall>nid sid svc. svc_at m nid sid = Some svc \<longrightarrow> sid \<noteq> [] \<and> s_ID (sv_def svc) = sid)"

lemma ids_okD:
  "ids_ok m \<Longrightarrow> meta_at m nid = Some meta \<Longrightarrow> nid \<noteq> [] \<and> n_ID meta = nid"
  "ids_ok m \<Longrightarrow> svc_at m nid sid = Some svc \<Longrightarrow> sid \<noteq> [] \<and> s_ID (sv_def svc) = sid"
  by (simp_all add: ids_ok_def)

lemma svc_at_create_svc:
  "create_svc evclk meta def m = (ev, m') \<Longrightarrow> meta_at m (n_ID meta) \<noteq> None \<Longrightarrow>
   svc_at m' nid sid =
     (if nid = n_ID meta \<and> sid = s_ID def
      then Some \<lparr>sv_def = def, sv_maintenance = False, sv_failed = False, sv_lastState = HealthPassing,
                 sv_createIndex = m_index m + 1, sv_modifyIndex = m_index m + 1\<rparr>
      else svc_at m nid sid)"
  by (auto simp: create_svc_def next_index_def Let_def store_simps)

lemma ids_ok_mstep: "mstep m es m' \<Longrightarrow> ids_ok m \<Longrightarrow> ids_ok m'"
proof (induction rule: mstep.induct)
  case (create m meta def evclk ev m')
  have "svc_at m' nid sid = Some svc \<Longrightarrow> sid \<noteq> [] \<and> s_ID (sv_def svc) = sid" for nid sid svc
    using create(1,3) ids_okD(2) [OF create(8)]
    by (force simp: svc_at_create_svc [OF create(7)] split: if_splits)
  then show ?case
    using ids_okD(1) [OF create(8)] by (auto simp: ids_ok_def meta_at_create_svc [OF create(7)])
next
  case (update m nid svc' svc meta evclk)
  then show ?case unfolding ids_ok_def by (auto simp: store_simps split: if_splits)
next
  case (dropped m nid)
  then show ?case unfolding ids_ok_def by (auto simp: store_simps meta_at_drop_empty_node split: if_splits)
qed (auto simp: ids_ok_def store_simps split: if_splits)

lemma ids_ok_msteps: "msteps m es m' \<Longrightarrow> ids_ok m \<Longrightarrow> ids_ok m'"
  by (erule msteps_invariant) (auto intro: ids_ok_mstep)

section \<open>The remaining operations\<close>

lemma Memory_Fail_msteps:
  assumes "Memory_Fail evclk nid sid m = (err, out, m')" "ids_ok m"
  shows "\<exists>raw. msteps m raw m' \<and> out = emit m raw"
proof (cases "\<exists>n svc. fmlookup (m_nodes m) nid = Some n \<and> fmlookup (nd_services n) sid = Some svc \<and> \<not> sv_failed svc")
  case True
  then obtain n svc where n: "fmlookup (m_nodes m) nid = Some n" "fmlookup (nd_services n) sid = Some svc"
    "\<not> sv_failed svc" by blast
  have at: "svc_at m nid sid = Some svc" using n by (simp add: node_meta_svc)
  show ?thesis
    using assms n msteps_step [OF mstep_mark [OF at _ node_meta_svc(1) [OF n(1)], where evclk = evclk
        and svc' = "svc\<lparr>sv_failed := True, sv_modifyIndex := m_index m + 1\<rparr>"]] ids_okD(2) [OF assms(2) at]
    by (auto simp: Memory_Fail_def next_index_def Let_def)
next
  case False
  then have "out = []" "m' = m"
    using assms by (auto simp: Memory_Fail_def split: option.splits if_splits)
  then show ?thesis using msteps_refl [of m] by (auto simp: emit_def)
qed

lemma Memory_SetMaintenance_msteps:
  assumes "Memory_SetMaintenance evclk nid sid b m = (err, out, m')" "ids_ok m"
  shows "\<exists>raw. msteps m raw m' \<and> out = emit m raw"
proof (cases "\<exists>n svc. fmlookup (m_nodes m) nid = Some n \<and> fmlookup (nd_services n) sid = Some svc
    \<and> sv_maintenance svc \<noteq> b")
  case True
  then obtain n svc where n: "fmlookup (m_nodes m) nid = Some n" "fmlookup (nd_services n) sid = Some svc"
    "sv_maintenance svc \<noteq> b" by blast
  have at: "svc_at m nid sid = Some svc" using n by (simp add: node_meta_svc)
  show ?thesis
    using assms n msteps_step [OF mstep_mark [OF at _ node_meta_svc(1) [OF n(1)], where evclk = evclk
        and svc' = "svc\<lparr>sv_maintenance := b, sv_modifyIndex := m_index m + 1\<rparr>"]] ids_okD(2) [OF assms(2) at]
    by (auto simp: Memory_SetMaintenance_def next_index_def Let_def)
next
  case False
  then have "out = []" "m' = m"
    using assms by (auto simp: Memory_SetMaintenance_def split: option.splits if_splits)
  then show ?thesis using msteps_refl [of m] by (auto simp: emit_def)
qed

lemma Memory_DeregisterService_msteps:
  assumes "Memory_DeregisterService nid sid m = (err, out, m')"
  shows "\<exists>raw. msteps m raw m' \<and> out = emit m raw"
proof (cases "\<exists>n svc. fmlookup (m_nodes m) nid = Some n \<and> fmlookup (nd_services n) sid = Some svc")
  case True
  then obtain n svc where n: "fmlookup (m_nodes m) nid = Some n" "fmlookup (nd_services n) sid = Some svc"
    by blast
  have at: "svc_at m nid sid = Some svc" using n by (simp add: node_meta_svc)
  show ?thesis
    using assms n msteps_silent [OF msteps_step [OF mstep.remove [OF at node_meta_svc(1) [OF n(1)]]]
        mstep.dropped [of _ nid]]
    by (auto simp: Memory_DeregisterService_def next_index_def Let_def)
next
  case False
  then have "out = []" "m' = m"
    using assms by (auto simp: Memory_DeregisterService_def split: option.splits if_splits)
  then show ?thesis using msteps_refl [of m] by (auto simp: emit_def)
qed

lemma gc_services_msteps:
  assumes "gc_services now evclk nid ids events removed m = (events', removed', m')"
    and "msteps m0 events m" "ids_ok m"
  shows "msteps m0 events' m' \<and> ids_ok m'"
  using assms
proof (induction ids arbitrary: events removed m)
  case (Cons sid ids)
  show ?case
  proof (cases "svc_at m nid sid")
    case None
    then show ?thesis
      using Cons.prems by (intro Cons.IH [OF _ Cons.prems(2,3)]) (auto simp: svc_at_def split: option.splits)
  next
    case (Some svc)
    then obtain n where n: "fmlookup (m_nodes m) nid = Some n" "fmlookup (nd_services n) sid = Some svc"
      using svc_at_node by blast
    note meta = node_meta_svc(1) [OF n(1)] and sid = ids_okD(2) [OF Cons.prems(3) Some]
    obtain state expired where l: "lease (m_opts m) svc now = (state, expired)" by fastforce
    consider (gone) expired | (mark) "\<not> expired" "state \<noteq> sv_lastState svc"
      | (same) "\<not> expired" "state = sv_lastState svc" by blast
    then show ?thesis
    proof cases
      case gone
      note st = mstep.remove [OF Some meta]
      show ?thesis
        by (rule Cons.IH [OF _ msteps_snoc [OF Cons.prems(2) st] ids_ok_mstep [OF st Cons.prems(3)]])
           (use Cons.prems(1) n l gone in \<open>simp add: next_index_def Let_def\<close>)
    next
      case mark
      have st: "mstep m [putEvent (m_opts m) evclk (nd_meta n)
            (svc\<lparr>sv_lastState := state, sv_modifyIndex := m_index m + 1\<rparr>)]
          (put_svc nid sid (svc\<lparr>sv_lastState := state, sv_modifyIndex := m_index m + 1\<rparr>)
            (m\<lparr>m_index := m_index m + 1\<rparr>))"
        using Some meta sid by (intro mstep_mark) simp_all
      show ?thesis
        by (rule Cons.IH [OF _ msteps_snoc [OF Cons.prems(2) st] ids_ok_mstep [OF st Cons.prems(3)]])
           (use Cons.prems(1) n l mark in \<open>simp add: next_index_def Let_def\<close>)
    next
      case same
      then show ?thesis using Cons.prems n l by (intro Cons.IH [OF _ Cons.prems(2,3)]) simp
    qed
  qed
qed simp

lemma gc_nodes_msteps:
  assumes "gc_nodes now evclk order events removed m = (events', removed', m')"
    and "msteps m0 events m" "ids_ok m"
  shows "msteps m0 events' m'"
  using assms
proof (induction order arbitrary: events removed m)
  case (Cons x order)
  obtain nid ids where x: "x = (nid, ids)" by fastforce
  obtain es r m1 where g: "gc_services now evclk nid ids events removed m = (es, r, m1)"
    by (metis prod_cases3)
  have "msteps m0 es m1" "ids_ok m1" using gc_services_msteps [OF g Cons.prems(2,3)] by auto
  then have "msteps m0 es (drop_empty_node nid m1)" "ids_ok (drop_empty_node nid m1)"
    using ids_ok_mstep mstep.dropped by (blast intro: msteps_silent)+
  then show ?case using Cons.prems(1) g x by (intro Cons.IH [of es r "drop_empty_node nid m1"]) simp_all
qed simp

lemma Memory_GC_msteps:
  "Memory_GC order now evclk m = (n, out, m') \<Longrightarrow> ids_ok m \<Longrightarrow> \<exists>raw. msteps m raw m' \<and> out = emit m raw"
  using gc_nodes_msteps [OF _ msteps_refl] by (fastforce simp: Memory_GC_def split: prod.splits)

text \<open>
  \<^verbatim>\<open>Deregister\<close> unindexes the services one by one and deletes the node with all of them at the end.
  Deleting each service as it is unindexed and dropping the emptied node gives the same registry.
\<close>

definition same_but_node :: "string \<Rightarrow> Memory \<Rightarrow> Memory \<Rightarrow> bool" where
  "same_but_node nid m r \<longleftrightarrow>
     m_opts m = m_opts r \<and> m_byName m = m_byName r \<and> m_index m = m_index r \<and>
     fmdrop nid (m_nodes m) = fmdrop nid (m_nodes r)"

lemma same_but_node_remove:
  assumes "same_but_node nid m r"
  shows "same_but_node nid (unindexName nid name sid (m\<lparr>m_index := i\<rparr>))
     (unindexName nid name sid (delete_svc nid sid (r\<lparr>m_index := i\<rparr>)))"
  using assms
  by (auto simp: same_but_node_def unindexName_def delete_svc_def Let_def intro!: fmap_ext split: option.splits)

lemma deregister_loop_msteps:
  assumes "deregister_loop nid n ids events m = (events', m')"
    and "msteps m0 events r" "same_but_node nid m r" "meta_at r nid = Some (nd_meta n)" "distinct ids"
    and "\<forall>sid\<in>set ids. svc_at r nid sid = fmlookup (nd_services n) sid"
  shows "\<exists>r'. msteps m0 events' r' \<and> same_but_node nid m' r' \<and> meta_at r' nid \<noteq> None \<and>
           (\<forall>sid. svc_at r' nid sid = (if sid \<in> set ids then None else svc_at r nid sid))"
  using assms
proof (induction ids arbitrary: events m r)
  case (Cons sid ids)
  show ?case
  proof (cases "fmlookup (nd_services n) sid")
    case None
    have "svc_at r nid sid = None" using Cons.prems(6) None by simp
    then show ?thesis using Cons.IH [of events m r] Cons.prems None by auto
  next
    case (Some svc)
    have at: "svc_at r nid sid = Some svc" using Cons.prems(6) Some by simp
    have idx: "m_index m = m_index r" using Cons.prems(3) by (simp add: same_but_node_def)
    let ?r = "unindexName nid (s_Name (sv_def svc)) sid (delete_svc nid sid (r\<lparr>m_index := m_index r + 1\<rparr>))"
    let ?m = "unindexName nid (s_Name (sv_def svc)) sid (m\<lparr>m_index := m_index r + 1\<rparr>)"
    let ?e = "events @ [deleteEvent (nd_meta n) (svc\<lparr>sv_modifyIndex := m_index r + 1\<rparr>)]"
    have st: "msteps m0 ?e ?r"
      by (rule msteps_snoc [OF Cons.prems(2) mstep.remove [OF at Cons.prems(4)]])
    have run: "deregister_loop nid n ids ?e ?m = (events', m')"
      using Cons.prems(1) Some by (simp add: next_index_def idx)
    have "\<exists>r'. msteps m0 events' r' \<and> same_but_node nid m' r' \<and> meta_at r' nid \<noteq> None \<and>
        (\<forall>s. svc_at r' nid s = (if s \<in> set ids then None else svc_at ?r nid s))"
      by (rule Cons.IH [OF run st same_but_node_remove [OF Cons.prems(3)]])
         (use Cons.prems(4-6) in \<open>auto simp: store_simps\<close>)
    then obtain r' where r': "msteps m0 events' r'" "same_but_node nid m' r'" "meta_at r' nid \<noteq> None"
        "\<forall>s. svc_at r' nid s = (if s \<in> set ids then None else svc_at ?r nid s)" by blast
    then show ?thesis by (intro exI [of _ r']) (simp add: store_simps)
  qed
qed auto

lemma Memory_Deregister_msteps:
  assumes "Memory_Deregister order nid m = (err, out, m')"
    and "\<And>n. fmlookup (m_nodes m) nid = Some n \<Longrightarrow> range_order (nd_services n) order"
  shows "\<exists>raw. msteps m raw m' \<and> out = emit m raw"
proof (cases "fmlookup (m_nodes m) nid")
  case None
  then show ?thesis using assms msteps_refl [of m] by (auto simp: Memory_Deregister_def emit_def)
next
  case (Some n)
  have ord: "distinct order" "set order = fmdom' (nd_services n)"
    using assms(2) [OF Some] by (simp_all add: range_order_def)
  obtain es m1 where d: "deregister_loop nid n order [] m = (es, m1)" by fastforce
  have "same_but_node nid m m" by (simp add: same_but_node_def)
  from deregister_loop_msteps [OF d msteps_refl this node_meta_svc(1) [OF Some] ord(1)]
  obtain r where r: "msteps m es r" "same_but_node nid m1 r" "meta_at r nid \<noteq> None"
      "\<forall>sid. svc_at r nid sid = (if sid \<in> set order then None else svc_at m nid sid)"
    using node_meta_svc(2) [OF Some] by blast
  have empty: "svc_at r nid sid = None" for sid
    using r(4) ord node_meta_svc(2) [OF Some] by (auto simp: fmdom'_notI split: if_splits)
  from r(3) obtain k where k: "fmlookup (m_nodes r) nid = Some k" by (auto simp: meta_at_def)
  have "nd_services k = fmempty" using empty k by (auto intro!: fmap_ext simp: svc_at_def)
  then have "drop_empty_node nid r = m1\<lparr>m_nodes := fmdrop nid (m_nodes m1)\<rparr>"
    using k r(2) by (simp add: drop_empty_node_def same_but_node_def)
  then show ?thesis
    using assms(1) Some d msteps_silent [OF r(1) mstep.dropped [of r nid]]
    by (auto simp: Memory_Deregister_def)
qed

section \<open>The component's step relation\<close>

text \<open>One call of the store's interface: the registry before, the batch passed to \<^verbatim>\<open>OnChange\<close>, the registry after.\<close>

inductive mem_step :: "Memory \<Rightarrow> ChangeEvent list \<Rightarrow> Memory \<Rightarrow> bool" where
  Register: "Memory_Register now evclk reg m = (err, es, m') \<Longrightarrow> mem_step m es m'"
| Merge: "Memory_Merge evclk entries m = (n, es, m') \<Longrightarrow> mem_step m es m'"
| Renew: "Memory_Renew now nid ids m = (err, m') \<Longrightarrow> mem_step m [] m'"
| Fail: "Memory_Fail evclk nid sid m = (err, es, m') \<Longrightarrow> mem_step m es m'"
| Deregister: "Memory_Deregister order nid m = (err, es, m') \<Longrightarrow>
    (\<And>n. fmlookup (m_nodes m) nid = Some n \<Longrightarrow> range_order (nd_services n) order) \<Longrightarrow> mem_step m es m'"
| DeregisterService: "Memory_DeregisterService nid sid m = (err, es, m') \<Longrightarrow> mem_step m es m'"
| SetMaintenance: "Memory_SetMaintenance evclk nid sid b m = (err, es, m') \<Longrightarrow> mem_step m es m'"
| GC: "Memory_GC order now evclk m = (n, es, m') \<Longrightarrow> gc_order m order \<Longrightarrow> mem_step m es m'"

text \<open>The registries an execution reaches, each with the change stream it has published on the way.\<close>

inductive mem_reach :: "Options \<Rightarrow> ChangeEvent list \<Rightarrow> Memory \<Rightarrow> bool" for opts where
  reach_new: "mem_reach opts [] (NewMemory opts)"
| reach_step: "mem_reach opts es m \<Longrightarrow> mem_step m es' m' \<Longrightarrow> mem_reach opts (es @ es') m'"

declare mem_step.intros [step_intros] mem_reach.intros [step_intros]

lemma mem_step_msteps: "mem_step m es m' \<Longrightarrow> ids_ok m \<Longrightarrow> \<exists>raw. msteps m raw m' \<and> es = emit m raw"
proof (induction rule: mem_step.induct)
  case (Renew now nid ids m err m')
  then show ?case using Memory_Renew_msteps by (intro exI [of _ "[]"]) (auto simp: emit_def)
qed (simp_all add: Memory_Register_msteps Memory_Merge_msteps Memory_Fail_msteps Memory_Deregister_msteps
    Memory_DeregisterService_msteps Memory_SetMaintenance_msteps Memory_GC_msteps)

lemma ids_ok_NewMemory: "ids_ok (NewMemory opts)"
  by (simp add: ids_ok_def NewMemory_def Let_def svc_at_def meta_at_def)

lemma ids_ok_reach: "mem_reach opts es m \<Longrightarrow> ids_ok m"
  by (induction rule: mem_reach.induct) (use ids_ok_NewMemory mem_step_msteps ids_ok_msteps in blast)+

end
