(* ===== verification/Store_Inv.thy ===== *)
theory Store_Inv
  imports Store_Steps
begin

text \<open>
  What holds of every registry an execution reaches: the name index lists exactly the stored
  services, leases stay within the configured bounds, the size stays within the limit; what one
  operation does to the index counter and to the change stream, and that replaying the stream gives
  the registry back.
\<close>

section \<open>The invariants\<close>

text \<open>The name index holds exactly the references of the stored services and no empty bucket.\<close>

definition names_ok :: "Memory \<Rightarrow> bool" where
  "names_ok m \<longleftrightarrow>
     (\<forall>name nid sid. (nid, sid) |\<in>| named m name \<longleftrightarrow>
        (\<exists>svc. svc_at m nid sid = Some svc \<and> s_Name (sv_def svc) = name)) \<and>
     no_empty_name m"

text \<open>Every lease is positive and within the configured bounds.\<close>

definition ttl_ok :: "Options \<Rightarrow> duration \<Rightarrow> bool" where
  "ttl_ok opts d \<longleftrightarrow> d > 0 \<and>
     (o_MinTTL opts > 0 \<longrightarrow> d \<ge> (if o_MaxTTL opts > 0 then min (o_MinTTL opts) (o_MaxTTL opts) else o_MinTTL opts)) \<and>
     (o_MaxTTL opts > 0 \<longrightarrow> d \<le> o_MaxTTL opts)"

definition leases_ok :: "Memory \<Rightarrow> bool" where
  "leases_ok m \<longleftrightarrow> o_DefaultTTL (m_opts m) > 0 \<and>
     (\<forall>nid sid svc. svc_at m nid sid = Some svc \<longrightarrow> ttl_ok (m_opts m) (s_TTL (sv_def svc)))"

definition size_ok :: "Memory \<Rightarrow> bool" where
  "size_ok m \<longleftrightarrow> (o_MaxServices (m_opts m) > 0 \<longrightarrow> int (Memory_Size m) \<le> o_MaxServices (m_opts m))"

definition registry_ok :: "Memory \<Rightarrow> bool" where
  "registry_ok m \<longleftrightarrow> ids_ok m \<and> names_ok m \<and> leases_ok m \<and> size_ok m"

lemma names_okD: "names_ok m \<Longrightarrow> (nid, sid) |\<in>| named m name \<longleftrightarrow>
    (\<exists>svc. svc_at m nid sid = Some svc \<and> s_Name (sv_def svc) = name)"
  by (simp add: names_ok_def)

lemma clampTTL_ok: "o_DefaultTTL opts > 0 \<Longrightarrow> ttl_ok opts (clampTTL opts d)"
  by (auto simp: ttl_ok_def clampTTL_def Let_def)

lemma clamped_ok: "o_DefaultTTL opts > 0 \<Longrightarrow> clamped opts d \<Longrightarrow> ttl_ok opts d"
  by (auto simp: clamped_def clampTTL_ok)

section \<open>They are kept by every atomic change\<close>

lemma named_create_svc:
  "create_svc evclk meta def m = (ev, m') \<Longrightarrow>
   named m' name = (if name = s_Name def then finsert (n_ID meta, s_ID def) (named m name) else named m name)"
  by (auto simp: create_svc_def next_index_def Let_def store_simps)

lemma no_empty_name_create_svc: "create_svc evclk meta def m = (ev, m') \<Longrightarrow> no_empty_name m \<Longrightarrow> no_empty_name m'"
  by (auto simp: create_svc_def next_index_def Let_def intro!: no_empty_name_indexName)
     (simp add: store_simps)

lemma names_ok_mstep: "mstep m es m' \<Longrightarrow> ids_ok m \<Longrightarrow> names_ok m \<Longrightarrow> names_ok m'"
proof (induction rule: mstep.induct)
  case (create m meta def evclk ev m')
  note named = names_okD [OF create(9)]
  show ?case
    using create(1,4,9) no_empty_name_create_svc [OF create(7)]
    by (auto simp: names_ok_def named_create_svc [OF create(7)] svc_at_create_svc [OF create(7)])
next
  case (update m nid svc' svc meta evclk)
  show ?case
    using update(1,2,7) by (auto simp: names_ok_def store_simps)
next
  case (remove m nid sid svc meta)
  show ?case
    using remove(1,4) by (auto simp: names_ok_def store_simps)
qed (auto simp: names_ok_def store_simps)

lemma m_opts_mstep: "mstep m es m' \<Longrightarrow> m_opts m' = m_opts m"
  by (induction rule: mstep.induct) (simp_all add: store_simps m_opts_create_svc)

lemma m_opts_msteps: "msteps m es m' \<Longrightarrow> m_opts m' = m_opts m"
  by (induction rule: msteps.induct) (simp_all add: m_opts_mstep)

lemma leases_ok_mstep: "mstep m es m' \<Longrightarrow> leases_ok m \<Longrightarrow> leases_ok m'"
proof (induction rule: mstep.induct)
  case (create m meta def evclk ev m')
  have "svc_at m' nid sid = Some svc \<Longrightarrow> ttl_ok (m_opts m) (s_TTL (sv_def svc))" for nid sid svc
    using create(1,6,8) clamped_ok [of "m_opts m"]
    by (auto simp: svc_at_create_svc [OF create(7)] leases_ok_def split: if_splits)
  then show ?case using create(8) m_opts_create_svc [OF create(7)] by (simp add: leases_ok_def)
next
  case (update m nid svc' svc meta evclk)
  then show ?case using clamped_ok [of "m_opts m"] by (auto simp: leases_ok_def store_simps split: if_splits)
qed (auto simp: leases_ok_def store_simps split: if_splits)

lemma size_ok_mstep: "mstep m es m' \<Longrightarrow> size_ok m \<Longrightarrow> size_ok m'"
proof (induction rule: mstep.induct)
  case (create m meta def evclk ev m')
  then show ?case
    using Memory_Size_create_svc [OF create(7)] m_opts_create_svc [OF create(7)]
    by (auto simp: size_ok_def has_capacity_def)
next
  case (remove m nid sid svc meta)
  have "card (keys m - {(nid, sid)}) \<le> card (keys m)" by (rule card_mono) auto
  then show ?case using remove by (auto simp: size_ok_def Memory_Size_card store_simps keys_delete_svc)
qed (auto simp: size_ok_def Memory_Size_card store_simps keys_put_svc_same)

lemma registry_ok_mstep: "mstep m es m' \<Longrightarrow> registry_ok m \<Longrightarrow> registry_ok m'"
  by (auto simp: registry_ok_def intro: ids_ok_mstep names_ok_mstep leases_ok_mstep size_ok_mstep)

lemma registry_ok_msteps: "msteps m es m' \<Longrightarrow> registry_ok m \<Longrightarrow> registry_ok m'"
  by (erule msteps_invariant) (auto intro: registry_ok_mstep)

lemma registry_ok_mem_step: "mem_step m es m' \<Longrightarrow> registry_ok m \<Longrightarrow> registry_ok m'"
  using mem_step_msteps registry_ok_msteps unfolding registry_ok_def by blast

lemma registry_ok_NewMemory: "registry_ok (NewMemory opts)"
  using ids_ok_NewMemory [of opts]
  by (simp add: registry_ok_def names_ok_def leases_ok_def size_ok_def no_empty_name_def)
     (simp add: NewMemory_def Let_def svc_at_def named_def defaultTTL_def Memory_Size_def)

lemma registry_ok_reach: "mem_reach opts es m \<Longrightarrow> registry_ok m"
  by (induction rule: mem_reach.induct) (auto intro: registry_ok_NewMemory registry_ok_mem_step)

lemma m_opts_mem_step: "mem_step m es m' \<Longrightarrow> ids_ok m \<Longrightarrow> m_opts m' = m_opts m"
  using mem_step_msteps m_opts_msteps by blast

section \<open>The index and the change stream\<close>

text \<open>A batch is numbered from \<open>i\<close> when its events carry the indexes after \<open>i\<close>, one by one.\<close>

fun numbered :: "uint64 \<Rightarrow> ChangeEvent list \<Rightarrow> bool" where
  "numbered i [] = True"
| "numbered i (e # es) = (c_Index e = i + 1 \<and> numbered (i + 1) es)"

lemma numbered_append: "numbered i (xs @ ys) \<longleftrightarrow> numbered i xs \<and> numbered (i + of_nat (length xs)) ys"
  by (induction xs arbitrary: i) (auto simp: algebra_simps)

lemma create_svc_event: "create_svc evclk meta def m = (ev, m') \<Longrightarrow>
    c_Index ev = m_index m + 1 \<and> m_index m' = m_index m + 1"
  by (auto simp: create_svc_def next_index_def Let_def store_simps putEvent_def)

lemma numbered_mstep: "mstep m es m' \<Longrightarrow> numbered (m_index m) es \<and> m_index m' = m_index m + of_nat (length es)"
  by (induction rule: mstep.induct)
     (auto simp: store_simps create_svc_event putEvent_def deleteEvent_def Let_def)

lemma numbered_msteps: "msteps m es m' \<Longrightarrow> numbered (m_index m) es \<and> m_index m' = m_index m + of_nat (length es)"
  by (induction rule: msteps.induct) (auto simp: numbered_append algebra_simps dest: numbered_mstep)

lemma mem_step_raw:
  assumes "mem_step m es m'" "ids_ok m" "o_OnChange (m_opts m)"
  shows "msteps m es m'"
  using mem_step_msteps [OF assms(1,2)] assms(3) by (auto simp: emit_def split: if_splits)

text \<open>
  Create, modify and registry index are ordered and no two services share a modify index, as long
  as the 64-bit counter does not wrap.
\<close>

definition index_ok :: "Memory \<Rightarrow> bool" where
  "index_ok m \<longleftrightarrow>
     (\<forall>nid sid svc. svc_at m nid sid = Some svc \<longrightarrow>
        sv_createIndex svc \<le> sv_modifyIndex svc \<and> sv_modifyIndex svc \<le> m_index m) \<and>
     (\<forall>nid sid svc nid' sid' svc'. svc_at m nid sid = Some svc \<longrightarrow> svc_at m nid' sid' = Some svc' \<longrightarrow>
        sv_modifyIndex svc = sv_modifyIndex svc' \<longrightarrow> (nid, sid) = (nid', sid'))"

lemma index_okD:
  "index_ok m \<Longrightarrow> svc_at m nid sid = Some svc \<Longrightarrow> sv_createIndex svc \<le> sv_modifyIndex svc"
  "index_ok m \<Longrightarrow> svc_at m nid sid = Some svc \<Longrightarrow> sv_modifyIndex svc \<le> m_index m"
  "index_ok m \<Longrightarrow> svc_at m nid sid = Some svc \<Longrightarrow> svc_at m nid' sid' = Some svc' \<Longrightarrow>
    sv_modifyIndex svc = sv_modifyIndex svc' \<Longrightarrow> nid = nid' \<and> sid = sid'"
  unfolding index_ok_def by auto

text \<open>A state whose services are those of an earlier one, except one stamped with the next index.\<close>

lemma index_ok_stamp:
  assumes "index_ok m" "room (m_index m) (Suc 0)" "m_index m' = m_index m + 1"
    and "sv_createIndex svc' \<le> m_index m + 1" "sv_modifyIndex svc' = m_index m + 1"
    and "\<And>nid sid. svc_at m' nid sid = (if (nid, sid) = k then Some svc' else svc_at m nid sid)"
  shows "index_ok m'"
proof -
  have less: "m_index m < m_index m + 1" using assms(2) by (rule less_Suc_room)
  have old: "sv_modifyIndex s < m_index m + 1" if "svc_at m a b = Some s" for a b s
    using index_okD(2) [OF assms(1) that] less by simp
  show ?thesis
    unfolding index_ok_def assms(6)
    using assms(3-5) index_okD(1) [OF assms(1)] index_okD(3) [OF assms(1)] old
    by (auto simp: less_imp_le split: if_splits dest!: old)
qed

lemma index_ok_sub:
  assumes "index_ok m" "m_index m \<le> m_index m'"
    and "\<And>nid sid svc. svc_at m' nid sid = Some svc \<Longrightarrow>
           \<exists>svc0. svc_at m nid sid = Some svc0 \<and> sv_createIndex svc = sv_createIndex svc0 \<and>
             sv_modifyIndex svc = sv_modifyIndex svc0"
  shows "index_ok m'"
proof -
  have "sv_createIndex svc \<le> sv_modifyIndex svc \<and> sv_modifyIndex svc \<le> m_index m'"
    if at: "svc_at m' nid sid = Some svc" for nid sid svc
  proof -
    obtain svc0 where "svc_at m nid sid = Some svc0" "sv_createIndex svc = sv_createIndex svc0"
        "sv_modifyIndex svc = sv_modifyIndex svc0" using assms(3) [OF at] by blast
    then show ?thesis using index_okD(1,2) [OF assms(1)] assms(2) by (metis order_trans)
  qed
  moreover have "(nid, sid) = (nid', sid')"
    if at: "svc_at m' nid sid = Some svc" "svc_at m' nid' sid' = Some svc'"
      and eq: "sv_modifyIndex svc = sv_modifyIndex svc'" for nid sid svc nid' sid' svc'
  proof -
    obtain s s' where "svc_at m nid sid = Some s" "sv_modifyIndex svc = sv_modifyIndex s"
        "svc_at m nid' sid' = Some s'" "sv_modifyIndex svc' = sv_modifyIndex s'"
      using assms(3) [OF at(1)] assms(3) [OF at(2)] by blast
    then show ?thesis using index_okD(3) [OF assms(1), of nid sid s nid' sid' s'] eq by simp
  qed
  ultimately show ?thesis unfolding index_ok_def by blast
qed

lemma index_ok_mstep: "mstep m es m' \<Longrightarrow> index_ok m \<Longrightarrow> room (m_index m) (length es) \<Longrightarrow> index_ok m'"
proof (induction rule: mstep.induct)
  case (create m meta def evclk ev m')
  show ?case
    using create(1) create_svc_event [OF create(7)]
    by (intro index_ok_stamp [OF create(8) create(9) [simplified] _ _ _ , where k = "(n_ID meta, s_ID def)"])
       (auto simp: svc_at_create_svc [OF create(7)])
next
  case (update m nid svc' svc meta evclk)
  have "sv_createIndex svc' \<le> m_index m + 1"
    using update(3) index_okD(1,2) [OF update(6) update(1)] less_Suc_room [of "m_index m" 0] update(7) by simp
  then show ?case
    using update(2,4,7)
    by (intro index_ok_stamp [OF update(6), where k = "(nid, s_ID (sv_def svc'))" and svc' = svc'])
       (simp_all add: store_simps)
next
  case (remove m nid sid svc meta)
  then show ?case
    using less_Suc_room [of "m_index m" 0]
    by (intro index_ok_sub [OF remove(3)]) (auto simp: store_simps split: if_splits)
qed (erule index_ok_sub; auto simp: store_simps split: if_splits)+

lemma index_ok_msteps: "msteps m es m' \<Longrightarrow> index_ok m \<Longrightarrow> room (m_index m) (length es) \<Longrightarrow> index_ok m'"
proof (induction rule: msteps.induct)
  case (msteps_snoc m es m' es' m'')
  have "unat (m_index m') = unat (m_index m) + length es"
    using numbered_msteps [OF msteps_snoc(1)] unat_add_room [of "m_index m" "length es"] msteps_snoc(5)
    by (simp add: room_def)
  then show ?case
    using msteps_snoc by (intro index_ok_mstep [OF msteps_snoc(2)]) (auto simp: room_def)
qed

section \<open>Replaying the change stream\<close>

text \<open>
  The catalogue is what the change stream is about: for every service its definition without the
  time of its last heartbeat, its maintenance flag and its indexes. A consumer applies an event by
  storing or deleting the record the event carries.
\<close>

type_synonym catalogue = "svcRef \<rightharpoonup> ServiceInstance \<times> bool \<times> uint64 \<times> uint64"

definition record_of :: "service \<Rightarrow> ServiceInstance \<times> bool \<times> uint64 \<times> uint64" where
  "record_of svc = ((sv_def svc)\<lparr>s_LastSeen := 0\<rparr>, sv_maintenance svc, sv_createIndex svc, sv_modifyIndex svc)"

definition catalogue_of :: "Memory \<Rightarrow> catalogue" where
  "catalogue_of m = (\<lambda>(nid, sid). map_option record_of (svc_at m nid sid))"

definition apply_event :: "ChangeEvent \<Rightarrow> catalogue \<Rightarrow> catalogue" where
  "apply_event ev cat =
     (let e = c_Entry ev in
      case c_Type ev of
        ChangePut \<Rightarrow> cat(entry_id e \<mapsto>
          ((e_Service e)\<lparr>s_LastSeen := 0\<rparr>, e_Maintenance e, e_CreateIndex e, e_ModifyIndex e))
      | ChangeDelete \<Rightarrow> cat(entry_id e := None)
      | ChangeUnspecified \<Rightarrow> cat)"

definition replay :: "ChangeEvent list \<Rightarrow> catalogue \<Rightarrow> catalogue" where
  "replay = fold apply_event"

lemma apply_putEvent: "n_ID meta = nid \<Longrightarrow> s_ID (sv_def svc) = sid \<Longrightarrow>
    apply_event (putEvent opts evclk meta svc) cat = cat((nid, sid) \<mapsto> record_of svc)"
  by (simp add: apply_event_def putEvent_def entry_def record_of_def Let_def)

lemma apply_deleteEvent: "n_ID meta = nid \<Longrightarrow> s_ID (sv_def svc) = sid \<Longrightarrow>
    apply_event (deleteEvent meta svc) cat = cat((nid, sid) := None)"
  by (simp add: apply_event_def deleteEvent_def entry_def Let_def)

lemma catalogue_eqI: "(\<And>nid sid. map_option record_of (svc_at m nid sid) = cat (nid, sid)) \<Longrightarrow> catalogue_of m = cat"
  by (auto simp: catalogue_of_def fun_eq_iff)

lemma replay_mstep: "mstep m es m' \<Longrightarrow> ids_ok m \<Longrightarrow> catalogue_of m' = replay es (catalogue_of m)"
proof (induction rule: mstep.induct)
  case (create m meta def evclk ev m')
  have "ev = putEvent (m_opts m) evclk meta \<lparr>sv_def = def, sv_maintenance = False, sv_failed = False,
      sv_lastState = HealthPassing, sv_createIndex = m_index m + 1, sv_modifyIndex = m_index m + 1\<rparr>"
    using create(7) by (auto simp: create_svc_def next_index_def Let_def store_simps)
  then show ?case
    using create(1) by (intro catalogue_eqI)
      (simp add: replay_def apply_putEvent [OF refl refl] svc_at_create_svc [OF create(7)] catalogue_of_def)
next
  case (update m nid svc' svc meta evclk)
  have "n_ID meta = nid" using ids_okD(1) [OF update(6) update(2)] by simp
  then show ?case
    using update(2) by (intro catalogue_eqI) (simp add: replay_def apply_putEvent store_simps catalogue_of_def)
next
  case (remove m nid sid svc meta)
  have "n_ID meta = nid" "s_ID (sv_def svc) = sid"
    using ids_okD(1) [OF remove(3) remove(2)] ids_okD(2) [OF remove(3) remove(1)] by simp_all
  then show ?case
    by (intro catalogue_eqI) (simp add: replay_def apply_deleteEvent store_simps catalogue_of_def)
qed (auto intro!: catalogue_eqI simp: replay_def store_simps catalogue_of_def record_of_def)

lemma replay_msteps: "msteps m es m' \<Longrightarrow> ids_ok m \<Longrightarrow> catalogue_of m' = replay es (catalogue_of m)"
  by (induction rule: msteps.induct)
     (auto simp: replay_mstep ids_ok_msteps, simp_all add: replay_def)

section \<open>Properties\<close>

lemma m_opts_reach: "mem_reach opts es m \<Longrightarrow> m_opts m = m_opts (NewMemory opts)"
  by (induction rule: mem_reach.induct) (auto simp: m_opts_mem_step ids_ok_reach)

lemma o_OnChange_reach: "mem_reach opts es m \<Longrightarrow> o_OnChange (m_opts m) = o_OnChange opts"
  by (simp add: m_opts_reach) (simp add: NewMemory_def Let_def)

text \<open>With a change notifier installed, the published stream is the whole sequence of changes.\<close>

lemma msteps_reach: "mem_reach opts es m \<Longrightarrow> o_OnChange opts \<Longrightarrow> msteps (NewMemory opts) es m"
proof (induction rule: mem_reach.induct)
  case (reach_step es m es' m')
  then show ?case
    using mem_step_raw [OF reach_step(2)] ids_ok_reach o_OnChange_reach msteps_trans by blast
qed (rule msteps_refl)

lemma m_index_NewMemory: "m_index (NewMemory opts) = o_StartIndex opts"
  by (simp add: NewMemory_def Let_def)

lemma svc_at_NewMemory: "svc_at (NewMemory opts) nid sid = None"
  by (simp add: NewMemory_def Let_def svc_at_def)

lemma replay_reach:
  assumes "mem_reach opts es m" "o_OnChange opts"
  shows "replay es Map.empty = catalogue_of m"
proof -
  have "catalogue_of (NewMemory opts) = Map.empty"
    by (rule catalogue_eqI) (simp add: svc_at_NewMemory)
  then show ?thesis using replay_msteps [OF msteps_reach [OF assms] ids_ok_NewMemory] by simp
qed

text \<open>What a replay says of a service is what the last event about it says, or what was there before.\<close>

definition touches :: "ChangeEvent list \<Rightarrow> svcRef \<Rightarrow> bool" where
  "touches es k \<longleftrightarrow> (\<exists>ev\<in>set es. entry_id (c_Entry ev) = k \<and> c_Type ev \<noteq> ChangeUnspecified)"

lemma replay_append: "replay (xs @ ys) cat = replay ys (replay xs cat)"
  by (simp add: replay_def)

lemma apply_event_at:
  "apply_event ev cat k = (if touches [ev] k then apply_event ev Map.empty k else cat k)"
  by (auto simp: apply_event_def touches_def Let_def split: ChangeType.splits)

lemma replay_at: "replay es cat k = (if touches es k then replay es Map.empty k else cat k)"
proof (induction es rule: rev_induct)
  case (snoc ev es)
  have t: "touches (es @ [ev]) k \<longleftrightarrow> touches es k \<or> touches [ev] k" by (auto simp: touches_def)
  have r: "replay (es @ [ev]) c k = apply_event ev (replay es c) k" for c by (simp add: replay_def)
  show ?case
    unfolding r t using snoc apply_event_at [of ev "replay es cat" k] apply_event_at [of ev "replay es Map.empty" k]
    by simp
qed (simp add: replay_def touches_def)

lemma replay_filter:
  assumes "\<And>ev. ev \<in> set es \<Longrightarrow> entry_id (c_Entry ev) = k \<Longrightarrow> P ev"
  shows "replay (filter P es) cat k = replay es cat k"
  using assms
proof (induction es rule: rev_induct)
  case (snoc ev es)
  have r: "replay (es @ [ev]) c k = apply_event ev (replay es c) k" for es c by (simp add: replay_def)
  show ?case
  proof (cases "P ev")
    case True
    then show ?thesis
      using snoc apply_event_at [of ev "replay (filter P es) cat" k] apply_event_at [of ev "replay es cat" k]
      by (simp add: r)
  next
    case False
    then have "\<not> touches [ev] k" using snoc.prems [of ev] by (auto simp: touches_def)
    then show ?thesis using False snoc apply_event_at [of ev "replay es cat" k] by (simp add: r)
  qed
qed simp

text \<open>A registry with two services, for the witnesses.\<close>

definition ex_opts :: Options where
  "ex_opts = \<lparr>o_DefaultTTL = 30 * second, o_MinTTL = 5 * second, o_MaxTTL = 60 * second,
     o_GracePeriod = 60 * second, o_StartIndex = 7, o_MaxServices = 2, o_OnChange = True\<rparr>"

definition ex_reg :: Registration where
  "ex_reg = \<lparr>r_Node = ex_node ''n1'', r_Services = [ex_svc ''s1'' ''web'' 0 0, ex_svc ''s2'' ''db'' 0 0],
     r_Generation = 1\<rparr>"

definition ex_events :: "ChangeEvent list" where
  "ex_events = fst (snd (Memory_Register 100 (\<lambda>_. 100) ex_reg (NewMemory ex_opts)))"

definition ex_mem :: Memory where
  "ex_mem = snd (snd (Memory_Register 100 (\<lambda>_. 100) ex_reg (NewMemory ex_opts)))"

lemma ex_reach: "mem_reach ex_opts ex_events ex_mem"
proof -
  have "mem_step (NewMemory ex_opts) ex_events ex_mem"
    by (rule mem_step.Register [of 100 "\<lambda>_. 100" ex_reg _ "fst (Memory_Register 100 (\<lambda>_. 100) ex_reg (NewMemory ex_opts))"])
       (simp add: ex_events_def ex_mem_def)
  from reach_step [OF reach_new this] show ?thesis by simp
qed

text \<open>
  C2 (invariant). Every registry an execution of the operations reaches, whatever the clock and the
  order in which maps are visited, is well formed: nodes and services are stored under their own
  non-empty ids, the name index holds exactly the references of the stored services and no empty
  bucket, every lease is positive and inside the configured TTL bounds, and the number of services
  is within the configured limit.
\<close>

theorem registry_invariant:
  "mem_reach opts es m \<Longrightarrow> ids_ok m \<and> names_ok m \<and> leases_ok m \<and> size_ok m"
  using registry_ok_reach by (simp add: registry_ok_def)

theorem registry_invariant_witness:
  "mem_reach ex_opts ex_events ex_mem \<and> Memory_Size ex_mem = 2 \<and> names_ok ex_mem \<and> size_ok ex_mem"
proof -
  have "Memory_Size ex_mem = 2" by code_simp
  then show ?thesis using registry_invariant [OF ex_reach] ex_reach by blast
qed

text \<open>
  With a change notifier installed, the published events carry the indexes after the
  start index one by one, with no gap and no repetition, and the registry index is the last of them;
  while the 64-bit counter has room, create, modify and registry indexes are ordered and no two
  services carry the same modify index.
\<close>

theorem stream_numbered:
  "mem_reach opts es m \<Longrightarrow> o_OnChange opts \<Longrightarrow>
     numbered (o_StartIndex opts) es \<and> Memory_Index m = o_StartIndex opts + of_nat (length es) \<and>
     (room (o_StartIndex opts) (length es) \<longrightarrow> index_ok m)"
proof -
  assume r: "mem_reach opts es m" and on: "o_OnChange opts"
  have "index_ok (NewMemory opts)" by (simp add: index_ok_def svc_at_NewMemory)
  then show ?thesis
    using numbered_msteps [OF msteps_reach [OF r on]] index_ok_msteps [OF msteps_reach [OF r on]]
    by (simp add: m_index_NewMemory Memory_Index_def)
qed

theorem stream_numbered_witness:
  "map c_Index ex_events = [8, 9] \<and> Memory_Index ex_mem = 9 \<and> index_ok ex_mem"
proof -
  have ev: "map c_Index ex_events = [8, 9]" by code_simp
  then have len: "length ex_events = 2" by (metis length_map length_Cons list.size(3) numeral_2_eq_2)
  have o: "o_OnChange ex_opts" "o_StartIndex ex_opts = 7" by (simp_all add: ex_opts_def)
  have "room (o_StartIndex ex_opts) (length ex_events)" by (simp add: o len room_def)
  then show ?thesis using stream_numbered [OF ex_reach o(1)] ev by (simp add: o len)
qed

text \<open>
  C1 (refinement). With a change notifier installed, replaying the whole published stream from the
  empty catalogue gives exactly the registry's catalogue: a consumer that applies the events sees
  every service with its definition, maintenance flag and indexes, and no service that is gone. Only
  heartbeats, which change the time of the last one, are not in the stream.
\<close>

theorem stream_replays:
  "mem_reach opts es m \<Longrightarrow> o_OnChange opts \<Longrightarrow> replay es Map.empty = catalogue_of m"
  by (rule replay_reach)

theorem stream_replays_witness:
  "replay ex_events Map.empty (''n1'', ''s1'') = map_option record_of (svc_at ex_mem ''n1'' ''s1'') \<and>
   svc_at ex_mem ''n1'' ''s1'' \<noteq> None"
proof -
  have "svc_at ex_mem ''n1'' ''s1'' \<noteq> None" by code_simp
  moreover have "replay ex_events Map.empty = catalogue_of ex_mem"
    by (rule stream_replays [OF ex_reach]) (simp add: ex_opts_def)
  ultimately show ?thesis by (simp add: catalogue_of_def)
qed

end
