(* ===== verification/Store_Lookup.thy ===== *)
theory Store_Lookup
  imports Store_Inv
begin

text \<open>
  What \<^verbatim>\<open>Lookup\<close> answers: the entries a scan of the whole registry selects, whichever of its two
  branches runs and in whatever order the maps are visited; and how each write shows in it.
\<close>

section \<open>The answer as a selection of the registry\<close>

text \<open>The services a query asks for, and whether a lease still answers at an instant.\<close>

definition asked :: "Query \<Rightarrow> Node \<Rightarrow> service \<Rightarrow> bool" where
  "asked q meta svc \<longleftrightarrow>
     (q_Name q = [] \<or> s_Name (sv_def svc) = q_Name q) \<and>
     (q_Datacenter q = [] \<or> n_Datacenter meta = q_Datacenter q) \<and>
     set (q_Tags q) \<subseteq> set (s_Tags (sv_def svc))"

definition live :: "Memory \<Rightarrow> time \<Rightarrow> service \<Rightarrow> bool" where
  "live m now svc \<longleftrightarrow> \<not> snd (lease (m_opts m) svc now)"

definition answer :: "Memory \<Rightarrow> time \<Rightarrow> Node \<Rightarrow> service \<Rightarrow> ServiceEntry" where
  "answer m now meta svc = entry meta svc (fst (lease (m_opts m) svc now))"

lemma visit_Some_iff:
  "visit now q m (nid, sid) = Some e \<longleftrightarrow>
     (\<exists>meta svc. meta_at m nid = Some meta \<and> svc_at m nid sid = Some svc \<and>
        (q_Datacenter q = [] \<or> n_Datacenter meta = q_Datacenter q) \<and>
        set (q_Tags q) \<subseteq> set (s_Tags (sv_def svc)) \<and> live m now svc \<and> e = answer m now meta svc)"
  by (auto simp: visit_def meta_at_def svc_at_def live_def answer_def MatchesTags_iff
      split: option.splits prod.splits if_splits)

lemma entry_id_visit: "ids_ok m \<Longrightarrow> visit now q m ref = Some e \<Longrightarrow> entry_id e = ref"
  by (cases ref) (auto simp: visit_Some_iff answer_def entry_def dest: ids_okD)

lemma ids_map_filter_visit:
  "ids_ok m \<Longrightarrow> map entry_id (List.map_filter (visit now q m) refs) = filter (\<lambda>r. visit now q m r \<noteq> None) refs"
  by (induction refs) (auto simp: map_filter_simps entry_id_visit split: option.splits)

lemma set_map_filter_visit: "set (List.map_filter (visit now q m) refs) = {e. \<exists>r\<in>set refs. visit now q m r = Some e}"
  by (auto simp: List.map_filter_def) force

lemma set_lookup_visiting: "set (lookup_visiting refs now q m) = {e. \<exists>r\<in>set refs. visit now q m r = Some e}"
  by (simp add: lookup_visiting_def set_map_filter_visit)

lemma sorted_lookup_visiting:
  assumes "ids_ok m" "distinct refs"
  shows "sorted_wrt (<) (map entry_id (lookup_visiting refs now q m))"
proof -
  have "distinct (map entry_id (List.map_filter (visit now q m) refs))"
    using assms by (simp add: ids_map_filter_visit)
  then show ?thesis
    unfolding lookup_visiting_def
    by (intro sorted_distinct_key_strict sorted_sort_key) simp
qed

lemma set_visit_all: "set (visit_all m) = keys m"
  by (auto simp: visit_all_def keys_Sigma)

lemma distinct_pairs:
  "distinct ks \<Longrightarrow> (\<And>k. distinct (f k)) \<Longrightarrow> distinct (concat (map (\<lambda>k. map (Pair k) (f k)) ks))"
  by (induction ks) (auto simp: distinct_map inj_on_def)

lemma distinct_visit_all: "distinct (visit_all m)"
  unfolding visit_all_def by (rule distinct_pairs) simp_all

lemma set_visit_named: "set (visit_named m name) = fset (named m name)"
  by (simp add: visit_named_def named_def split: option.splits)

lemma distinct_visit_named: "distinct (visit_named m name)"
  by (simp add: visit_named_def sorted_list_of_fset.rep_eq split: option.splits)

text \<open>The references the branch taken visits, and what may be visited in any order.\<close>

definition lookup_refs :: "Query \<Rightarrow> Memory \<Rightarrow> svcRef set" where
  "lookup_refs q m = (if q_Name q = [] then keys m else fset (named m (q_Name q)))"

lemma lr_Entries_Lookup:
  "lr_Entries (Memory_Lookup now q m) =
     lookup_visiting (if q_Name q = [] then visit_all m else visit_named m (q_Name q)) now q m"
  by (simp add: Memory_Lookup_def)

lemma Lookup_visits: "set (if q_Name q = [] then visit_all m else visit_named m (q_Name q)) = lookup_refs q m"
  by (simp add: lookup_refs_def set_visit_all set_visit_named)

lemma sorted_Lookup: "ids_ok m \<Longrightarrow> sorted_wrt (<) (map entry_id (lr_Entries (Memory_Lookup now q m)))"
  unfolding lr_Entries_Lookup
  by (rule sorted_lookup_visiting) (simp_all add: distinct_visit_all distinct_visit_named)

lemma set_Lookup:
  assumes "names_ok m"
  shows "set (lr_Entries (Memory_Lookup now q m)) =
    {answer m now meta svc | nid sid meta svc. meta_at m nid = Some meta \<and> svc_at m nid sid = Some svc \<and>
       asked q meta svc \<and> live m now svc}" (is "?L = ?R")
proof -
  have ref: "(nid, sid) \<in> lookup_refs q m \<longleftrightarrow>
      (\<exists>svc. svc_at m nid sid = Some svc \<and> (q_Name q = [] \<or> s_Name (sv_def svc) = q_Name q))" for nid sid
    using names_okD [OF assms] by (auto simp: lookup_refs_def keys_def)
  have "?L = {e. \<exists>nid sid. (nid, sid) \<in> lookup_refs q m \<and> visit now q m (nid, sid) = Some e}"
    by (auto simp: lr_Entries_Lookup set_lookup_visiting simp flip: Lookup_visits)
  also have "\<dots> = ?R" by (auto simp: ref visit_Some_iff asked_def) (metis option.inject)+
  finally show ?thesis .
qed

text \<open>
  C3 (functional). On every reachable registry \<^verbatim>\<open>Lookup\<close> returns the registry index and, sorted
  strictly by node and service id, exactly the services of the asked name (of every name when none is
  asked), datacenter and tags whose lease has not run past its grace period, each with the health
  its lease has at that instant. The name index and the full scan agree.
\<close>

theorem Lookup_correct:
  "mem_reach opts es m \<Longrightarrow>
     lr_Index (Memory_Lookup now q m) = Memory_Index m \<and>
     sorted_wrt (<) (map entry_id (lr_Entries (Memory_Lookup now q m))) \<and>
     set (lr_Entries (Memory_Lookup now q m)) =
       {answer m now meta svc | nid sid meta svc. meta_at m nid = Some meta \<and> svc_at m nid sid = Some svc \<and>
          asked q meta svc \<and> live m now svc}"
  using registry_ok_reach [of opts es m]
  by (simp add: registry_ok_def sorted_Lookup set_Lookup) (simp add: Memory_Lookup_def Memory_Index_def)

definition ex_query :: Query where
  "ex_query = Query_zero\<lparr>q_Name := ''web''\<rparr>"

theorem Lookup_correct_witness:
  "lr_Index (Memory_Lookup 200 ex_query ex_mem) = 9 \<and>
   map entry_id (lr_Entries (Memory_Lookup 200 ex_query ex_mem)) = [(''n1'', ''s1'')] \<and>
   sorted_wrt (<) (map entry_id (lr_Entries (Memory_Lookup 200 ex_query ex_mem)))"
proof -
  have "Memory_Index ex_mem = 9" by code_simp
  moreover have "map entry_id (lr_Entries (Memory_Lookup 200 ex_query ex_mem)) = [(''n1'', ''s1'')]"
    by code_simp
  ultimately show ?thesis using Lookup_correct [OF ex_reach, of 200 ex_query] by simp
qed

text \<open>
  C15 (equivalence). The answer does not depend on the order in which Go's \<^verbatim>\<open>range\<close> visits the maps:
  visiting the references of the branch taken in any order gives the same list of entries.
\<close>

theorem Lookup_order_independent:
  "mem_reach opts es m \<Longrightarrow> distinct refs \<Longrightarrow> set refs = lookup_refs q m \<Longrightarrow>
     lookup_visiting refs now q m = lr_Entries (Memory_Lookup now q m)"
proof -
  assume r: "mem_reach opts es m" and refs: "distinct refs" "set refs = lookup_refs q m"
  have ids: "ids_ok m" using registry_ok_reach [OF r] by (simp add: registry_ok_def)
  have "set (lookup_visiting refs now q m) = set (lr_Entries (Memory_Lookup now q m))"
    unfolding lr_Entries_Lookup set_lookup_visiting Lookup_visits refs(2) ..
  then show ?thesis
    using sorted_lookup_visiting [OF ids refs(1)] sorted_Lookup [OF ids] by (intro sorted_key_unique)
qed

theorem Lookup_order_independent_witness:
  "lookup_visiting [(''n1'', ''s2''), (''n1'', ''s1'')] 200 Query_zero ex_mem
     = lr_Entries (Memory_Lookup 200 Query_zero ex_mem) \<and>
   map entry_id (lr_Entries (Memory_Lookup 200 Query_zero ex_mem)) = [(''n1'', ''s1''), (''n1'', ''s2'')]"
proof -
  have "visit_all ex_mem = [(''n1'', ''s1''), (''n1'', ''s2'')]" by code_simp
  then have "set [(''n1'', ''s2''), (''n1'', ''s1'')] = lookup_refs Query_zero ex_mem"
    using set_visit_all [of ex_mem] by (simp add: lookup_refs_def Query_zero_def insert_commute)
  from Lookup_order_independent [OF ex_reach _ this]
  have "lookup_visiting [(''n1'', ''s2''), (''n1'', ''s1'')] 200 Query_zero ex_mem
     = lr_Entries (Memory_Lookup 200 Query_zero ex_mem)" by simp
  moreover have "map entry_id (lr_Entries (Memory_Lookup 200 Query_zero ex_mem)) = [(''n1'', ''s1''), (''n1'', ''s2'')]"
    by code_simp
  ultimately show ?thesis by simp
qed

end
