(* ===== verification/Store_Ops.thy ===== *)
theory Store_Ops
  imports Store_Lookup
begin

text \<open>
  What each write of the registry does to the stored services, on every branch: Register and its
  change detection, Renew, the removals, the garbage collector, and Merge as the fold of the
  last-writer-wins rule.
\<close>

section \<open>Change detection and Register\<close>

lemma equalStrings_iff [simp]: "equalStrings a b \<longleftrightarrow> a = b"
  by (auto simp: equalStrings_def list.rel_eq)

lemma equalMap_refl [simp]: "equalMap a a"
  by (auto simp: equalMap_def map_index_def list_all_iff)

text \<open>Without empty values the comparison of maps is equality; with them it is not.\<close>

lemma equalMap_eq:
  assumes "[] \<notin> fmran' a" "equalMap a b"
  shows "a = b"
proof (rule fmap_ext)
  have keys: "map_index b k = v" if "fmlookup a k = Some v" for k v
    using assms(2) that by (auto simp: equalMap_def list_all_iff fmdom'I split: if_splits)
  have sub: "fmlookup b k = Some v" if "fmlookup a k = Some v" for k v
    using keys [OF that] assms(1) that by (auto simp: map_index_def fmran'I split: option.splits)
  have "fmdom a |\<subseteq>| fmdom b" using sub by (auto simp: fmdomI)
  moreover have "fcard (fmdom a) = fcard (fmdom b)"
    using assms(2) by (auto simp: equalMap_def fmlen_def split: if_splits)
  ultimately have dom: "fmdom a = fmdom b" by (intro fcard_seteq) simp_all
  fix k
  show "fmlookup a k = fmlookup b k"
  proof (cases "fmlookup a k")
    case None
    then have "k |\<notin>| fmdom b" unfolding dom [symmetric] by (rule fmdom_notI)
    then show ?thesis using None fmdom_notD [of k b] by (simp del: mem_fmdom)
  qed (simp add: sub)
qed

text \<open>
  The comparison reads a missing key as the empty string, so two maps of one size whose first has
  an empty value under a key the second lacks compare equal, whatever else the second holds.
\<close>

theorem equalMap_missing_key:
  "equalMap (fmap_of_list [(''a'', [])]) (fmap_of_list [(''b'', ''x'')]) \<and>
   fmap_of_list [(''a'', [])] \<noteq> fmap_of_list [(''b'', ''x'')]"
proof -
  have "fmlookup (fmap_of_list [(''a'', [])]) ''b'' \<noteq> fmlookup (fmap_of_list [(''b'', ''x'')]) ''b''"
    by simp
  then have "fmap_of_list [(''a'', [])] \<noteq> fmap_of_list [(''b'', ''x'')]" by metis
  moreover have "equalMap (fmap_of_list [(''a'', [])]) (fmap_of_list [(''b'', ''x'')])" by code_simp
  ultimately show ?thesis by blast
qed

lemma not_changed_iff:
  "\<not> changed a b \<longleftrightarrow>
     s_Name a = s_Name b \<and> s_Address a = s_Address b \<and> s_Port a = s_Port b \<and> s_TTL a = s_TTL b \<and>
     s_Generation a = s_Generation b \<and> s_Weights a = s_Weights b \<and> s_Tags a = s_Tags b \<and>
     equalMap (s_Meta a) (s_Meta b)"
  by (auto simp: changed_def)

lemma changed_irrefl [simp]: "\<not> changed a a"
  by (simp add: not_changed_iff)

lemma changed_LastSeen [simp]: "changed (a\<lparr>s_LastSeen := t\<rparr>) b = changed a b"
  by (simp add: changed_def)

text \<open>The id under which a registration stores a service.\<close>

definition svc_id :: "ServiceInstance \<Rightarrow> string" where
  "svc_id s = (if s_ID s = [] then s_Name s else s_ID s)"

lemma s_ID_normalise [simp]: "s_ID (normalise_def opts now gen s) = svc_id s"
  by (simp add: normalise_def_def svc_id_def Let_def)

lemma s_LastSeen_normalise [simp]: "s_LastSeen (normalise_def opts now gen s) = now"
  by (simp add: normalise_def_def Let_def)

text \<open>A stored service answers a registered one when nothing the change detection compares differs.\<close>

definition holds_at :: "time \<Rightarrow> uint64 \<Rightarrow> string \<Rightarrow> Memory \<Rightarrow> ServiceInstance \<Rightarrow> bool" where
  "holds_at now gen nid m s \<longleftrightarrow>
     (\<exists>svc. svc_at m nid (svc_id s) = Some svc \<and> s_LastSeen (sv_def svc) = now \<and>
        \<not> changed (sv_def svc) (normalise_def (m_opts m) now gen s))"

lemma holds_at_frame: "svc_at m' nid (svc_id s) = svc_at m nid (svc_id s) \<Longrightarrow> m_opts m' = m_opts m \<Longrightarrow>
    holds_at now gen nid m' s = holds_at now gen nid m s"
  by (simp add: holds_at_def)

text \<open>One iteration of the loop of \<^verbatim>\<open>Register\<close> stores its service and leaves the others alone.\<close>

lemma register_loop_step:
  assumes "register_loop now evclk meta gen (s # rest) sz events m = (None, out, m')"
    and "meta_at m (n_ID meta) = Some meta"
  obtains sz1 events1 m1 where "register_loop now evclk meta gen rest sz1 events1 m1 = (None, out, m')"
    and "meta_at m1 = meta_at m" "m_opts m1 = m_opts m" "holds_at now gen (n_ID meta) m1 s"
    and "\<And>nid sid. (nid, sid) \<noteq> (n_ID meta, svc_id s) \<Longrightarrow> svc_at m1 nid sid = svc_at m nid sid"
proof -
  define d where "d = normalise_def (m_opts m) now gen s"
  have d: "s_ID d = svc_id s" "s_LastSeen d = now" by (simp_all add: d_def)
  note run = assms(1) [unfolded register_loop.simps Let_def, folded d_def]
  show thesis
  proof (cases "svc_at m (n_ID meta) (s_ID d)")
    case None
    obtain ev m1 where c: "create_svc evclk meta d m = (ev, m1)" by fastforce
    have run': "register_loop now evclk meta gen rest (Suc sz) (events @ [ev]) m1 = (None, out, m')"
      using run None c by (auto split: if_splits)
    show thesis
      by (rule that [OF run'])
         (use assms(2) d in \<open>auto simp: meta_at_create_svc [OF c] m_opts_create_svc [OF c]
            svc_at_create_svc [OF c] holds_at_def d_def [symmetric]\<close>)
  next
    case (Some svc)
    show thesis
    proof (cases "changed (sv_def svc) d")
      case True
      let ?svc = "svc\<lparr>sv_def := d, sv_lastState := HealthPassing, sv_modifyIndex := m_index m + 1\<rparr>"
      have run': "register_loop now evclk meta gen rest sz (events @ [putEvent (m_opts m) evclk meta ?svc])
          (reindex_name (n_ID meta) (s_Name (sv_def svc)) d
            (put_svc (n_ID meta) (s_ID d) ?svc (m\<lparr>m_index := m_index m + 1\<rparr>))) = (None, out, m')"
        using run Some True by (simp add: next_index_def)
      show thesis
        by (rule that [OF run'])
           (use assms(2) d in \<open>auto simp: store_simps holds_at_def d_def [symmetric]\<close>)
    next
      case False
      have run': "register_loop now evclk meta gen rest sz events
          (put_svc (n_ID meta) (s_ID d) (svc\<lparr>sv_def := (sv_def svc)\<lparr>s_LastSeen := now\<rparr>\<rparr>) m) = (None, out, m')"
        using run Some False by simp
      show thesis
        by (rule that [OF run'])
           (use assms(2) d False in \<open>auto simp: store_simps holds_at_def d_def [symmetric]\<close>)
    qed
  qed
qed

lemma register_loop_effect:
  assumes "register_loop now evclk meta gen svcs sz events m = (None, out, m')"
    and "meta_at m (n_ID meta) = Some meta" "distinct (map svc_id svcs)"
  shows "meta_at m' = meta_at m \<and> m_opts m' = m_opts m \<and> (\<forall>s\<in>set svcs. holds_at now gen (n_ID meta) m' s) \<and>
    (\<forall>nid sid. nid \<noteq> n_ID meta \<or> sid \<notin> svc_id ` set svcs \<longrightarrow> svc_at m' nid sid = svc_at m nid sid)"
  using assms
proof (induction svcs arbitrary: sz events m)
  case (Cons s rest)
  from register_loop_step [OF Cons.prems(1,2)] obtain sz1 events1 m1 where
    1: "register_loop now evclk meta gen rest sz1 events1 m1 = (None, out, m')"
      "meta_at m1 = meta_at m" "m_opts m1 = m_opts m" "holds_at now gen (n_ID meta) m1 s"
      "\<And>nid sid. (nid, sid) \<noteq> (n_ID meta, svc_id s) \<Longrightarrow> svc_at m1 nid sid = svc_at m nid sid" by blast
  have IH: "meta_at m' = meta_at m1 \<and> m_opts m' = m_opts m1 \<and> (\<forall>s\<in>set rest. holds_at now gen (n_ID meta) m' s) \<and>
    (\<forall>nid sid. nid \<noteq> n_ID meta \<or> sid \<notin> svc_id ` set rest \<longrightarrow> svc_at m' nid sid = svc_at m1 nid sid)"
    using Cons.prems 1(2) by (intro Cons.IH [OF 1(1)]) simp_all
  then have "holds_at now gen (n_ID meta) m' s"
    using 1(4) holds_at_frame [of m' "n_ID meta" s m1 now gen] Cons.prems(3) by auto
  then show ?case using IH 1(2,3,5) by auto
qed simp

lemma Memory_Register_effect:
  assumes "Memory_Register now evclk reg m = (None, out, m')" "distinct (map svc_id (r_Services reg))"
  shows "meta_at m' = (meta_at m)(n_ID (r_Node reg) \<mapsto> r_Node reg) \<and> m_opts m' = m_opts m \<and>
    (\<forall>s\<in>set (r_Services reg). holds_at now (r_Generation reg) (n_ID (r_Node reg)) m' s) \<and>
    (\<forall>nid sid. nid \<noteq> n_ID (r_Node reg) \<or> sid \<notin> svc_id ` set (r_Services reg) \<longrightarrow>
       svc_at m' nid sid = svc_at m nid sid)"
proof -
  have "register_loop now evclk (r_Node reg) (r_Generation reg) (r_Services reg)
      (Memory_Size m) [] (touch_node (r_Node reg) m) = (None, out, m')"
    using assms(1) by (auto simp: Memory_Register_def split: if_splits)
  from register_loop_effect [OF this _ assms(2)] show ?thesis
    by (auto simp: store_simps fun_eq_iff)
qed

lemma lease_fresh: "\<not> sv_failed svc \<Longrightarrow> s_LastSeen (sv_def svc) = now \<Longrightarrow> s_TTL (sv_def svc) > 0 \<Longrightarrow>
    lease opts svc now = (HealthPassing, False)"
  by (simp add: lease_def)



section \<open>Renew\<close>

lemma renew_svc_idem [simp]: "renew_svc now (renew_svc now svc) = renew_svc now svc"
  by (simp add: renew_svc_def)

lemma renew_loop_effect:
  assumes "renew_loop now nid ids m = (err, m')"
  shows "m_index m' = m_index m \<and> m_byName m' = m_byName m \<and>
    (err = None \<longleftrightarrow> (\<forall>sid\<in>set ids. svc_at m nid sid \<noteq> None)) \<and> (err \<noteq> None \<longrightarrow> err = Some ErrNotFound) \<and>
    (err = None \<longrightarrow> (\<forall>nid' sid. svc_at m' nid' sid =
       (if nid' = nid \<and> sid \<in> set ids then map_option (renew_svc now) (svc_at m nid' sid) else svc_at m nid' sid)))"
  using assms
proof (induction ids arbitrary: m)
  case (Cons sid ids)
  show ?case
  proof (cases "svc_at m nid sid")
    case (Some svc)
    let ?m = "put_svc nid sid (renew_svc now svc) m"
    have meta: "meta_at m nid \<noteq> None" using svc_at_meta [OF Some] by auto
    have "m_byName ?m = m_byName m" by (simp add: put_svc_def split: option.splits)
    moreover have "renew_loop now nid ids ?m = (err, m')" using Cons.prems Some by simp
    note Cons.IH [OF this]
    ultimately show ?thesis using Some meta by (auto simp: store_simps)
  qed (use Cons.prems in auto)
qed simp

text \<open>
  C10 (functional). A heartbeat stamps exactly the named services of the node (all of them when none
  is named) with the time of the call and clears their failure mark, so that each is passing; it
  moves no index and touches no other service. It is refused, with \<^verbatim>\<open>ErrNotFound\<close>, exactly when the
  node or one of the named services is unknown.
\<close>

theorem Renew_effect:
  "Memory_Renew now nid ids m = (err, m') \<Longrightarrow>
     m_index m' = m_index m \<and> m_byName m' = m_byName m \<and>
     (err = None \<longleftrightarrow> meta_at m nid \<noteq> None \<and> (\<forall>sid\<in>set ids. svc_at m nid sid \<noteq> None)) \<and>
     (err \<noteq> None \<longrightarrow> err = Some ErrNotFound) \<and>
     (err = None \<longrightarrow> (\<forall>nid' sid. svc_at m' nid' sid =
        (if nid' = nid \<and> (ids = [] \<or> sid \<in> set ids) then map_option (renew_svc now) (svc_at m nid' sid)
         else svc_at m nid' sid))) \<and>
     (\<forall>svc. s_TTL (sv_def svc) > 0 \<longrightarrow> lease (m_opts m) (renew_svc now svc) now = (HealthPassing, False))"
proof -
  assume run: "Memory_Renew now nid ids m = (err, m')"
  have fresh: "\<forall>svc. s_TTL (sv_def svc) > 0 \<longrightarrow> lease (m_opts m) (renew_svc now svc) now = (HealthPassing, False)"
    by (simp add: lease_fresh renew_svc_def)
  show ?thesis
  proof (cases "fmlookup (m_nodes m) nid")
    case None
    then show ?thesis using run fresh by (auto simp: Memory_Renew_def meta_at_def)
  next
    case (Some n)
    show ?thesis
    proof (cases "ids = []")
      case True
      then show ?thesis using run Some fresh by (auto simp: Memory_Renew_def meta_at_def svc_at_def)
    next
      case False
      then have "renew_loop now nid ids m = (err, m')" using run Some by (simp add: Memory_Renew_def)
      from renew_loop_effect [OF this] show ?thesis using Some False fresh by (auto simp: meta_at_def)
    qed
  qed
qed

theorem Renew_effect_witness:
  "fst (Memory_Renew 5000 ''n1'' [''s1''] ex_mem) = None \<and>
   map_option (\<lambda>s. s_LastSeen (sv_def s)) (svc_at (snd (Memory_Renew 5000 ''n1'' [''s1''] ex_mem)) ''n1'' ''s1'') = Some 5000 \<and>
   svc_at (snd (Memory_Renew 5000 ''n1'' [''s1''] ex_mem)) ''n1'' ''s2'' = svc_at ex_mem ''n1'' ''s2''"
proof -
  have e: "fst (Memory_Renew 5000 ''n1'' [''s1''] ex_mem) = None" by code_simp
  have s: "map_option (\<lambda>s. s_LastSeen (sv_def s)) (svc_at ex_mem ''n1'' ''s1'') = Some 100" by code_simp
  from Renew_effect [of 5000 "''n1''" "[''s1'']" ex_mem] e show ?thesis
    using s by (cases "Memory_Renew 5000 ''n1'' [''s1''] ex_mem") (auto simp: renew_svc_def)
qed

end
