(* ===== verification/Store_GC.thy ===== *)
theory Store_GC
  imports Store_Ops
begin

text \<open>
  Expiry: the thresholds of a lease, the effect of a garbage collection pass on every service, that
  a pass is complete and that a second one at the same instant finds nothing to do; the explicit
  removals.
\<close>

section \<open>Leases\<close>

text \<open>Nothing but the failure mark, the last heartbeat and the lease matters.\<close>

lemma lease_irrelevant [simp]:
  "lease opts (svc\<lparr>sv_lastState := s\<rparr>) now = lease opts svc now"
  "lease opts (svc\<lparr>sv_modifyIndex := i\<rparr>) now = lease opts svc now"
  "lease opts (svc\<lparr>sv_maintenance := b\<rparr>) now = lease opts svc now"
  by (simp_all add: lease_def Let_def)

section \<open>One pass over the services of a node\<close>

definition strip :: "service \<Rightarrow> service" where
  "strip svc = svc\<lparr>sv_modifyIndex := 0\<rparr>"

text \<open>A service after a pass, its modify index aside: gone if expired, else with its state recorded.\<close>

definition collected :: "Options \<Rightarrow> time \<Rightarrow> service option \<Rightarrow> service option" where
  "collected opts now so =
     (case so of None \<Rightarrow> None
      | Some svc \<Rightarrow> if snd (lease opts svc now) then None
                   else Some (strip (svc\<lparr>sv_lastState := fst (lease opts svc now)\<rparr>)))"

definition expired_at :: "time \<Rightarrow> Memory \<Rightarrow> string \<Rightarrow> string \<Rightarrow> bool" where
  "expired_at now m nid sid \<longleftrightarrow>
     (case svc_at m nid sid of None \<Rightarrow> False | Some svc \<Rightarrow> snd (lease (m_opts m) svc now))"

lemma strip_strip [simp]: "strip (svc\<lparr>sv_modifyIndex := i\<rparr>) = strip svc"
  by (simp add: strip_def)

lemma gc_services_effect:
  assumes "gc_services now evclk nid ids events removed m = (events', removed', m')" "distinct ids"
  shows "m_opts m' = m_opts m \<and> meta_at m' = meta_at m \<and>
    removed' = removed + length (filter (expired_at now m nid) ids) \<and>
    (\<forall>nid' sid. nid' = nid \<and> sid \<in> set ids \<longrightarrow>
       map_option strip (svc_at m' nid' sid) = collected (m_opts m) now (svc_at m nid' sid)) \<and>
    (\<forall>nid' sid. nid' \<noteq> nid \<or> sid \<notin> set ids \<longrightarrow> svc_at m' nid' sid = svc_at m nid' sid)"
  using assms
proof (induction ids arbitrary: events removed m)
  case (Cons sid ids)
  text \<open>The state after the first service of the list, and the rest of the loop from there.\<close>
  obtain es1 r1 m1 where run: "gc_services now evclk nid ids es1 r1 m1 = (events', removed', m')"
    and m1: "m_opts m1 = m_opts m" "meta_at m1 = meta_at m"
      "r1 = removed + (if expired_at now m nid sid then 1 else 0)"
      "map_option strip (svc_at m1 nid sid) = collected (m_opts m) now (svc_at m nid sid)"
      "\<forall>nid' sid'. (nid', sid') \<noteq> (nid, sid) \<longrightarrow> svc_at m1 nid' sid' = svc_at m nid' sid'"
  proof (cases "svc_at m nid sid")
    case None
    then have "gc_services now evclk nid ids events removed m = (events', removed', m')"
      using Cons.prems(1) by (auto simp: svc_at_def split: option.splits)
    from that [OF this] show thesis using None by (simp add: expired_at_def collected_def)
  next
    case (Some svc)
    then obtain n where n: "fmlookup (m_nodes m) nid = Some n" "fmlookup (nd_services n) sid = Some svc"
      using svc_at_node by blast
    have meta: "meta_at m nid \<noteq> None" using n by (simp add: meta_at_def)
    obtain state expired where l: "lease (m_opts m) svc now = (state, expired)" by fastforce
    consider (gone) expired | (mark) "\<not> expired" "state \<noteq> sv_lastState svc"
      | (same) "\<not> expired" "state = sv_lastState svc" by blast
    then show thesis
    proof cases
      case gone
      show thesis
        by (rule that [of "events @ [deleteEvent (nd_meta n) (svc\<lparr>sv_modifyIndex := m_index m + 1\<rparr>)]" "Suc removed"
              "unindexName nid (s_Name (sv_def svc)) sid (delete_svc nid sid (m\<lparr>m_index := m_index m + 1\<rparr>))"])
           (use Cons.prems(1) n l gone Some in
             \<open>auto simp: next_index_def Let_def store_simps expired_at_def collected_def\<close>)
    next
      case mark
      let ?svc = "svc\<lparr>sv_lastState := state, sv_modifyIndex := m_index m + 1\<rparr>"
      show thesis
        by (rule that [of "events @ [putEvent (m_opts m) evclk (nd_meta n) ?svc]" removed
              "put_svc nid sid ?svc (m\<lparr>m_index := m_index m + 1\<rparr>)"])
           (use Cons.prems(1) n l mark Some meta in
             \<open>auto simp: next_index_def Let_def store_simps expired_at_def collected_def\<close>)
    next
      case same
      show thesis
        by (rule that [of events removed m])
           (use Cons.prems(1) n l same Some in \<open>auto simp: expired_at_def collected_def\<close>)
    qed
  qed
  have same: "svc_at m1 nid sid' = svc_at m nid sid'" if "sid' \<in> set ids" for sid'
    using m1(5) that Cons.prems(2) by auto
  then have "expired_at now m1 nid sid' = expired_at now m nid sid'" if "sid' \<in> set ids" for sid'
    using that unfolding expired_at_def m1(1) by simp
  then have "filter (expired_at now m1 nid) ids = filter (expired_at now m nid) ids"
    by (simp cong: filter_cong)
  then show ?case
    using Cons.IH [OF run] Cons.prems(2) m1 same by auto
qed simp

section \<open>A whole pass\<close>

lemma gc_nodes_effect:
  assumes "gc_nodes now evclk order events removed m = (events', removed', m')" "distinct (map fst order)"
    and "\<forall>(nid, ids)\<in>set order. distinct ids \<and> (\<forall>sid. svc_at m nid sid \<noteq> None \<longrightarrow> sid \<in> set ids)"
  shows "m_opts m' = m_opts m \<and>
    removed' = removed + (\<Sum>(nid, ids)\<leftarrow>order. length (filter (expired_at now m nid) ids)) \<and>
    (\<forall>nid sid. nid \<in> fst ` set order \<longrightarrow>
       map_option strip (svc_at m' nid sid) = collected (m_opts m) now (svc_at m nid sid)) \<and>
    (\<forall>nid sid. nid \<notin> fst ` set order \<longrightarrow> svc_at m' nid sid = svc_at m nid sid) \<and>
    (\<forall>nid. meta_at m' nid = (if nid \<in> fst ` set order \<and> (\<forall>sid. svc_at m' nid sid = None) then None else meta_at m nid))"
  using assms
proof (induction order arbitrary: events removed m)
  case (Cons x order)
  obtain nid ids where x: "x = (nid, ids)" by fastforce
  obtain es r m1 where g: "gc_services now evclk nid ids events removed m = (es, r, m1)"
    by (metis prod_cases3)
  define m2 where "m2 = drop_empty_node nid m1"
  have ids: "distinct ids" "\<And>sid. svc_at m nid sid \<noteq> None \<Longrightarrow> sid \<in> set ids" using Cons.prems(3) x by auto
  note e = gc_services_effect [OF g ids(1)]
  have m2: "m_opts m2 = m_opts m" "svc_at m2 = svc_at m1"
      "\<And>n. meta_at m2 n = (if n = nid \<and> (\<forall>sid. svc_at m2 n sid = None) then None else meta_at m n)"
    using e by (auto simp: m2_def store_simps meta_at_drop_empty_node fun_eq_iff)
  have here: "map_option strip (svc_at m2 nid sid) = collected (m_opts m) now (svc_at m nid sid)" for sid
  proof (cases "sid \<in> set ids")
    case False
    then have "svc_at m nid sid = None" using ids(2) by blast
    then show ?thesis using e False m2(2) by (simp add: collected_def)
  qed (use e m2(2) in simp)
  have other: "svc_at m2 n sid = svc_at m n sid" if "n \<noteq> nid" for n sid
    using e m2(2) that by auto
  have out: "nid \<notin> fst ` set order" using Cons.prems(2) x by simp
  have run: "gc_nodes now evclk order es r m2 = (events', removed', m')"
    using Cons.prems(1) x g by (simp add: m2_def)
  have expired: "expired_at now m2 n = expired_at now m n" if "n \<noteq> nid" for n
    using other [OF that] unfolding expired_at_def m2(1) by (simp add: fun_eq_iff)
  have sum: "(\<Sum>(nid, ids)\<leftarrow>order. length (filter (expired_at now m2 nid) ids)) =
      (\<Sum>(nid, ids)\<leftarrow>order. length (filter (expired_at now m nid) ids))"
  proof (intro arg_cong [where f = sum_list] map_cong refl)
    fix y assume "y \<in> set order"
    then have "fst y \<noteq> nid" using out by force
    then show "(case y of (nid, ids) \<Rightarrow> length (filter (expired_at now m2 nid) ids)) =
        (case y of (nid, ids) \<Rightarrow> length (filter (expired_at now m nid) ids))"
      by (simp add: expired split_def)
  qed
  have dom: "distinct (map fst order)" using Cons.prems(2) by simp
  have cover: "\<forall>(n, ids)\<in>set order. distinct ids \<and> (\<forall>sid. svc_at m2 n sid \<noteq> None \<longrightarrow> sid \<in> set ids)"
  proof clarify
    fix n ids' assume n: "(n, ids') \<in> set order"
    then have "n \<noteq> nid" using out by force
    moreover have "distinct ids' \<and> (\<forall>sid. svc_at m n sid \<noteq> None \<longrightarrow> sid \<in> set ids')" using Cons.prems(3) n by auto
    ultimately show "distinct ids' \<and> (\<forall>sid. svc_at m2 n sid \<noteq> None \<longrightarrow> sid \<in> set ids')" using other by simp
  qed
  note IH = Cons.IH [OF run dom cover]
  have rem: "r = removed + length (filter (expired_at now m nid) ids)" using e by simp
  have away: "svc_at m' nid sid = svc_at m2 nid sid" for sid using IH out by blast
  have views: "map_option strip (svc_at m' n sid) = collected (m_opts m) now (svc_at m n sid)"
    if "n \<in> fst ` set (x # order)" for n sid
    using that IH here away other m2(1) out x by (cases "n = nid") auto
  have metas: "meta_at m' n =
      (if n \<in> fst ` set (x # order) \<and> (\<forall>sid. svc_at m' n sid = None) then None else meta_at m n)" for n
    using IH m2(3) away out x by (cases "n = nid") auto
  show ?case
    using IH views metas other m2(1) rem sum by (simp add: x)
qed simp

lemma gc_orderD:
  assumes "gc_order m order"
  shows "distinct (map fst order)" "nid \<in> fst ` set order \<longleftrightarrow> meta_at m nid \<noteq> None"
    "\<forall>(nid, ids)\<in>set order. distinct ids \<and> (\<forall>sid. svc_at m nid sid \<noteq> None \<longleftrightarrow> sid \<in> set ids)"
proof -
  have dom: "fst ` set order = fmdom' (m_nodes m)"
    using assms by (simp add: gc_order_def range_order_def)
  then show "nid \<in> fst ` set order \<longleftrightarrow> meta_at m nid \<noteq> None" by (simp add: meta_at_def)
  show "distinct (map fst order)" using assms by (simp add: gc_order_def range_order_def)
  show "\<forall>(nid, ids)\<in>set order. distinct ids \<and> (\<forall>sid. svc_at m nid sid \<noteq> None \<longleftrightarrow> sid \<in> set ids)"
  proof clarify
    fix nid ids assume x: "(nid, ids) \<in> set order"
    then have "nid \<in> fmdom' (m_nodes m)" using dom by force
    then obtain n where n: "fmlookup (m_nodes m) nid = Some n" by auto
    have "range_order (nd_services n) ids" using assms x n by (auto simp: gc_order_def list_all_iff)
    then show "distinct ids \<and> (\<forall>sid. svc_at m nid sid \<noteq> None \<longleftrightarrow> sid \<in> set ids)"
      using n by (auto simp: range_order_def svc_at_def)
  qed
qed

lemma sum_filter_card:
  assumes "distinct (map fst order)" "\<forall>(nid, ids)\<in>set order. distinct ids"
  shows "(\<Sum>(nid, ids)\<leftarrow>order. length (filter (P nid) ids)) =
    card {(nid, sid). \<exists>ids. (nid, ids) \<in> set order \<and> sid \<in> set ids \<and> P nid sid}"
  using assms
proof (induction order)
  case (Cons x order)
  obtain nid ids where x: "x = (nid, ids)" by fastforce
  let ?A = "Pair nid ` set (filter (P nid) ids)"
  let ?B = "{(nid, sid). \<exists>ids. (nid, ids) \<in> set order \<and> sid \<in> set ids \<and> P nid sid}"
  have fin: "finite ?B"
    by (rule finite_subset [of _ "\<Union>(nid, ids)\<in>set order. Pair nid ` set ids"]) auto
  have "card ?A = length (filter (P nid) ids)"
    using Cons.prems(2) x by (simp add: card_image inj_on_def distinct_card flip: set_filter)
  moreover have "?A \<inter> ?B = {}" using Cons.prems(1) x by force
  then have "card (?A \<union> ?B) = card ?A + card ?B" by (intro card_Un_disjoint fin) auto
  moreover have "?A \<union> ?B = {(nid, sid). \<exists>ids. (nid, ids) \<in> set (x # order) \<and> sid \<in> set ids \<and> P nid sid}"
    using x by auto
  ultimately show ?case using Cons x by simp
qed simp

lemma Memory_GC_effect:
  assumes "gc_order m order" "Memory_GC order now evclk m = (n, out, m')"
  shows "m_opts m' = m_opts m"
    "map_option strip (svc_at m' nid sid) = collected (m_opts m) now (svc_at m nid sid)"
    "meta_at m' nid = (if \<forall>sid. svc_at m' nid sid = None then None else meta_at m nid)"
    "n = card {(nid, sid). expired_at now m nid sid}"
proof -
  obtain es where run: "gc_nodes now evclk order [] 0 m = (es, n, m')"
    using assms(2) by (auto simp: Memory_GC_def split: prod.splits)
  note o = gc_orderD [OF assms(1)]
  have "\<forall>(nid, ids)\<in>set order. distinct ids \<and> (\<forall>sid. svc_at m nid sid \<noteq> None \<longrightarrow> sid \<in> set ids)"
    using o(3) by fast
  note e = gc_nodes_effect [OF run o(1) this]
  have away: "svc_at m nid sid = None" if "nid \<notin> fst ` set order" for nid sid
    using that o(2) svc_at_meta by fastforce
  show "m_opts m' = m_opts m" using e by simp
  show "map_option strip (svc_at m' nid sid) = collected (m_opts m) now (svc_at m nid sid)"
    using e away [of nid sid] by (cases "nid \<in> fst ` set order") (auto simp: collected_def)
  show "meta_at m' nid = (if \<forall>sid. svc_at m' nid sid = None then None else meta_at m nid)"
    using e away o(2) by auto
  have "{(nid, sid). expired_at now m nid sid} =
      {(nid, sid). \<exists>ids. (nid, ids) \<in> set order \<and> sid \<in> set ids \<and> expired_at now m nid sid}"
  proof -
    have "\<exists>ids. (nid, ids) \<in> set order \<and> sid \<in> set ids" if "expired_at now m nid sid" for nid sid
    proof -
      have at: "svc_at m nid sid \<noteq> None" using that by (auto simp: expired_at_def split: option.splits)
      then obtain ids where "(nid, ids) \<in> set order" using away [of nid sid] by force
      then show ?thesis using o(3) at by blast
    qed
    then show ?thesis by auto
  qed
  moreover have "\<forall>(nid, ids)\<in>set order. distinct ids" using o(3) by fast
  note sum_filter_card [OF o(1) this, of "expired_at now m"]
  ultimately show "n = card {(nid, sid). expired_at now m nid sid}" using e by simp
qed

text \<open>A registry on which a pass has nothing to do is left alone.\<close>

definition settled :: "time \<Rightarrow> Memory \<Rightarrow> bool" where
  "settled now m \<longleftrightarrow>
     (\<forall>nid sid svc. svc_at m nid sid = Some svc \<longrightarrow> lease (m_opts m) svc now = (sv_lastState svc, False)) \<and>
     (\<forall>nid. meta_at m nid \<noteq> None \<longrightarrow> (\<exists>sid. svc_at m nid sid \<noteq> None))"

lemma gc_services_settled: "settled now m \<Longrightarrow> gc_services now evclk nid ids events removed m = (events, removed, m)"
  by (induction ids) (auto simp: settled_def svc_at_def split: option.splits prod.splits)

lemma drop_empty_node_settled: "settled now m \<Longrightarrow> drop_empty_node nid m = m"
  by (auto simp: settled_def drop_empty_node_def meta_at_def svc_at_def split: option.splits)

lemma gc_nodes_settled: "settled now m \<Longrightarrow> gc_nodes now evclk order events removed m = (events, removed, m)"
  by (induction order) (auto simp: gc_services_settled drop_empty_node_settled split: prod.splits)

lemma settled_GC:
  assumes "gc_order m order" "Memory_GC order now evclk m = (n, out, m')"
  shows "settled now m'"
proof -
  note e = Memory_GC_effect [OF assms]
  have "lease (m_opts m') svc' now = (sv_lastState svc', False)" if at: "svc_at m' nid sid = Some svc'" for nid sid svc'
  proof -
    obtain svc where svc: "svc_at m nid sid = Some svc" "\<not> snd (lease (m_opts m) svc now)"
      "strip svc' = strip (svc\<lparr>sv_lastState := fst (lease (m_opts m) svc now)\<rparr>)"
      using e(2) [of nid sid] at by (auto simp: collected_def split: option.splits if_splits)
    have "lease (m_opts m') svc' now = lease (m_opts m) (strip svc') now" by (simp add: strip_def e(1))
    also have "\<dots> = lease (m_opts m) svc now" by (simp add: svc(3)) (simp add: strip_def)
    finally have "lease (m_opts m') svc' now = lease (m_opts m) svc now" .
    moreover have "sv_lastState svc' = fst (lease (m_opts m) svc now)"
      using arg_cong [OF svc(3), of sv_lastState] by (simp add: strip_def)
    ultimately show ?thesis using svc(2) by (simp add: prod_eq_iff)
  qed
  then show ?thesis using e(3) by (auto simp: settled_def split: if_splits)
qed

text \<open>
  C6 (functional). A garbage collection pass, in whatever order it visits the registry, removes
  exactly the services whose lease has run past its grace period and reports their number; every
  other service keeps its definition, flags and create index and has its current state recorded; a
  node is kept exactly when a service of it is left. No service that answered before is lost.
\<close>

theorem GC_exact:
  "gc_order m order \<Longrightarrow> Memory_GC order now evclk m = (n, out, m') \<Longrightarrow>
     n = card {(nid, sid). expired_at now m nid sid} \<and>
     (\<forall>nid sid. map_option strip (svc_at m' nid sid) = collected (m_opts m) now (svc_at m nid sid)) \<and>
     (\<forall>nid. meta_at m' nid = (if \<forall>sid. svc_at m' nid sid = None then None else meta_at m nid))"
  by (intro conjI allI; erule (1) Memory_GC_effect)

text \<open>The sample registry half an hour later, and the order of its pass.\<close>

definition ex_later :: time where
  "ex_later = 1800 * second"

definition ex_gc :: "nat \<times> ChangeEvent list \<times> Memory" where
  "ex_gc = Memory_GC (some_gc_order ex_mem) ex_later (\<lambda>_. ex_later) ex_mem"

lemma gc_order_some: "gc_order m (some_gc_order m)"
  by (simp add: gc_order_def some_gc_order_def list_all_iff comp_def range_order_range_keys)

theorem GC_exact_witness:
  "fst ex_gc = 2 \<and> card {(nid, sid). expired_at ex_later ex_mem nid sid} = 2 \<and>
   svc_at (snd (snd ex_gc)) ''n1'' ''s1'' = None \<and> svc_at ex_mem ''n1'' ''s1'' \<noteq> None"
proof -
  have r: "fst ex_gc = 2" "svc_at (snd (snd ex_gc)) ''n1'' ''s1'' = None" "svc_at ex_mem ''n1'' ''s1'' \<noteq> None"
    by code_simp+
  have "Memory_GC (some_gc_order ex_mem) ex_later (\<lambda>_. ex_later) ex_mem = (fst ex_gc, fst (snd ex_gc), snd (snd ex_gc))"
    by (simp add: ex_gc_def)
  from GC_exact [OF gc_order_some this] r show ?thesis by simp
qed

text \<open>
  A pass is complete: a second pass at the same instant, in any order, removes
  nothing, publishes nothing and leaves the registry as it is.
\<close>

theorem GC_idempotent:
  "gc_order m order \<Longrightarrow> Memory_GC order now evclk m = (n, out, m') \<Longrightarrow>
     Memory_GC order' now evclk' m' = (0, [], m')"
proof -
  assume a: "gc_order m order" "Memory_GC order now evclk m = (n, out, m')"
  show ?thesis using gc_nodes_settled [OF settled_GC [OF a]] by (simp add: Memory_GC_def emit_def)
qed

theorem GC_idempotent_witness:
  "Memory_GC [] ex_later (\<lambda>_. 0) (snd (snd ex_gc)) = (0, [], snd (snd ex_gc)) \<and> fst ex_gc = 2"
proof -
  have "Memory_GC (some_gc_order ex_mem) ex_later (\<lambda>_. ex_later) ex_mem = (fst ex_gc, fst (snd ex_gc), snd (snd ex_gc))"
    by (simp add: ex_gc_def)
  moreover have "fst ex_gc = 2" by code_simp
  ultimately show ?thesis using GC_idempotent [OF gc_order_some] by blast
qed

text \<open>A failed service is held critical and never expires, however late the pass runs.\<close>

theorem failed_never_collected: "sv_failed svc \<Longrightarrow> lease opts svc now = (HealthCritical, False)"
  by (simp add: lease_def)

section \<open>Explicit removal\<close>

lemma deregister_loop_events:
  assumes "deregister_loop nid n ids events m = (events', m')" "\<forall>sid\<in>set ids. fmlookup (nd_services n) sid \<noteq> None"
    and "n_ID (nd_meta n) = nid" "\<And>sid svc. fmlookup (nd_services n) sid = Some svc \<Longrightarrow> s_ID (sv_def svc) = sid"
  shows "m_nodes m' = m_nodes m \<and> m_opts m' = m_opts m \<and>
    map (\<lambda>ev. (c_Type ev, entry_id (c_Entry ev))) events' =
      map (\<lambda>ev. (c_Type ev, entry_id (c_Entry ev))) events @ map (\<lambda>sid. (ChangeDelete, (nid, sid))) ids"
  using assms(1,2)
proof (induction ids arbitrary: events m)
  case (Cons sid ids)
  then obtain svc where svc: "fmlookup (nd_services n) sid = Some svc" by auto
  let ?m = "unindexName nid (s_Name (sv_def svc)) sid (m\<lparr>m_index := m_index m + 1\<rparr>)"
  have keep: "m_nodes ?m = m_nodes m" "m_opts ?m = m_opts m"
    by (simp_all add: unindexName_def Let_def split: option.splits)
  show ?case
    using Cons.IH [of "events @ [deleteEvent (nd_meta n) (svc\<lparr>sv_modifyIndex := m_index m + 1\<rparr>)]" ?m]
      Cons.prems svc keep assms(3) assms(4) [OF svc]
    by (simp add: next_index_def deleteEvent_def entry_def)
qed simp

text \<open>
  C11 (functional). Deregistering a known node removes the node and all its services and no other,
  and publishes one delete per service in the order the services were visited; deregistering an
  unknown node reports \<^verbatim>\<open>ErrNotFound\<close> and changes nothing.
\<close>

theorem Deregister_removes:
  "mem_reach opts es m \<Longrightarrow> o_OnChange opts \<Longrightarrow>
   (\<And>n. fmlookup (m_nodes m) nid = Some n \<Longrightarrow> range_order (nd_services n) order) \<Longrightarrow>
   Memory_Deregister order nid m = (err, out, m') \<Longrightarrow>
     (err = None \<longleftrightarrow> meta_at m nid \<noteq> None) \<and>
     (err \<noteq> None \<longrightarrow> err = Some ErrNotFound \<and> out = [] \<and> m' = m) \<and>
     (err = None \<longrightarrow> meta_at m' = (meta_at m)(nid := None) \<and>
        (\<forall>nid' sid. svc_at m' nid' sid = (if nid' = nid then None else svc_at m nid' sid)) \<and>
        map (\<lambda>ev. (c_Type ev, entry_id (c_Entry ev))) out = map (\<lambda>sid. (ChangeDelete, (nid, sid))) order)"
proof -
  assume r: "mem_reach opts es m" and on: "o_OnChange opts"
    and ord: "\<And>n. fmlookup (m_nodes m) nid = Some n \<Longrightarrow> range_order (nd_services n) order"
    and run: "Memory_Deregister order nid m = (err, out, m')"
  have ids: "ids_ok m" using ids_ok_reach [OF r] .
  show ?thesis
  proof (cases "fmlookup (m_nodes m) nid")
    case None
    then show ?thesis using run by (auto simp: Memory_Deregister_def meta_at_def)
  next
    case (Some n)
    obtain evs m1 where d: "deregister_loop nid n order [] m = (evs, m1)" by fastforce
    have n: "n_ID (nd_meta n) = nid" "\<And>sid svc. fmlookup (nd_services n) sid = Some svc \<Longrightarrow> s_ID (sv_def svc) = sid"
      using ids_okD(1) [OF ids node_meta_svc(1) [OF Some]] ids_okD(2) [OF ids, of nid] node_meta_svc(2) [OF Some]
      by simp_all
    have "\<forall>sid\<in>set order. fmlookup (nd_services n) sid \<noteq> None"
      using ord [OF Some] by (auto simp: range_order_def)
    note e = deregister_loop_events [OF d this n]
    have "out = evs"
      using run Some d on o_OnChange_reach [OF r] by (auto simp: Memory_Deregister_def emit_def split: if_splits)
    then show ?thesis
      using run Some d e by (auto simp: Memory_Deregister_def meta_at_def svc_at_def fun_eq_iff)
  qed
qed

theorem Deregister_removes_witness:
  "fst (Memory_Deregister [''s2'', ''s1''] ''n1'' ex_mem) = None \<and>
   meta_at (snd (snd (Memory_Deregister [''s2'', ''s1''] ''n1'' ex_mem))) ''n1'' = None \<and>
   map (\<lambda>ev. entry_id (c_Entry ev)) (fst (snd (Memory_Deregister [''s2'', ''s1''] ''n1'' ex_mem)))
     = [(''n1'', ''s2''), (''n1'', ''s1'')]"
proof -
  let ?r = "Memory_Deregister [''s2'', ''s1''] ''n1'' ex_mem"
  have "map_option (\<lambda>n. range_keys (nd_services n)) (fmlookup (m_nodes ex_mem) ''n1'') = Some [''s1'', ''s2'']"
    by code_simp
  then have ord: "range_order (nd_services n) [''s2'', ''s1'']" if "fmlookup (m_nodes ex_mem) ''n1'' = Some n" for n
    using that set_range_keys [of "nd_services n"] by (auto simp: range_order_def)
  have on: "o_OnChange ex_opts" by (simp add: ex_opts_def)
  have e: "fst ?r = None" by code_simp
  have run: "?r = (None, fst (snd ?r), snd (snd ?r))" using e by (simp add: prod_eq_iff)
  from Deregister_removes [OF ex_reach on ord run]
  have m: "meta_at (snd (snd ?r)) ''n1'' = None"
    "map (\<lambda>ev. (c_Type ev, entry_id (c_Entry ev))) (fst (snd ?r)) =
      [(ChangeDelete, (''n1'', ''s2'')), (ChangeDelete, (''n1'', ''s1''))]" by auto
  have "map (\<lambda>ev. entry_id (c_Entry ev)) (fst (snd ?r)) =
      map snd (map (\<lambda>ev. (c_Type ev, entry_id (c_Entry ev))) (fst (snd ?r)))" by simp
  also have "\<dots> = [(''n1'', ''s2''), (''n1'', ''s1'')]" unfolding m(2) by simp
  finally show ?thesis using e m(1) by simp
qed

end
