(* ===== verification/Store_Merge.thy ===== *)
theory Store_Merge
  imports Store_GC
begin

text \<open>
  \<^verbatim>\<open>Memory.Merge\<close>, the receiving side of anti-entropy, as a fold of the last-writer-wins rule: what
  a registry holds after merging a batch is the winner among what it held and what it was offered.
  Two registries that exchange their contents end up with the same definitions.
\<close>

section \<open>Merging is keeping a winner\<close>

text \<open>The definitions a batch offers for one service, with their leases brought within bounds.\<close>

definition offers :: "Options \<Rightarrow> ServiceEntry list \<Rightarrow> string \<Rightarrow> string \<Rightarrow> ServiceInstance list" where
  "offers opts es nid sid =
     map (\<lambda>e. (e_Service e)\<lparr>s_TTL := clampTTL opts (s_TTL (e_Service e))\<rparr>)
       (filter (\<lambda>e. nid \<noteq> [] \<and> sid \<noteq> [] \<and> entry_id e = (nid, sid)) es)"

definition def_at :: "Memory \<Rightarrow> string \<Rightarrow> string \<Rightarrow> ServiceInstance option" where
  "def_at m nid sid = map_option sv_def (svc_at m nid sid)"

lemma champion_Cons:
  "champion wins c (x # xs) = champion wins (Some (case c of None \<Rightarrow> x | Some d \<Rightarrow> if wins x d then x else d)) xs"
  by (cases c) auto

lemma merge_loop_champion:
  assumes "merge_loop evclk es sz events applied m = (n, out, m')"
    and "o_MaxServices (m_opts m) \<le> 0 \<or> int (sz + length es) \<le> o_MaxServices (m_opts m)"
  shows "m_opts m' = m_opts m \<and>
    (\<forall>nid sid. def_at m' nid sid = champion WinsLWW (def_at m nid sid) (offers (m_opts m) es nid sid))"
  using assms
proof (induction es arbitrary: sz events applied m)
  case (Cons e es)
  define t where "t = touch_node (e_Node e) m"
  define d where "d = (e_Service e)\<lparr>s_TTL := clampTTL (m_opts t) (s_TTL (e_Service e))\<rparr>"
  let ?nid = "n_ID (e_Node e)"
  note run = Cons.prems(1) [unfolded merge_loop.simps Let_def, folded t_def, folded d_def]
  have t: "m_opts t = m_opts m" "svc_at t = svc_at m" "meta_at t ?nid \<noteq> None"
    by (auto simp: t_def store_simps fun_eq_iff)
  show ?case
  proof (cases "?nid = [] \<or> s_ID (e_Service e) = []")
    case True
    then have "offers (m_opts m) (e # es) = offers (m_opts m) es" by (auto simp: offers_def fun_eq_iff)
    then show ?thesis using Cons.IH [of sz events applied m] run True Cons.prems(2) by auto
  next
    case False
    have offer: "offers (m_opts m) (e # es) nid sid =
        (if (nid, sid) = (?nid, s_ID d) then d # offers (m_opts m) es nid sid else offers (m_opts m) es nid sid)"
      for nid sid using False by (auto simp: offers_def d_def t)
    text \<open>The iteration leaves the winner of the stored and the offered definition in place.\<close>
    obtain sz1 events1 applied1 m1 where m1: "merge_loop evclk es sz1 events1 applied1 m1 = (n, out, m')"
        "m_opts m1 = m_opts m" "sz1 \<le> Suc sz"
        "\<forall>nid sid. def_at m1 nid sid = (if (nid, sid) = (?nid, s_ID d)
           then Some (case def_at m nid sid of None \<Rightarrow> d | Some c \<Rightarrow> if WinsLWW d c then d else c)
           else def_at m nid sid)"
    proof (cases "svc_at t ?nid (s_ID d)")
      case None
      obtain ev m1 where c: "create_svc evclk (e_Node e) d t = (ev, m1)" by fastforce
      have "merge_loop evclk es (Suc sz) (events @ [ev]) (Suc applied) m1 = (n, out, m')"
        using run False None c Cons.prems(2) by (auto simp: t split: if_splits)
      then show thesis
        by (rule that) (use None t m_opts_create_svc [OF c] in
            \<open>auto simp: def_at_def svc_at_create_svc [OF c t(3)]\<close>)
    next
      case (Some svc)
      let ?svc = "svc\<lparr>sv_def := d, sv_modifyIndex := m_index t + 1\<rparr>"
      let ?m1 = "reindex_name ?nid (s_Name (sv_def svc)) d
          (put_svc ?nid (s_ID d) ?svc (t\<lparr>m_index := m_index t + 1\<rparr>))"
      show thesis
      proof (cases "WinsLWW d (sv_def svc)")
        case True
        then have "merge_loop evclk es sz (events @ [putEvent (m_opts t) evclk (e_Node e) ?svc]) (Suc applied) ?m1
            = (n, out, m')"
          using run False Some by (simp add: next_index_def Let_def)
        then show thesis
          by (rule that) (use Some True t in \<open>auto simp: def_at_def store_simps\<close>)
      next
        case stale: False
        then have "merge_loop evclk es sz events applied t = (n, out, m')" using run False Some by simp
        then show thesis by (rule that) (use Some stale t in \<open>auto simp: def_at_def\<close>)
      qed
    qed
    have "o_MaxServices (m_opts m1) \<le> 0 \<or> int (sz1 + length es) \<le> o_MaxServices (m_opts m1)"
      using Cons.prems(2) m1(2,3) by auto
    from Cons.IH [OF m1(1) this] show ?thesis
      using m1(2,4) by (auto simp: offer champion_Cons)
  qed
qed (simp add: offers_def)

text \<open>
  C5 (equivalence). As long as the batch fits under the service limit, what the registry holds for
  a service after a merge is the last-writer-wins champion of what it held and what the batch offers
  for it, with leases clamped: nothing newer is ever overwritten, every newer offer is taken, and
  services the batch does not mention keep their definition.
\<close>

theorem Merge_is_LWW:
  "o_MaxServices (m_opts m) \<le> 0 \<or> int (Memory_Size m + length es) \<le> o_MaxServices (m_opts m) \<Longrightarrow>
   Memory_Merge evclk es m = (n, out, m') \<Longrightarrow>
     def_at m' nid sid = champion WinsLWW (def_at m nid sid) (offers (m_opts m) es nid sid) \<and>
     (\<forall>d. def_at m nid sid = Some d \<longrightarrow> (\<exists>d'. def_at m' nid sid = Some d' \<and> \<not> WinsLWW d d'))"
proof -
  assume cap: "o_MaxServices (m_opts m) \<le> 0 \<or> int (Memory_Size m + length es) \<le> o_MaxServices (m_opts m)"
    and run: "Memory_Merge evclk es m = (n, out, m')"
  have "def_at m' nid sid = champion WinsLWW (def_at m nid sid) (offers (m_opts m) es nid sid)"
    using merge_loop_champion [OF run [unfolded Memory_Merge_def] cap] by blast
  then show ?thesis using champion_Some svc.champion_keeps by metis
qed

text \<open>A second registry, which holds a newer version of one service of the first and one it lacks.\<close>

definition ex_mem2 :: Memory where
  "ex_mem2 = snd (snd (Memory_Register 150 (\<lambda>_. 150)
     \<lparr>r_Node = ex_node ''n1'', r_Services = [ex_svc ''s1'' ''web'' 0 0, ex_svc ''s3'' ''api'' 0 0], r_Generation = 2\<rparr>
     (NewMemory (ex_opts\<lparr>o_MaxServices := 0\<rparr>))))"

definition ex_mem1 :: Memory where
  "ex_mem1 = snd (snd (Memory_Register 100 (\<lambda>_. 100) ex_reg (NewMemory (ex_opts\<lparr>o_MaxServices := 0\<rparr>))))"

theorem Merge_is_LWW_witness:
  "(let es = lr_Entries (Memory_Lookup 200 Query_zero ex_mem2); m' = snd (snd (Memory_Merge (\<lambda>_. 200) es ex_mem1)) in
      def_at m' ''n1'' ''s1'' = champion WinsLWW (def_at ex_mem1 ''n1'' ''s1'') (offers (m_opts ex_mem1) es ''n1'' ''s1'') \<and>
      map_option s_Generation (def_at ex_mem1 ''n1'' ''s1'') = Some 1 \<and>
      map_option s_Generation (def_at m' ''n1'' ''s1'') = Some 2)"
proof -
  let ?es = "lr_Entries (Memory_Lookup 200 Query_zero ex_mem2)"
  let ?r = "Memory_Merge (\<lambda>_. 200) ?es ex_mem1"
  have g: "map_option s_Generation (def_at ex_mem1 ''n1'' ''s1'') = Some 1"
    "map_option s_Generation (def_at (snd (snd ?r)) ''n1'' ''s1'') = Some 2" by code_simp+
  have "o_MaxServices (m_opts ex_mem1) \<le> 0" by code_simp
  then have cap: "o_MaxServices (m_opts ex_mem1) \<le> 0 \<or>
      int (Memory_Size ex_mem1 + length ?es) \<le> o_MaxServices (m_opts ex_mem1)" ..
  have "?r = (fst ?r, fst (snd ?r), snd (snd ?r))" by simp
  from Merge_is_LWW [OF cap this, of "''n1''" "''s1''"] g show ?thesis by (simp add: Let_def)
qed

section \<open>Exchanging contents\<close>

lemma clampTTL_stable: "ttl_ok opts d \<Longrightarrow> clampTTL opts d = d"
  by (auto simp: ttl_ok_def clampTTL_def Let_def)

lemma filter_key:
  assumes "distinct (map f xs)" "x \<in> set xs"
  shows "filter (\<lambda>y. f y = f x) xs = [x]"
  using assms by (induction xs) (auto simp: filter_empty_conv image_iff)

text \<open>What a lookup of everything offers is exactly what the registry holds, as long as it is live.\<close>

lemma offers_Lookup:
  assumes "registry_ok m" "\<forall>nid sid svc. svc_at m nid sid = Some svc \<longrightarrow> live m now svc"
  shows "offers (m_opts m) (lr_Entries (Memory_Lookup now Query_zero m)) nid sid =
    (case def_at m nid sid of None \<Rightarrow> [] | Some d \<Rightarrow> [d])"
proof -
  let ?L = "lr_Entries (Memory_Lookup now Query_zero m)"
  have ok: "ids_ok m" "names_ok m" "leases_ok m" using assms(1) by (simp_all add: registry_ok_def)
  have dist: "distinct (map entry_id ?L)" using sorted_Lookup [OF ok(1)] by (simp add: strict_sorted_iff)
  have set: "set ?L = {answer m now meta svc | nid sid meta svc. meta_at m nid = Some meta \<and> svc_at m nid sid = Some svc}"
    using assms(2) by (auto simp: set_Lookup [OF ok(2)] asked_def Query_zero_def) blast
  show ?thesis
  proof (cases "svc_at m nid sid")
    case None
    have "entry_id e \<noteq> (nid, sid)" if e_in: "e \<in> set ?L" for e
    proof -
      obtain n s meta svc where e: "e = answer m now meta svc" "meta_at m n = Some meta" "svc_at m n s = Some svc"
        using e_in unfolding set by blast
      then have "entry_id e = (n, s)"
        using ids_okD(1) [OF ok(1) e(2)] ids_okD(2) [OF ok(1) e(3)] by (simp add: answer_def entry_def)
      then show ?thesis using e(3) None by auto
    qed
    then have "filter (\<lambda>e. nid \<noteq> [] \<and> sid \<noteq> [] \<and> entry_id e = (nid, sid)) ?L = []"
      by (auto simp: filter_empty_conv)
    then show ?thesis using None by (simp add: offers_def def_at_def)
  next
    case (Some svc)
    obtain meta where meta: "meta_at m nid = Some meta" using svc_at_meta [OF Some] by blast
    have ids: "nid \<noteq> []" "sid \<noteq> []" "entry_id (answer m now meta svc) = (nid, sid)"
      using ids_okD(1) [OF ok(1) meta] ids_okD(2) [OF ok(1) Some] by (auto simp: answer_def entry_def)
    have "answer m now meta svc \<in> set ?L" unfolding set using meta Some by blast
    from filter_key [OF dist this] have "filter (\<lambda>e. nid \<noteq> [] \<and> sid \<noteq> [] \<and> entry_id e = (nid, sid)) ?L = [answer m now meta svc]"
      using ids by simp
    moreover have "clampTTL (m_opts m) (s_TTL (sv_def svc)) = s_TTL (sv_def svc)"
      using ok(3) Some by (intro clampTTL_stable) (simp add: leases_ok_def)
    ultimately show ?thesis using Some by (simp add: offers_def def_at_def answer_def entry_def)
  qed
qed

lemma champion_start: "champion wins c xs = champion wins None ((case c of None \<Rightarrow> [] | Some d \<Rightarrow> [d]) @ xs)"
  by (cases c) auto

text \<open>
  C4 (equivalence). Two registries with the same options and no service limit that exchange
  everything they hold agree afterwards on the definition of every service, provided no two versions
  of one service tie: anti-entropy converges in one exchange, whichever side held the newer version.
\<close>

theorem Merge_converges:
  "mem_reach opts es1 a \<Longrightarrow> mem_reach opts es2 b \<Longrightarrow> o_MaxServices opts \<le> 0 \<Longrightarrow>
   (\<forall>nid sid svc. svc_at a nid sid = Some svc \<longrightarrow> live a now svc) \<Longrightarrow>
   (\<forall>nid sid svc. svc_at b nid sid = Some svc \<longrightarrow> live b now svc) \<Longrightarrow>
   (\<forall>nid sid d d'. def_at a nid sid = Some d \<longrightarrow> def_at b nid sid = Some d' \<longrightarrow>
      \<not> WinsLWW d d' \<longrightarrow> \<not> WinsLWW d' d \<longrightarrow> d = d') \<Longrightarrow>
   Memory_Merge evclk (lr_Entries (Memory_Lookup now Query_zero b)) a = (n, out, a') \<Longrightarrow>
   Memory_Merge evclk' (lr_Entries (Memory_Lookup now Query_zero a)) b = (n', out', b') \<Longrightarrow>
   def_at a' nid sid = def_at b' nid sid"
proof -
  assume r: "mem_reach opts es1 a" "mem_reach opts es2 b" and cap: "o_MaxServices opts \<le> 0"
    and live: "\<forall>nid sid svc. svc_at a nid sid = Some svc \<longrightarrow> live a now svc"
      "\<forall>nid sid svc. svc_at b nid sid = Some svc \<longrightarrow> live b now svc"
    and ties: "\<forall>nid sid d d'. def_at a nid sid = Some d \<longrightarrow> def_at b nid sid = Some d' \<longrightarrow>
      \<not> WinsLWW d d' \<longrightarrow> \<not> WinsLWW d' d \<longrightarrow> d = d'"
    and run: "Memory_Merge evclk (lr_Entries (Memory_Lookup now Query_zero b)) a = (n, out, a')"
      "Memory_Merge evclk' (lr_Entries (Memory_Lookup now Query_zero a)) b = (n', out', b')"
  have same: "m_opts a = m_opts b" using m_opts_reach r by simp
  have nocap: "o_MaxServices (m_opts a) \<le> 0 \<or> P" "o_MaxServices (m_opts b) \<le> 0 \<or> P" for P
    using m_opts_reach [OF r(1)] m_opts_reach [OF r(2)] cap by (simp_all add: NewMemory_def Let_def)
  have a': "def_at a' nid sid = champion WinsLWW (def_at a nid sid) (case def_at b nid sid of None \<Rightarrow> [] | Some d \<Rightarrow> [d])"
    using merge_loop_champion [OF run(1) [unfolded Memory_Merge_def] nocap(1)]
      offers_Lookup [OF registry_ok_reach [OF r(2)] live(2)] by (simp add: same)
  have b': "def_at b' nid sid = champion WinsLWW (def_at b nid sid) (case def_at a nid sid of None \<Rightarrow> [] | Some d \<Rightarrow> [d])"
    using merge_loop_champion [OF run(2) [unfolded Memory_Merge_def] nocap(2)]
      offers_Lookup [OF registry_ok_reach [OF r(1)] live(1)] by (simp add: same)
  show ?thesis
    unfolding a' b' champion_start [of WinsLWW "def_at a nid sid"] champion_start [of WinsLWW "def_at b nid sid"]
    by (rule svc.champion_set)
       (use ties in \<open>cases "def_at a nid sid"; cases "def_at b nid sid"; force\<close>)+
qed

lemma register_reach: "\<exists>es. mem_reach opts es (snd (snd (Memory_Register now evclk reg (NewMemory opts))))"
proof -
  obtain err es m where r: "Memory_Register now evclk reg (NewMemory opts) = (err, es, m)"
    by (metis prod_cases3)
  from reach_step [OF reach_new mem_step.Register [OF r]] r show ?thesis by auto
qed

lemma ex_mem1_reach: "\<exists>es. mem_reach (ex_opts\<lparr>o_MaxServices := 0\<rparr>) es ex_mem1"
  unfolding ex_mem1_def by (rule register_reach)

lemma ex_mem2_reach: "\<exists>es. mem_reach (ex_opts\<lparr>o_MaxServices := 0\<rparr>) es ex_mem2"
  unfolding ex_mem2_def by (rule register_reach)

text \<open>Quantifying over the stored services is going through the references of a full visit.\<close>

lemma all_services: "(\<forall>nid sid svc. svc_at m nid sid = Some svc \<longrightarrow> P nid sid svc) \<longleftrightarrow>
    list_all (\<lambda>(nid, sid). case svc_at m nid sid of None \<Rightarrow> True | Some svc \<Rightarrow> P nid sid svc) (visit_all m)"
  by (auto simp: list_all_iff set_visit_all keys_def split: option.splits)

theorem Merge_converges_witness:
  "(let a' = snd (snd (Memory_Merge (\<lambda>_. 200) (lr_Entries (Memory_Lookup 200 Query_zero ex_mem2)) ex_mem1));
        b' = snd (snd (Memory_Merge (\<lambda>_. 200) (lr_Entries (Memory_Lookup 200 Query_zero ex_mem1)) ex_mem2)) in
      def_at a' ''n1'' ''s2'' = def_at b' ''n1'' ''s2'' \<and> def_at a' ''n1'' ''s2'' \<noteq> None \<and>
      def_at ex_mem2 ''n1'' ''s2'' = None)"
proof -
  let ?ma = "Memory_Merge (\<lambda>_. 200) (lr_Entries (Memory_Lookup 200 Query_zero ex_mem2)) ex_mem1"
  let ?mb = "Memory_Merge (\<lambda>_. 200) (lr_Entries (Memory_Lookup 200 Query_zero ex_mem1)) ex_mem2"
  obtain es1 es2 where r: "mem_reach (ex_opts\<lparr>o_MaxServices := 0\<rparr>) es1 ex_mem1"
    "mem_reach (ex_opts\<lparr>o_MaxServices := 0\<rparr>) es2 ex_mem2" using ex_mem1_reach ex_mem2_reach by blast
  have live: "\<forall>nid sid svc. svc_at ex_mem1 nid sid = Some svc \<longrightarrow> live ex_mem1 200 svc"
    "\<forall>nid sid svc. svc_at ex_mem2 nid sid = Some svc \<longrightarrow> live ex_mem2 200 svc"
    unfolding all_services by code_simp+
  have "\<forall>nid sid svc. svc_at ex_mem1 nid sid = Some svc \<longrightarrow>
      (case def_at ex_mem2 nid sid of None \<Rightarrow> True | Some d' \<Rightarrow> WinsLWW d' (sv_def svc))"
    unfolding all_services by code_simp
  then have ties: "\<forall>nid sid d d'. def_at ex_mem1 nid sid = Some d \<longrightarrow> def_at ex_mem2 nid sid = Some d' \<longrightarrow>
      \<not> WinsLWW d d' \<longrightarrow> \<not> WinsLWW d' d \<longrightarrow> d = d'" by (fastforce simp: def_at_def)
  have v: "def_at (snd (snd ?ma)) ''n1'' ''s2'' \<noteq> None" "def_at ex_mem2 ''n1'' ''s2'' = None" by code_simp+
  have runs: "?ma = (fst ?ma, fst (snd ?ma), snd (snd ?ma))" "?mb = (fst ?mb, fst (snd ?mb), snd (snd ?mb))" by simp_all
  have "o_MaxServices (ex_opts\<lparr>o_MaxServices := 0\<rparr>) \<le> 0" by simp
  from Merge_converges [OF r this live ties runs, of "''n1''" "''s2''"] v show ?thesis by (simp add: Let_def)
qed

end
