(* ===== verification/Watch.thy ===== *)
theory Watch
  imports Health GoStrings
begin

text \<open>
  \<^verbatim>\<open>internal/watch\<close>: \<^verbatim>\<open>watcher.go\<close>, the monotonic index over registry changes with its subscriptions
  and blocking queries, and \<^verbatim>\<open>persist.go\<close>, the index kept across restarts.

  The broadcast channel \<^verbatim>\<open>bump\<close> is closed and replaced on every change: it is modelled by the number
  of replacements, so a waiter that holds generation \<open>g\<close> finds its channel closed exactly when the
  generation is no longer \<open>g\<close>. A subscription's channel is a list of at most 64 events, kept apart
  from the subscription table because a delivery may still be sent after the cancel function ran.
  A blocking query is a step relation, so that notifications interleave with it freely.
\<close>

section \<open>The watcher\<close>

record Watcher =
  wa_index :: uint64
  wa_nameIndex :: "(string, uint64) fmap"
  wa_bump :: nat
  wa_subs :: "(nat, Query) fmap"
  wa_chans :: "(nat, ChangeEvent list) fmap"
  wa_nextID :: nat

definition Watcher_New :: "uint64 \<Rightarrow> Watcher" where
  "Watcher_New base = \<lparr>wa_index = base, wa_nameIndex = fmempty, wa_bump = 0, wa_subs = fmempty,
     wa_chans = fmempty, wa_nextID = 0\<rparr>"

definition atLeastOne :: "uint64 \<Rightarrow> uint64" where
  "atLeastOne x = (if x < 1 then 1 else x)"

definition Watcher_Index :: "Watcher \<Rightarrow> uint64" where
  "Watcher_Index w = atLeastOne (wa_index w)"

definition matches :: "Query \<Rightarrow> ServiceEntry \<Rightarrow> bool" where
  "matches q e =
     (if q_Name q \<noteq> [] \<and> q_Name q \<noteq> s_Name (e_Service e) then False
      else if q_Datacenter q \<noteq> [] \<and> q_Datacenter q \<noteq> n_Datacenter (e_Node e) then False
      else MatchesTags (e_Service e) (q_Tags q))"

definition signalLocked :: "Watcher \<Rightarrow> Watcher" where
  "signalLocked w = w\<lparr>wa_bump := Suc (wa_bump w)\<rparr>"

definition bump_name :: "string \<Rightarrow> Watcher \<Rightarrow> Watcher" where
  "bump_name name w =
     w\<lparr>wa_index := wa_index w + 1, wa_nameIndex := fmupd name (wa_index w + 1) (wa_nameIndex w)\<rparr>"

text \<open>The locked part of \<^verbatim>\<open>Notify\<close>: the index, the per-name keys and the deliveries to make.\<close>

fun notify_loop :: "ChangeEvent list \<Rightarrow> (nat \<times> ChangeEvent) list \<Rightarrow> Watcher
    \<Rightarrow> (nat \<times> ChangeEvent) list \<times> Watcher" where
  "notify_loop [] deliver w = (deliver, w)"
| "notify_loop (ev # events) deliver w =
     (let w = bump_name (s_Name (e_Service (c_Entry ev))) w;
          out = ev\<lparr>c_Index := wa_index w\<rparr>;
          hit = filter (\<lambda>i. matches (the (fmlookup (wa_subs w) i)) (c_Entry ev)) (range_keys (wa_subs w))
      in notify_loop events (deliver @ map (\<lambda>i. (i, out)) hit) w)"

definition chan_cap :: nat where
  "chan_cap = 64"

definition send :: "nat \<times> ChangeEvent \<Rightarrow> Watcher \<Rightarrow> Watcher" where
  "send d w =
     (case fmlookup (wa_chans w) (fst d) of
        None \<Rightarrow> w
      | Some ch \<Rightarrow>
          if length ch < chan_cap then w\<lparr>wa_chans := fmupd (fst d) (ch @ [snd d]) (wa_chans w)\<rparr> else w)"

definition Watcher_Notify :: "ChangeEvent list \<Rightarrow> Watcher \<Rightarrow> Watcher" where
  "Watcher_Notify events w =
     (if events = [] then w
      else case notify_loop events [] w of (deliver, w) \<Rightarrow> fold send deliver (signalLocked w))"

definition Watcher_NotifyNames :: "string list \<Rightarrow> Watcher \<Rightarrow> Watcher" where
  "Watcher_NotifyNames names w = (if names = [] then w else signalLocked (fold bump_name names w))"

definition Watcher_Subscribe :: "Query \<Rightarrow> Watcher \<Rightarrow> nat \<times> Watcher" where
  "Watcher_Subscribe q w =
     (wa_nextID w, w\<lparr>wa_nextID := Suc (wa_nextID w), wa_subs := fmupd (wa_nextID w) q (wa_subs w),
                     wa_chans := fmupd (wa_nextID w) [] (wa_chans w)\<rparr>)"

definition Watcher_cancel :: "nat \<Rightarrow> Watcher \<Rightarrow> Watcher" where
  "Watcher_cancel i w = w\<lparr>wa_subs := fmdrop i (wa_subs w)\<rparr>"

definition currentIndexLocked :: "Watcher \<Rightarrow> Query \<Rightarrow> uint64" where
  "currentIndexLocked w q =
     (if q_Name q \<noteq> [] then
        (case fmlookup (wa_nameIndex w) (q_Name q) of
           Some idx \<Rightarrow> atLeastOne idx
         | None \<Rightarrow> atLeastOne (wa_index w))
      else atLeastOne (wa_index w))"

definition Watcher_CurrentIndex :: "Watcher \<Rightarrow> Query \<Rightarrow> uint64" where
  "Watcher_CurrentIndex w q = currentIndexLocked w q"

section \<open>Blocking queries\<close>

text \<open>
  Where a call of \<^verbatim>\<open>WaitForChange\<close> is: about to read the index, blocked in the select with the
  index and the channel it read, or returned.
\<close>

datatype waiter = Checking | Blocked uint64 nat | Returned uint64

definition wait_check :: "Query \<Rightarrow> uint64 \<Rightarrow> Watcher \<Rightarrow> waiter" where
  "wait_check q minIndex w =
     (let cur = currentIndexLocked w q
      in if minIndex = 0 \<or> cur \<noteq> minIndex then Returned cur else Blocked cur (wa_bump w))"

text \<open>
  A blocking query among other calls: they notify (\<open>Changed\<close>), subscribe and cancel; the query reads
  the index, wakes when its channel is closed, or gives up when its timer fires or its context ends.
\<close>

inductive wait_step :: "Query \<Rightarrow> uint64 \<Rightarrow> Watcher \<times> waiter \<Rightarrow> Watcher \<times> waiter \<Rightarrow> bool"
  for q minIndex where
  Changed: "wait_step q minIndex (w, p) (Watcher_Notify events w, p)"
| ChangedNames: "wait_step q minIndex (w, p) (Watcher_NotifyNames names w, p)"
| Subscribed: "wait_step q minIndex (w, p) (snd (Watcher_Subscribe q' w), p)"
| Cancelled: "wait_step q minIndex (w, p) (Watcher_cancel i w, p)"
| Check: "wait_step q minIndex (w, Checking) (w, wait_check q minIndex w)"
| Wake: "g \<noteq> wa_bump w \<Longrightarrow> wait_step q minIndex (w, Blocked cur g) (w, Checking)"
| GiveUp: "wait_step q minIndex (w, Blocked cur g) (w, Returned cur)"

inductive_cases wait_checkE: "wait_step q minIndex (w, Checking) s"
inductive_cases wait_blockedE: "wait_step q minIndex (w, Blocked cur g) s"

section \<open>The persisted index\<close>

definition indexFile :: string where
  "indexFile = ''agent-index''"

type_synonym files = "string \<rightharpoonup> string"

definition index_path :: "string \<Rightarrow> string" where
  "index_path dataDir = dataDir @ ''/'' @ indexFile"

definition LoadBase :: "string \<Rightarrow> files \<Rightarrow> uint64" where
  "LoadBase dataDir fs =
     (if dataDir = [] then 0
      else case fs (index_path dataDir) of
        None \<Rightarrow> 0
      | Some data \<Rightarrow> (case ParseUint (TrimSpace data) of Inl _ \<Rightarrow> 0 | Inr n \<Rightarrow> n))"

text \<open>Creating the directory and writing the file may fail; a failed write leaves what was there.\<close>

datatype persist_error = MkdirFailed | WriteFailed

definition SaveBase :: "bool \<Rightarrow> bool \<Rightarrow> string \<Rightarrow> uint64 \<Rightarrow> files \<Rightarrow> persist_error option \<times> files" where
  "SaveBase mkdir_ok write_ok dataDir index fs =
     (if dataDir = [] then (None, fs)
      else if \<not> mkdir_ok then (Some MkdirFailed, fs)
      else if \<not> write_ok then (Some WriteFailed, fs)
      else (None, fs(index_path dataDir \<mapsto> FormatUint index @ [CHR 0x0A])))"

definition Flusher_interval :: "duration \<Rightarrow> duration" where
  "Flusher_interval interval = (if interval \<le> 0 then 10 * second else interval)"

definition Flusher_flush :: "bool \<Rightarrow> bool \<Rightarrow> string \<Rightarrow> Watcher \<Rightarrow> files \<Rightarrow> files" where
  "Flusher_flush mkdir_ok write_ok dataDir w fs = snd (SaveBase mkdir_ok write_ok dataDir (Watcher_Index w) fs)"

section \<open>How the index moves\<close>

definition event_name :: "ChangeEvent \<Rightarrow> string" where
  "event_name ev = s_Name (e_Service (c_Entry ev))"

lemma wa_bump_name [simp]:
  "wa_index (bump_name n w) = wa_index w + 1" "wa_subs (bump_name n w) = wa_subs w"
  "wa_chans (bump_name n w) = wa_chans w" "wa_bump (bump_name n w) = wa_bump w"
  "wa_nextID (bump_name n w) = wa_nextID w"
  by (simp_all add: bump_name_def)

lemma snd_notify_loop: "snd (notify_loop events d w) = fold bump_name (map event_name events) w"
  by (induction events arbitrary: d w) (simp_all add: Let_def event_name_def)

lemma fold_bump_name [simp]:
  "wa_index (fold bump_name names w) = wa_index w + of_nat (length names)"
  "wa_subs (fold bump_name names w) = wa_subs w" "wa_chans (fold bump_name names w) = wa_chans w"
  "wa_bump (fold bump_name names w) = wa_bump w" "wa_nextID (fold bump_name names w) = wa_nextID w"
  by (induction names arbitrary: w) (simp_all add: algebra_simps)

lemma send_simps [simp]:
  "wa_index (send d w) = wa_index w" "wa_nameIndex (send d w) = wa_nameIndex w"
  "wa_subs (send d w) = wa_subs w" "wa_bump (send d w) = wa_bump w" "wa_nextID (send d w) = wa_nextID w"
  by (simp_all add: send_def split: option.splits)

lemma fold_send_simps [simp]:
  "wa_index (fold send ds w) = wa_index w" "wa_nameIndex (fold send ds w) = wa_nameIndex w"
  "wa_subs (fold send ds w) = wa_subs w" "wa_bump (fold send ds w) = wa_bump w"
  "wa_nextID (fold send ds w) = wa_nextID w"
  by (induction ds arbitrary: w) simp_all

lemma signalLocked_simps [simp]:
  "wa_index (signalLocked w) = wa_index w" "wa_nameIndex (signalLocked w) = wa_nameIndex w"
  "wa_subs (signalLocked w) = wa_subs w" "wa_chans (signalLocked w) = wa_chans w"
  "wa_bump (signalLocked w) = Suc (wa_bump w)" "wa_nextID (signalLocked w) = wa_nextID w"
  by (simp_all add: signalLocked_def)

text \<open>For the indexes, the seed path and the agent path are the same advance over a list of names.\<close>

definition advanced :: "string list \<Rightarrow> Watcher \<Rightarrow> Watcher \<Rightarrow> bool" where
  "advanced names w w' \<longleftrightarrow>
     wa_index w' = wa_index (fold bump_name names w) \<and> wa_nameIndex w' = wa_nameIndex (fold bump_name names w) \<and>
     wa_subs w' = wa_subs w \<and> wa_bump w' = (if names = [] then wa_bump w else Suc (wa_bump w))"

lemma advanced_Notify: "advanced (map event_name events) w (Watcher_Notify events w)"
proof (cases "notify_loop events [] w")
  case (Pair deliver w')
  then have "w' = fold bump_name (map event_name events) w" using snd_notify_loop [of events "[]" w] by simp
  then show ?thesis using Pair by (auto simp: advanced_def Watcher_Notify_def)
qed

lemma advanced_NotifyNames: "advanced names w (Watcher_NotifyNames names w)"
  by (simp add: advanced_def Watcher_NotifyNames_def)

text \<open>The per-name keys never exceed the table index.\<close>

definition watch_ok :: "Watcher \<Rightarrow> bool" where
  "watch_ok w \<longleftrightarrow> (\<forall>n idx. fmlookup (wa_nameIndex w) n = Some idx \<longrightarrow> idx \<le> wa_index w)"

lemma watch_ok_New: "watch_ok (Watcher_New base)"
  by (simp add: watch_ok_def Watcher_New_def)

lemma nameIndex_fold:
  assumes "watch_ok w" "room (wa_index w) (length names)"
  shows "watch_ok (fold bump_name names w) \<and>
    (n \<in> set names \<longrightarrow> (\<exists>idx. fmlookup (wa_nameIndex (fold bump_name names w)) n = Some idx \<and> wa_index w < idx)) \<and>
    (n \<notin> set names \<longrightarrow> fmlookup (wa_nameIndex (fold bump_name names w)) n = fmlookup (wa_nameIndex w) n)"
  using assms
proof (induction names arbitrary: w)
  case (Cons a names)
  have r: "room (wa_index w + 1) (length names)" using Cons.prems(2) room_Suc by simp
  have lt: "wa_index w < wa_index w + 1" using Cons.prems(2) less_Suc_room by simp
  have "watch_ok (bump_name a w)"
    using Cons.prems(1) lt by (auto simp: watch_ok_def bump_name_def) (meson less_imp_le order_trans)
  from Cons.IH [OF this] r show ?case
    using lt by (auto simp: bump_name_def dest: order_less_trans)
qed simp

lemma atLeastOne_mono: "a \<le> b \<Longrightarrow> atLeastOne a \<le> atLeastOne b"
  by (auto simp: atLeastOne_def word_le_nat_alt word_less_nat_alt)

lemma atLeastOne_strict: "a < b \<Longrightarrow> 1 \<le> a \<Longrightarrow> atLeastOne a < atLeastOne b"
  by (auto simp: atLeastOne_def word_le_nat_alt word_less_nat_alt)

lemma currentIndex_advanced:
  assumes "watch_ok w" "room (wa_index w) (length names)" "advanced names w w'"
  shows "currentIndexLocked w q \<le> currentIndexLocked w' q" (is ?mono)
    and "q_Name q = [] \<and> names \<noteq> [] \<or> q_Name q \<noteq> [] \<and> q_Name q \<in> set names \<Longrightarrow> 1 \<le> wa_index w \<Longrightarrow>
      currentIndexLocked w q < currentIndexLocked w' q" (is "?hit \<Longrightarrow> _ \<Longrightarrow> ?strict")
    and "fmlookup (wa_nameIndex w) (q_Name q) \<noteq> None \<Longrightarrow> q_Name q \<noteq> [] \<Longrightarrow> q_Name q \<notin> set names \<Longrightarrow>
      currentIndexLocked w' q = currentIndexLocked w q"
    and "watch_ok w'"
proof -
  have w': "wa_index w' = wa_index w + of_nat (length names)"
      "wa_nameIndex w' = wa_nameIndex (fold bump_name names w)" using assms(3) by (simp_all add: advanced_def)
  note f = nameIndex_fold [OF assms(1,2)]
  have le: "wa_index w \<le> wa_index w'" using w'(1) le_add_room [OF assms(2)] by simp
  have lt: "wa_index w < wa_index w'" if "names \<noteq> []"
    using that unat_add_room [OF assms(2)] by (simp add: w'(1) word_less_nat_alt)
  have key: "idx \<le> wa_index w" if "fmlookup (wa_nameIndex w) n = Some idx" for n idx
    using assms(1) that by (simp add: watch_ok_def)
  show "watch_ok w'" using f [of "[]"] by (simp add: watch_ok_def w')
  show keep: "currentIndexLocked w' q = currentIndexLocked w q"
    if "fmlookup (wa_nameIndex w) (q_Name q) \<noteq> None" "q_Name q \<noteq> []" "q_Name q \<notin> set names"
    using that f [of "q_Name q"] by (auto simp: currentIndexLocked_def w'(2))
  have cur: "currentIndexLocked w q \<le> atLeastOne (wa_index w)"
    using key by (auto simp: currentIndexLocked_def intro: atLeastOne_mono split: option.splits)
  have hit: "currentIndexLocked w' q = atLeastOne idx \<and> wa_index w < idx"
    if "q_Name q \<noteq> []" "fmlookup (wa_nameIndex w') (q_Name q) = Some idx" "q_Name q \<in> set names" for idx
    using that f [of "q_Name q"] by (auto simp: currentIndexLocked_def w'(2))
  show ?mono
  proof (cases "q_Name q \<noteq> [] \<and> q_Name q \<in> set names")
    case True
    then obtain idx where "fmlookup (wa_nameIndex w') (q_Name q) = Some idx" using f [of "q_Name q"] w'(2) by auto
    with hit True have "currentIndexLocked w' q = atLeastOne idx" "wa_index w < idx" by auto
    then show ?thesis using order_trans [OF cur atLeastOne_mono] by (simp add: less_imp_le)
  next
    case False
    show ?thesis
    proof (cases "q_Name q \<noteq> [] \<and> fmlookup (wa_nameIndex w) (q_Name q) \<noteq> None")
      case True
      then show ?thesis using keep False by simp
    next
      case no: False
      then have "currentIndexLocked w' q = atLeastOne (wa_index w')"
        using False f [of "q_Name q"] by (auto simp: currentIndexLocked_def w'(2))
      then show ?thesis using order_trans [OF cur atLeastOne_mono [OF le]] by simp
    qed
  qed
  show ?strict if h: ?hit and one: "1 \<le> wa_index w"
  proof (cases "q_Name q = []")
    case True
    then show ?thesis using h lt atLeastOne_strict [OF _ one] by (simp add: currentIndexLocked_def)
  next
    case False
    then obtain idx where "fmlookup (wa_nameIndex w') (q_Name q) = Some idx" using f [of "q_Name q"] w'(2) h by auto
    with hit False h have "currentIndexLocked w' q = atLeastOne idx" "wa_index w < idx" by auto
    then show ?thesis using cur atLeastOne_strict [OF _ one, of idx] by (metis order_le_less_trans)
  qed
qed

text \<open>The sample event: service \<open>s\<close> of node \<open>n\<close>, named \<open>name\<close>.\<close>

definition ex_event :: "string \<Rightarrow> ChangeEvent" where
  "ex_event name = \<lparr>c_Type = ChangePut, c_Entry = ex_entry ''n'' ''s'' name 1 0, c_Index = 99\<rparr>"



text \<open>
  With a base of 0 the first change is invisible: the index reads 1 before it, because it is raised
  to at least 1, and 1 after it, so a query blocked at 1 goes back to sleep.
\<close>

theorem first_change_missed:
  "Watcher_CurrentIndex (Watcher_New 0) Query_zero = 1 \<and>
   Watcher_CurrentIndex (Watcher_Notify [ex_event ''web''] (Watcher_New 0)) Query_zero = 1 \<and>
   wait_check Query_zero 1 (Watcher_Notify [ex_event ''web''] (Watcher_New 0)) = Blocked 1 1"
  by code_simp

section \<open>Deliveries\<close>

fun stamped :: "uint64 \<Rightarrow> ChangeEvent list \<Rightarrow> ChangeEvent list" where
  "stamped i [] = []"
| "stamped i (ev # evs) = ev\<lparr>c_Index := i + 1\<rparr> # stamped (i + 1) evs"

definition for_sub :: "nat \<Rightarrow> (nat \<times> ChangeEvent) list \<Rightarrow> ChangeEvent list" where
  "for_sub i ds = map snd (filter (\<lambda>d. fst d = i) ds)"

lemma for_sub_simps [simp]: "for_sub i [] = []" "for_sub i (a @ b) = for_sub i a @ for_sub i b"
  by (simp_all add: for_sub_def)

lemma for_sub_hits: "distinct is \<Longrightarrow> for_sub i (map (\<lambda>i. (i, ev)) is) = (if i \<in> set is then [ev] else [])"
  by (induction "is") (auto simp: for_sub_def filter_empty_conv)

lemma for_sub_notify_loop:
  assumes "fmlookup (wa_subs w) i = Some q"
  shows "for_sub i (fst (notify_loop events d w)) =
    for_sub i d @ filter (\<lambda>ev. matches q (c_Entry ev)) (stamped (wa_index w) events)"
  using assms
proof (induction events arbitrary: d w)
  case (Cons ev events)
  let ?hit = "filter (\<lambda>i. matches (the (fmlookup (wa_subs w) i)) (c_Entry ev)) (range_keys (wa_subs w))"
  have "i \<in> set (range_keys (wa_subs w))" using Cons.prems by (simp add: fmdom'I)
  then have "for_sub i (map (\<lambda>i. (i, out)) ?hit) = (if matches q (c_Entry ev) then [out] else [])" for out
    using Cons.prems by (subst for_sub_hits) auto
  then show ?case using Cons by (simp add: Let_def)
qed simp

lemma fold_send:
  "fmlookup (wa_chans (fold send ds w)) i =
     map_option (\<lambda>ch. ch @ take (chan_cap - length ch) (for_sub i ds)) (fmlookup (wa_chans w) i)"
proof (induction ds arbitrary: w)
  case Nil
  then show ?case by (simp add: option.map_ident)
next
  case (Cons d ds)
  show ?case
    by (simp add: Cons.IH) (cases d; auto simp: send_def for_sub_def split: option.splits; simp add: take_Cons' Suc_diff_Suc)
qed

text \<open>
  A subscriber's channel receives, after what it holds, exactly the events of the
  batch that match its query, in order and numbered with the watcher's own index, as far as the
  buffer of 64 has room; a subscriber that falls behind loses the tail and nothing else.
\<close>

theorem Notify_delivers:
  "fmlookup (wa_subs w) i = Some q \<Longrightarrow> fmlookup (wa_chans w) i = Some ch \<Longrightarrow>
     fmlookup (wa_chans (Watcher_Notify events w)) i =
       Some (ch @ take (64 - length ch) (filter (\<lambda>ev. matches q (c_Entry ev)) (stamped (wa_index w) events)))"
proof -
  assume sub: "fmlookup (wa_subs w) i = Some q" and ch: "fmlookup (wa_chans w) i = Some ch"
  obtain ds w' where n: "notify_loop events [] w = (ds, w')" by fastforce
  have "wa_chans w' = wa_chans w" using snd_notify_loop [of events "[]" w] n by simp
  then show ?thesis
    using n for_sub_notify_loop [OF sub, of events "[]"] ch
    by (auto simp: Watcher_Notify_def fold_send chan_cap_def)
qed

theorem Notify_delivers_witness:
  "(let w = snd (Watcher_Subscribe (Query_zero\<lparr>q_Name := ''web''\<rparr>) (Watcher_New 5)) in
      fmlookup (wa_chans (Watcher_Notify [ex_event ''db'', ex_event ''web''] w)) 0
        = Some [(ex_event ''web'')\<lparr>c_Index := 7\<rparr>])"
proof -
  let ?q = "Query_zero\<lparr>q_Name := ''web''\<rparr>" and ?evs = "[ex_event ''db'', ex_event ''web'']"
  let ?w = "snd (Watcher_Subscribe ?q (Watcher_New 5))"
  have "fmlookup (wa_subs ?w) 0 = Some ?q" "fmlookup (wa_chans ?w) 0 = Some []" "wa_index ?w = 5"
    by (simp_all add: Watcher_Subscribe_def Watcher_New_def)
  moreover have "filter (\<lambda>ev. matches ?q (c_Entry ev)) (stamped 5 ?evs) = [(ex_event ''web'')\<lparr>c_Index := 7\<rparr>]"
    by code_simp
  ultimately show ?thesis using Notify_delivers [of ?w 0 ?q "[]" ?evs] by (simp add: Let_def)
qed

section \<open>Blocking queries return\<close>

definition wait_ok :: "Query \<Rightarrow> uint64 \<Rightarrow> Watcher \<times> waiter \<Rightarrow> bool" where
  "wait_ok q minIndex s \<longleftrightarrow>
     (case snd s of
        Blocked cur g \<Rightarrow> cur = minIndex \<and> minIndex \<noteq> 0 \<and> g \<le> wa_bump (fst s) \<and>
          (g = wa_bump (fst s) \<longrightarrow> currentIndexLocked (fst s) q = cur)
      | _ \<Rightarrow> True)"

lemma currentIndex_cong:
  "wa_index w' = wa_index w \<Longrightarrow> wa_nameIndex w' = wa_nameIndex w \<Longrightarrow> currentIndexLocked w' q = currentIndexLocked w q"
  by (cases "fmlookup (wa_nameIndex w) (q_Name q)") (simp_all add: currentIndexLocked_def)

lemma wait_ok_advanced:
  "wait_ok q minIndex (w, p) \<Longrightarrow> advanced names w w' \<Longrightarrow> wait_ok q minIndex (w', p)"
  using currentIndex_cong [of w' w q]
  by (cases "names = []") (auto simp: wait_ok_def advanced_def split: waiter.splits)

lemma wait_ok_step: "wait_step q minIndex s s' \<Longrightarrow> wait_ok q minIndex s \<Longrightarrow> wait_ok q minIndex s'"
proof (induction rule: wait_step.induct)
  case (Changed w p events)
  then show ?case using wait_ok_advanced advanced_Notify by blast
next
  case (ChangedNames w p names)
  then show ?case using wait_ok_advanced advanced_NotifyNames by blast
next
  case (Subscribed w p q')
  then show ?case
    using currentIndex_cong [of "snd (Watcher_Subscribe q' w)" w q]
    by (auto simp: wait_ok_def Watcher_Subscribe_def split: waiter.splits)
next
  case (Cancelled w p i)
  then show ?case
    using currentIndex_cong [of "Watcher_cancel i w" w q]
    by (auto simp: wait_ok_def Watcher_cancel_def split: waiter.splits)
qed (auto simp: wait_ok_def wait_check_def Let_def split: if_splits waiter.splits)

lemma wait_ok_reach: "(wait_step q minIndex)\<^sup>*\<^sup>* (w0, Checking) s \<Longrightarrow> wait_ok q minIndex s"
  by (induction rule: rtranclp_induct) (auto simp: wait_ok_def [of _ _ "(w0, Checking)"] intro: wait_ok_step)

text \<open>
  C7 (liveness). However notifications, subscriptions and cancellations interleave with a blocking
  query, no wake-up is lost: whenever the index of the query differs from the one it waits on, the
  query can step, wake, and return that index; a query still blocked on an open channel is waiting
  on the current index, and a query given 0 never blocks.
\<close>

theorem wait_no_lost_wakeup:
  "(wait_step q minIndex)\<^sup>*\<^sup>* (w0, Checking) (w, Blocked cur g) \<Longrightarrow>
     cur = minIndex \<and> minIndex \<noteq> 0 \<and>
     (g = wa_bump w \<longrightarrow> currentIndexLocked w q = minIndex) \<and>
     (currentIndexLocked w q \<noteq> minIndex \<longrightarrow>
        wait_step q minIndex (w, Blocked cur g) (w, Checking) \<and>
        wait_step q minIndex (w, Checking) (w, Returned (currentIndexLocked w q)))"
proof -
  assume "(wait_step q minIndex)\<^sup>*\<^sup>* (w0, Checking) (w, Blocked cur g)"
  from wait_ok_reach [OF this] have ok: "cur = minIndex" "minIndex \<noteq> 0"
      "g = wa_bump w \<longrightarrow> currentIndexLocked w q = cur" by (auto simp: wait_ok_def)
  have "wait_step q minIndex (w, Blocked cur g) (w, Checking) \<and>
        wait_step q minIndex (w, Checking) (w, Returned (currentIndexLocked w q))"
    if "currentIndexLocked w q \<noteq> minIndex"
    using that ok wait_step.Wake [of g w q minIndex cur] wait_step.Check [of q minIndex w]
    by (auto simp: wait_check_def Let_def)
  then show ?thesis using ok by blast
qed

theorem wait_no_lost_wakeup_witness:
  "(let w = Watcher_NotifyNames [''web''] (Watcher_New 5) in
      currentIndexLocked w Query_zero = 6 \<and>
      wait_step Query_zero 5 (w, Blocked 5 0) (w, Checking) \<and>
      wait_step Query_zero 5 (w, Checking) (w, Returned 6))"
proof -
  let ?w = "Watcher_NotifyNames [''web''] (Watcher_New 5)"
  have "wait_check Query_zero 5 (Watcher_New 5) = Blocked 5 0" by code_simp
  then have "wait_step Query_zero 5 (Watcher_New 5, Checking) (Watcher_New 5, Blocked 5 0)"
    using wait_step.Check [of Query_zero 5 "Watcher_New 5"] by simp
  then have "(wait_step Query_zero 5)\<^sup>*\<^sup>* (Watcher_New 5, Checking) (?w, Blocked 5 0)"
    using wait_step.ChangedNames [of Query_zero 5 "Watcher_New 5" "Blocked 5 0" "[''web'']"]
    by (meson r_into_rtranclp rtranclp.rtrancl_into_rtrancl)
  moreover have "currentIndexLocked ?w Query_zero = 6" by code_simp
  ultimately show ?thesis
    using wait_no_lost_wakeup [of Query_zero 5 "Watcher_New 5" ?w 5 0] by (simp add: Let_def)
qed

section \<open>The index survives a restart\<close>

text \<open>
  A flush that succeeds makes the watcher built from the same directory resume at
  the flushed index, and never below it; a flush that fails, or without a data directory, leaves the
  files as they were.
\<close>

theorem flush_resume:
  "dataDir \<noteq> [] \<Longrightarrow>
     LoadBase dataDir (Flusher_flush True True dataDir w fs) = Watcher_Index w \<and>
     Watcher_Index (Watcher_New (LoadBase dataDir (Flusher_flush True True dataDir w fs))) = Watcher_Index w \<and>
     (\<not> mkdir_ok \<or> \<not> write_ok \<longrightarrow> Flusher_flush mkdir_ok write_ok dataDir w fs = fs) \<and>
     Flusher_flush mkdir_ok write_ok [] w fs = fs"
  by (auto simp: LoadBase_def Flusher_flush_def SaveBase_def Watcher_Index_def Watcher_New_def atLeastOne_def)

theorem flush_resume_witness:
  "LoadBase ''/data'' (Flusher_flush True True ''/data'' (Watcher_NotifyNames [''web''] (Watcher_New 41)) Map.empty) = 42"
proof -
  have "Watcher_Index (Watcher_NotifyNames [''web''] (Watcher_New 41)) = 42" by code_simp
  then show ?thesis using flush_resume [of "''/data''"] by simp
qed

end
