(* ===== verification/Protoconv.thy ===== *)
theory Protoconv
  imports Health
begin

text \<open>
  \<^verbatim>\<open>internal/protoconv/protoconv.go\<close>: the conversions between the domain model and the wire
  messages of \<^verbatim>\<open>proto/discovery/v1/discovery.proto\<close>. A message pointer is an option, \<^const>\<open>None\<close> for nil;
  a proto3 enum is an integer, since the wire may carry a value this version does not know. Copying a
  slice or a map is the identity on values.
\<close>

section \<open>The wire messages\<close>

record pb_Node =
  pn_Id :: string
  pn_Name :: string
  pn_Address :: string
  pn_Datacenter :: string
  pn_Meta :: smap
  pn_TaggedAddresses :: smap

record pb_Weights =
  pw_Passing :: uint32
  pw_Warning :: uint32

record pb_Service =
  ps_Id :: string
  ps_Name :: string
  ps_Address :: string
  ps_Port :: uint32
  ps_Tags :: "string list"
  ps_Meta :: smap
  ps_Weights :: "pb_Weights option"
  ps_TtlSeconds :: uint32

record pb_Registration =
  pr_Node :: "pb_Node option"
  pr_Services :: "pb_Service option list"
  pr_Generation :: uint64

record pb_ServiceEntry =
  pe_Node :: "pb_Node option"
  pe_Service :: "pb_Service option"
  pe_Health :: int
  pe_Maintenance :: bool
  pe_Generation :: uint64
  pe_LastSeenUnixNano :: int

record pb_Query =
  pq_Name :: string
  pq_Datacenter :: string
  pq_Tags :: "string list"
  pq_OnlyHealthy :: bool

record pb_LookupResponse =
  pl_Entries :: "pb_ServiceEntry option list"
  pl_Index :: uint64

record pb_ChangeEvent =
  pc_Type :: int
  pc_Entry :: "pb_ServiceEntry option"

section \<open>Helpers\<close>

definition ttlToSeconds :: "duration \<Rightarrow> uint32" where
  "ttlToSeconds d =
     (let secs = (if d < 0 then - ((- d) div second) else d div second)
      in if secs < 0 then 0 else if secs > 4294967295 then 4294967295 else word_of_int secs)"

definition portFromProto :: "uint32 \<Rightarrow> uint16" where
  "portFromProto p = (if p > 65535 then 65535 else ucast p)"

definition toUnixNano :: "time \<Rightarrow> int" where
  "toUnixNano t = (if time_IsZero t then 0 else wrap64 t)"

definition fromUnixNano :: "int \<Rightarrow> time" where
  "fromUnixNano n = (if n = 0 then zeroTime else n)"

definition copySlice :: "string list \<Rightarrow> string list" where
  "copySlice xs = (if xs = [] then [] else xs)"

definition copyMap :: "smap \<Rightarrow> smap" where
  "copyMap m = (if fmlen m = 0 then fmempty else fold (\<lambda>k. fmupd k (the (fmlookup m k))) (range_keys m) fmempty)"

section \<open>Conversions\<close>

definition NodeToProto :: "Node \<Rightarrow> pb_Node" where
  "NodeToProto n = \<lparr>pn_Id = n_ID n, pn_Name = n_Name n, pn_Address = n_Address n,
     pn_Datacenter = n_Datacenter n, pn_Meta = copyMap (n_Meta n),
     pn_TaggedAddresses = copyMap (n_TaggedAddresses n)\<rparr>"

definition NodeFromProto :: "pb_Node option \<Rightarrow> Node" where
  "NodeFromProto po =
     (case po of
        None \<Rightarrow> Node_zero
      | Some p \<Rightarrow> \<lparr>n_ID = pn_Id p, n_Name = pn_Name p, n_Address = pn_Address p,
          n_Datacenter = pn_Datacenter p, n_Meta = copyMap (pn_Meta p),
          n_TaggedAddresses = copyMap (pn_TaggedAddresses p)\<rparr>)"

definition WeightsToProto :: "Weights \<Rightarrow> pb_Weights" where
  "WeightsToProto w = \<lparr>pw_Passing = w_Passing w, pw_Warning = w_Warning w\<rparr>"

definition WeightsFromProto :: "pb_Weights option \<Rightarrow> Weights" where
  "WeightsFromProto po =
     (case po of
        None \<Rightarrow> Weights_zero
      | Some p \<Rightarrow> \<lparr>w_Passing = pw_Passing p, w_Warning = pw_Warning p\<rparr>)"

definition ServiceToProto :: "ServiceInstance \<Rightarrow> pb_Service" where
  "ServiceToProto s = \<lparr>ps_Id = s_ID s, ps_Name = s_Name s, ps_Address = s_Address s,
     ps_Port = ucast (s_Port s), ps_Tags = copySlice (s_Tags s), ps_Meta = copyMap (s_Meta s),
     ps_Weights = Some (WeightsToProto (s_Weights s)), ps_TtlSeconds = ttlToSeconds (s_TTL s)\<rparr>"

definition ServiceFromProto :: "pb_Service option \<Rightarrow> ServiceInstance" where
  "ServiceFromProto po =
     (case po of
        None \<Rightarrow> ServiceInstance_zero
      | Some p \<Rightarrow> \<lparr>s_ID = ps_Id p, s_Name = ps_Name p, s_Address = ps_Address p,
          s_Port = portFromProto (ps_Port p), s_Tags = copySlice (ps_Tags p), s_Meta = copyMap (ps_Meta p),
          s_Weights = WeightsFromProto (ps_Weights p), s_TTL = uint (ps_TtlSeconds p) * second,
          s_LastSeen = zeroTime, s_Generation = 0\<rparr>)"

definition RegistrationToProto :: "Registration \<Rightarrow> pb_Registration" where
  "RegistrationToProto r = \<lparr>pr_Node = Some (NodeToProto (r_Node r)),
     pr_Services = map (\<lambda>s. Some (ServiceToProto s)) (r_Services r), pr_Generation = r_Generation r\<rparr>"

definition RegistrationFromProto :: "pb_Registration option \<Rightarrow> Registration" where
  "RegistrationFromProto po =
     (case po of
        None \<Rightarrow> \<lparr>r_Node = Node_zero, r_Services = [], r_Generation = 0\<rparr>
      | Some p \<Rightarrow> \<lparr>r_Node = NodeFromProto (pr_Node p), r_Services = map ServiceFromProto (pr_Services p),
          r_Generation = pr_Generation p\<rparr>)"

definition HealthToProto :: "HealthState \<Rightarrow> int" where
  "HealthToProto h =
     (case h of HealthPassing \<Rightarrow> 1 | HealthWarning \<Rightarrow> 2 | HealthCritical \<Rightarrow> 3 | HealthUnspecified \<Rightarrow> 0)"

definition HealthFromProto :: "int \<Rightarrow> HealthState" where
  "HealthFromProto h =
     (if h = 1 then HealthPassing else if h = 2 then HealthWarning else if h = 3 then HealthCritical
      else HealthUnspecified)"

definition EntryToProto :: "ServiceEntry \<Rightarrow> pb_ServiceEntry" where
  "EntryToProto e = \<lparr>pe_Node = Some (NodeToProto (e_Node e)), pe_Service = Some (ServiceToProto (e_Service e)),
     pe_Health = HealthToProto (e_Health e), pe_Maintenance = e_Maintenance e,
     pe_Generation = s_Generation (e_Service e), pe_LastSeenUnixNano = toUnixNano (s_LastSeen (e_Service e))\<rparr>"

definition ServiceEntry_zero :: ServiceEntry where
  "ServiceEntry_zero = \<lparr>e_Node = Node_zero, e_Service = ServiceInstance_zero, e_Health = HealthUnspecified,
     e_Maintenance = False, e_CreateIndex = 0, e_ModifyIndex = 0\<rparr>"

definition EntryFromProto :: "pb_ServiceEntry option \<Rightarrow> ServiceEntry" where
  "EntryFromProto po =
     (case po of
        None \<Rightarrow> ServiceEntry_zero
      | Some p \<Rightarrow>
          (let svc = (ServiceFromProto (pe_Service p))\<lparr>s_Generation := pe_Generation p,
                 s_LastSeen := fromUnixNano (pe_LastSeenUnixNano p)\<rparr>
           in \<lparr>e_Node = NodeFromProto (pe_Node p), e_Service = svc, e_Health = HealthFromProto (pe_Health p),
               e_Maintenance = pe_Maintenance p, e_CreateIndex = 0, e_ModifyIndex = 0\<rparr>))"

definition QueryToProto :: "Query \<Rightarrow> pb_Query" where
  "QueryToProto q = \<lparr>pq_Name = q_Name q, pq_Datacenter = q_Datacenter q, pq_Tags = copySlice (q_Tags q),
     pq_OnlyHealthy = q_OnlyHealthy q\<rparr>"

definition QueryFromProto :: "pb_Query option \<Rightarrow> Query" where
  "QueryFromProto po =
     (case po of
        None \<Rightarrow> Query_zero
      | Some p \<Rightarrow> \<lparr>q_Name = pq_Name p, q_Datacenter = pq_Datacenter p, q_Tags = copySlice (pq_Tags p),
          q_OnlyHealthy = pq_OnlyHealthy p\<rparr>)"

definition LookupResultToProto :: "LookupResult \<Rightarrow> pb_LookupResponse" where
  "LookupResultToProto r = \<lparr>pl_Entries = map (\<lambda>e. Some (EntryToProto e)) (lr_Entries r), pl_Index = lr_Index r\<rparr>"

definition LookupResultFromProto :: "pb_LookupResponse option \<Rightarrow> LookupResult" where
  "LookupResultFromProto po =
     (case po of
        None \<Rightarrow> \<lparr>lr_Entries = [], lr_Index = 0\<rparr>
      | Some p \<Rightarrow> \<lparr>lr_Entries = map EntryFromProto (pl_Entries p), lr_Index = pl_Index p\<rparr>)"

definition ChangeTypeToProto :: "ChangeType \<Rightarrow> int" where
  "ChangeTypeToProto c = (case c of ChangePut \<Rightarrow> 1 | ChangeDelete \<Rightarrow> 2 | ChangeUnspecified \<Rightarrow> 0)"

definition ChangeTypeFromProto :: "int \<Rightarrow> ChangeType" where
  "ChangeTypeFromProto c = (if c = 1 then ChangePut else if c = 2 then ChangeDelete else ChangeUnspecified)"

definition ChangeEventToProto :: "ChangeEvent \<Rightarrow> pb_ChangeEvent" where
  "ChangeEventToProto e = \<lparr>pc_Type = ChangeTypeToProto (c_Type e), pc_Entry = Some (EntryToProto (c_Entry e))\<rparr>"

definition ChangeEventFromProto :: "pb_ChangeEvent option \<Rightarrow> uint64 \<Rightarrow> ChangeEvent" where
  "ChangeEventFromProto po index =
     (case po of
        None \<Rightarrow> \<lparr>c_Type = ChangeUnspecified, c_Entry = ServiceEntry_zero, c_Index = index\<rparr>
      | Some p \<Rightarrow> \<lparr>c_Type = ChangeTypeFromProto (pc_Type p), c_Entry = EntryFromProto (pc_Entry p),
          c_Index = index\<rparr>)"

section \<open>Round trips\<close>

lemma copySlice_id [simp]: "copySlice xs = xs"
  by (simp add: copySlice_def)

lemma fold_fmupd_lookup:
  "distinct ks \<Longrightarrow> fmlookup (fold (\<lambda>k. fmupd k (f k)) ks m) x = (if x \<in> set ks then Some (f x) else fmlookup m x)"
  by (induction ks arbitrary: m) auto

lemma copyMap_id [simp]: "copyMap m = m"
proof (cases "fmlen m = 0")
  case False
  have "fmlookup (copyMap m) k = fmlookup m k" for k
    using False by (simp add: copyMap_def fold_fmupd_lookup)
  then show ?thesis by (rule fmap_ext)
qed (simp add: copyMap_def)

lemma portFromProto_ucast [simp]: "portFromProto (ucast p) = p"
proof -
  have "uint p < 65536" using unsigned_less [of p, where 'a = int] by simp
  moreover have "uint (ucast p :: uint32) = uint p" by (rule uint_up_ucast) (simp add: is_up)
  ultimately have "\<not> (ucast p :: uint32) > 65535" by (simp add: word_less_alt)
  moreover have "ucast (ucast p :: uint32) = p" by (rule ucast_up_ucast_id) (simp add: is_up)
  ultimately show ?thesis by (simp add: portFromProto_def)
qed

lemma Health_roundtrip [simp]: "HealthFromProto (HealthToProto h) = h"
  by (cases h) (simp_all add: HealthFromProto_def HealthToProto_def)

lemma ChangeType_roundtrip [simp]: "ChangeTypeFromProto (ChangeTypeToProto c) = c"
  by (cases c) (simp_all add: ChangeTypeFromProto_def ChangeTypeToProto_def)

text \<open>What of a lease survives the wire: whole seconds, from 0 up to the largest \<^verbatim>\<open>uint32\<close>.\<close>

definition wire_ttl :: "duration \<Rightarrow> duration" where
  "wire_ttl d = max 0 (min 4294967295 (d div second)) * second"

lemma ttl_roundtrip: "uint (ttlToSeconds d) * second = wire_ttl d"
proof (cases "d < 0")
  case True
  then have "d div second < 0" "- ((- d) div second) \<le> 0"
    by (simp_all add: pos_imp_zdiv_neg_iff pos_imp_zdiv_nonneg_iff)
  then show ?thesis using True by (auto simp: ttlToSeconds_def wire_ttl_def Let_def)
next
  case False
  then have "d div second \<ge> 0" by (simp add: pos_imp_zdiv_nonneg_iff)
  then show ?thesis
    using False by (auto simp: ttlToSeconds_def wire_ttl_def Let_def unsigned_of_int take_bit_int_eq_self)
qed

lemma wire_ttl_exact: "0 \<le> n \<Longrightarrow> n \<le> 4294967295 \<Longrightarrow> wire_ttl (n * second) = n * second"
  by (simp add: wire_ttl_def)

text \<open>Instants other than the epoch itself survive as long as they fit \<^verbatim>\<open>UnixNano\<close>.\<close>

lemma nano_roundtrip: "t = zeroTime \<or> in_int64 t \<and> t \<noteq> 0 \<Longrightarrow> fromUnixNano (toUnixNano t) = t"
  by (auto simp: fromUnixNano_def toUnixNano_def wrap64_id)

lemma Node_roundtrip [simp]: "NodeFromProto (Some (NodeToProto n)) = n"
  by (simp add: NodeFromProto_def NodeToProto_def)

lemma Weights_roundtrip [simp]: "WeightsFromProto (Some (WeightsToProto w)) = w"
  by (simp add: WeightsFromProto_def WeightsToProto_def)

lemma Service_roundtrip:
  "ServiceFromProto (Some (ServiceToProto s)) =
     s\<lparr>s_TTL := wire_ttl (s_TTL s), s_LastSeen := zeroTime, s_Generation := 0\<rparr>"
  by (simp add: ServiceFromProto_def ServiceToProto_def ttl_roundtrip)

definition wire_entry :: "ServiceEntry \<Rightarrow> ServiceEntry" where
  "wire_entry e =
     e\<lparr>e_Service := (e_Service e)\<lparr>s_TTL := wire_ttl (s_TTL (e_Service e))\<rparr>, e_CreateIndex := 0, e_ModifyIndex := 0\<rparr>"

definition wire_safe :: "ServiceEntry \<Rightarrow> bool" where
  "wire_safe e \<longleftrightarrow> s_LastSeen (e_Service e) = zeroTime \<or>
     in_int64 (s_LastSeen (e_Service e)) \<and> s_LastSeen (e_Service e) \<noteq> 0"

lemma Entry_roundtrip: "wire_safe e \<Longrightarrow> EntryFromProto (Some (EntryToProto e)) = wire_entry e"
  by (simp add: EntryFromProto_def EntryToProto_def Service_roundtrip nano_roundtrip wire_entry_def wire_safe_def Let_def)

text \<open>The version a last-writer-wins decision compares is carried unchanged.\<close>

lemma WinsLWW_wire [simp]: "WinsLWW (e_Service (wire_entry e)) (e_Service (wire_entry f)) = WinsLWW (e_Service e) (e_Service f)"
  by (simp add: wire_entry_def WinsLWW_def)

text \<open>
  C16 (roundtrip). What a peer decodes from what was encoded is the original up to what the wire
  leaves out: nodes, queries, weights and enums unchanged; a service entry with its lease in whole
  seconds (from 0 to the largest \<^verbatim>\<open>uint32\<close>) and without the registry's own indexes; registrations
  and lookup answers entry by entry; events with the index carried beside them. Identity and version
  survive, so a last-writer-wins decision is the same on both sides of the wire.
\<close>

theorem wire_roundtrip:
  "NodeFromProto (Some (NodeToProto n)) = n \<and> QueryFromProto (Some (QueryToProto q)) = q \<and>
   RegistrationFromProto (Some (RegistrationToProto r)) =
     r\<lparr>r_Services := map (\<lambda>s. s\<lparr>s_TTL := wire_ttl (s_TTL s), s_LastSeen := zeroTime, s_Generation := 0\<rparr>) (r_Services r)\<rparr> \<and>
   (list_all wire_safe (lr_Entries res) \<longrightarrow>
      LookupResultFromProto (Some (LookupResultToProto res)) = res\<lparr>lr_Entries := map wire_entry (lr_Entries res)\<rparr>) \<and>
   (wire_safe (c_Entry ev) \<longrightarrow>
      ChangeEventFromProto (Some (ChangeEventToProto ev)) (c_Index ev) = ev\<lparr>c_Entry := wire_entry (c_Entry ev)\<rparr>) \<and>
   entry_id (wire_entry e) = entry_id e \<and>
   WinsLWW (e_Service (wire_entry e)) (e_Service (wire_entry f)) = WinsLWW (e_Service e) (e_Service f)"
proof -
  have "list_all wire_safe (lr_Entries res) \<longrightarrow>
      LookupResultFromProto (Some (LookupResultToProto res)) = res\<lparr>lr_Entries := map wire_entry (lr_Entries res)\<rparr>"
    by (auto simp: LookupResultFromProto_def LookupResultToProto_def list_all_iff Entry_roundtrip)
  then show ?thesis
    by (simp add: QueryFromProto_def QueryToProto_def RegistrationFromProto_def RegistrationToProto_def
        ChangeEventFromProto_def ChangeEventToProto_def Entry_roundtrip Service_roundtrip comp_def)
       (simp add: wire_entry_def)
qed

theorem wire_roundtrip_witness:
  "wire_safe (ex_entry ''n'' ''s'' ''web'' 3 5) \<and>
   LookupResultFromProto (Some (LookupResultToProto \<lparr>lr_Entries = [ex_entry ''n'' ''s'' ''web'' 3 5], lr_Index = 9\<rparr>)) =
     \<lparr>lr_Entries = [wire_entry (ex_entry ''n'' ''s'' ''web'' 3 5)], lr_Index = 9\<rparr> \<and>
   ChangeEventFromProto (Some (ChangeEventToProto \<lparr>c_Type = ChangePut, c_Entry = ex_entry ''n'' ''s'' ''web'' 3 5, c_Index = 4\<rparr>)) 4 =
     \<lparr>c_Type = ChangePut, c_Entry = wire_entry (ex_entry ''n'' ''s'' ''web'' 3 5), c_Index = 4\<rparr>"
proof -
  have "wire_safe (ex_entry ''n'' ''s'' ''web'' 3 5)" by code_simp
  then show ?thesis
    using wire_roundtrip [of "ex_node ''n''" Query_zero "\<lparr>r_Node = ex_node ''n'', r_Services = [], r_Generation = 0\<rparr>"
        "\<lparr>lr_Entries = [ex_entry ''n'' ''s'' ''web'' 3 5], lr_Index = 9\<rparr>"
        "\<lparr>c_Type = ChangePut, c_Entry = ex_entry ''n'' ''s'' ''web'' 3 5, c_Index = 4\<rparr>"] by simp
qed

end
