(* ===== verification/Cred.thy ===== *)
theory Cred
  imports Health GoStrings
begin

text \<open>
  \<^verbatim>\<open>internal/cred\<close>: \<^verbatim>\<open>acl.go\<close> (the authorization mode and the ownership check), \<^verbatim>\<open>identity.go\<close> (the
  principal of a request) and \<^verbatim>\<open>nodeid.go\<close> (the node id that is the ownership key).

  A request context is the peer's authentication and the incoming metadata, both possibly absent;
  a verified certificate is represented by its common name. Random bytes, the files and the YAML
  decoder are arguments.
\<close>

unbundle bit_operations_syntax

section \<open>Authorization\<close>

datatype Mode = ModeDisabled | ModeAllow | ModeEnforce

datatype AuthError = AnonymousCaller | NotOwner string string

record Authorizer =
  az_mode :: Mode

definition NewAuthorizer :: "Mode \<Rightarrow> Authorizer" where
  "NewAuthorizer mode = \<lparr>az_mode = mode\<rparr>"

definition Enforcing :: "Authorizer \<Rightarrow> bool" where
  "Enforcing a \<longleftrightarrow> az_mode a = ModeEnforce"

definition Authorize :: "Authorizer \<Rightarrow> Principal \<Rightarrow> string \<Rightarrow> AuthError option" where
  "Authorize a p nodeID =
     (if az_mode a \<noteq> ModeEnforce then None
      else if p_Anonymous p \<or> p_ID p = [] then Some AnonymousCaller
      else if p_ID p \<noteq> nodeID then Some (NotOwner (p_ID p) nodeID)
      else None)"

definition ParseMode :: "string \<Rightarrow> string + Mode" where
  "ParseMode s =
     (if s = [] \<or> s = ''disabled'' then Inr ModeDisabled
      else if s = ''allow'' then Inr ModeAllow
      else if s = ''enforce'' then Inr ModeEnforce
      else Inl s)"

datatype TokensError = TokensRead | TokensParse

definition LoadTokens :: "(string \<Rightarrow> smap option) \<Rightarrow> (string \<rightharpoonup> string) \<Rightarrow> string \<Rightarrow> TokensError + smap" where
  "LoadTokens yaml fs path =
     (if path = [] then Inr fmempty
      else case fs path of
        None \<Rightarrow> Inl TokensRead
      | Some data \<Rightarrow> (case yaml data of None \<Rightarrow> Inl TokensParse | Some tokens \<Rightarrow> Inr tokens))"

text \<open>Whether the mismatch between mode and policy is warned about.\<close>

definition WarnPolicyMismatch :: "Mode \<Rightarrow> string \<Rightarrow> bool" where
  "WarnPolicyMismatch mode defaultPolicy \<longleftrightarrow> mode = ModeAllow \<and> defaultPolicy = ''deny''"

section \<open>Identity\<close>

datatype AuthInfo = OtherAuth | TLSInfo "string list list"

record Context =
  cx_peer :: "AuthInfo option"
  cx_metadata :: "(string, string list) fmap option"

record Identity =
  id_tokens :: smap

definition NewIdentity :: "smap \<Rightarrow> Identity" where
  "NewIdentity tokens = \<lparr>id_tokens = tokens\<rparr>"

definition verifiedCommonName :: "Context \<Rightarrow> string" where
  "verifiedCommonName ctx =
     (case cx_peer ctx of
        None \<Rightarrow> []
      | Some OtherAuth \<Rightarrow> []
      | Some (TLSInfo cs) \<Rightarrow>
          (case cs of [] \<Rightarrow> [] | [] # _ \<Rightarrow> [] | (cn # _) # _ \<Rightarrow> cn))"

definition md_Get :: "(string, string list) fmap \<Rightarrow> string \<Rightarrow> string list" where
  "md_Get md k = (case fmlookup md k of None \<Rightarrow> [] | Some vs \<Rightarrow> vs)"

definition tokenFromMetadata :: "Context \<Rightarrow> string" where
  "tokenFromMetadata ctx =
     (case cx_metadata ctx of
        None \<Rightarrow> []
      | Some md \<Rightarrow>
          let v = md_Get md ''x-consul-token'' in
          if v \<noteq> [] \<and> hd v \<noteq> [] then hd v
          else let a = md_Get md ''authorization'' in
            if a \<noteq> [] then TrimSpace (TrimPrefix (hd a) ''Bearer '') else [])"

definition anonymous :: Principal where
  "anonymous = \<lparr>p_ID = [], p_Anonymous = True, p_Attributes = fmempty\<rparr>"

definition authenticated :: "string \<Rightarrow> string \<Rightarrow> Principal" where
  "authenticated i how = \<lparr>p_ID = i, p_Anonymous = False, p_Attributes = fmupd ''auth'' how fmempty\<rparr>"

definition Identity_PrincipalForToken :: "Identity \<Rightarrow> string \<Rightarrow> Principal" where
  "Identity_PrincipalForToken i token =
     (if token \<noteq> [] then
        (case fmlookup (id_tokens i) token of Some pid \<Rightarrow> authenticated pid ''token'' | None \<Rightarrow> anonymous)
      else anonymous)"

definition Identity_Principal :: "Identity \<Rightarrow> Context \<Rightarrow> Principal" where
  "Identity_Principal i ctx =
     (let cn = verifiedCommonName ctx in
      if cn \<noteq> [] then authenticated cn ''mtls''
      else let tok = tokenFromMetadata ctx in
        if tok \<noteq> [] then
          (case fmlookup (id_tokens i) tok of Some pid \<Rightarrow> authenticated pid ''token'' | None \<Rightarrow> anonymous)
        else anonymous)"

section \<open>Node ids\<close>

definition nodeIDFile :: string where
  "nodeIDFile = ''node-id''"

text \<open>\<^verbatim>\<open>fmt.Sprintf("%x")\<close> of bytes: two lower-case hexadecimal digits each.\<close>

definition hex_digit :: "nat \<Rightarrow> char" where
  "hex_digit n = ''0123456789abcdef'' ! (n mod 16)"

definition hex_bytes :: "8 word list \<Rightarrow> string" where
  "hex_bytes bs = concat (map (\<lambda>b. [hex_digit (unat b div 16), hex_digit (unat b)]) bs)"

text \<open>\<^verbatim>\<open>newUUID\<close> on the bytes \<^verbatim>\<open>rand.Read\<close> filled in, or its failure.\<close>

definition newUUID :: "8 word list option \<Rightarrow> string option" where
  "newUUID rnd =
     (case rnd of
        None \<Rightarrow> None
      | Some b \<Rightarrow>
          (let b = b[6 := (b ! 6 AND 0x0f) OR 0x40];
               b = b[8 := (b ! 8 AND 0x3f) OR 0x80]
           in Some (hex_bytes (take 4 b) @ ''-'' @ hex_bytes (take 2 (drop 4 b)) @ ''-'' @
                    hex_bytes (take 2 (drop 6 b)) @ ''-'' @ hex_bytes (take 2 (drop 8 b)) @ ''-'' @
                    hex_bytes (take 6 (drop 10 b)))))"

datatype NodeIDError = RandFailed | NodeIDMkdir | NodeIDWrite

definition node_id_path :: "string \<Rightarrow> string" where
  "node_id_path dataDir = dataDir @ ''/'' @ nodeIDFile"

definition NodeID :: "8 word list option \<Rightarrow> bool \<Rightarrow> bool \<Rightarrow> string \<Rightarrow> string \<Rightarrow> (string \<rightharpoonup> string)
    \<Rightarrow> (NodeIDError + string) \<times> (string \<rightharpoonup> string)" where
  "NodeID rnd mkdir_ok write_ok nodeName dataDir fs =
     (if nodeName \<noteq> [] then (Inr nodeName, fs)
      else if dataDir = [] then
        (case newUUID rnd of None \<Rightarrow> (Inl RandFailed, fs) | Some i \<Rightarrow> (Inr i, fs))
      else
        let stored = (case fs (node_id_path dataDir) of None \<Rightarrow> [] | Some data \<Rightarrow> TrimSpace data) in
        if stored \<noteq> [] then (Inr stored, fs)
        else case newUUID rnd of
          None \<Rightarrow> (Inl RandFailed, fs)
        | Some i \<Rightarrow>
            if \<not> mkdir_ok then (Inl NodeIDMkdir, fs)
            else if \<not> write_ok then (Inl NodeIDWrite, fs)
            else (Inr i, fs(node_id_path dataDir \<mapsto> i @ [CHR 0x0A])))"

section \<open>Properties\<close>

lemma Authorize_enforce:
  "az_mode a = ModeEnforce \<Longrightarrow> Authorize a p nodeID = None \<longleftrightarrow> \<not> p_Anonymous p \<and> p_ID p \<noteq> [] \<and> p_ID p = nodeID"
  by (auto simp: Authorize_def)

lemma Authorize_lax: "az_mode a \<noteq> ModeEnforce \<Longrightarrow> Authorize a p nodeID = None"
  by (simp add: Authorize_def)

lemma length_hex_bytes [simp]: "length (hex_bytes bs) = 2 * length bs"
  by (induction bs) (simp_all add: hex_bytes_def)

lemma hex_digit_chars: "hex_digit n \<in> set ''0123456789abcdef''"
proof -
  have "n mod 16 < length ''0123456789abcdef''" by simp
  then show ?thesis unfolding hex_digit_def by (rule nth_mem)
qed

lemma set_hex_bytes: "set (hex_bytes bs) \<subseteq> set ''0123456789abcdef''"
  using hex_digit_chars by (fastforce simp: hex_bytes_def)

lemma hex_bytes_append: "hex_bytes (xs @ ys) = hex_bytes xs @ hex_bytes ys"
  by (simp add: hex_bytes_def)

lemma is_space_not_hex: "c \<in> set ''0123456789abcdef-'' \<Longrightarrow> \<not> is_space c"
  by (auto simp: is_space_def)

text \<open>A string without spaces is not changed by trimming, nor by trimming the newline after it.\<close>

lemma TrimSpace_newline:
  assumes "s \<noteq> []" "\<forall>c\<in>set s. \<not> is_space c"
  shows "TrimSpace (s @ [CHR 0x0A]) = s"
proof -
  have "dropWhile is_space (s @ [CHR 0x0A]) = s @ [CHR 0x0A]"
    using assms by (cases s) auto
  moreover have "dropWhile is_space (rev s) = rev s"
    using assms by (cases "rev s") (auto simp: dropWhile_eq_self_iff)
  moreover have "is_space (CHR 0x0A)" by (simp add: is_space_def)
  ultimately show ?thesis by (simp add: TrimSpace_def)
qed

lemma newUUID_chars: "newUUID (Some b) = Some i \<Longrightarrow> set i \<subseteq> set ''0123456789abcdef-''"
  using set_hex_bytes by (fastforce simp: newUUID_def Let_def)

lemma length_newUUID: "length b = 16 \<Longrightarrow> newUUID (Some b) = Some i \<Longrightarrow> length i = 36"
  by (auto simp: newUUID_def Let_def)

text \<open>The bytes of an id decide its version and variant digits.\<close>

lemma unat_div_16: "unat (w :: 8 word) div 16 = unat (drop_bit 4 w)"
  by (simp add: drop_bit_eq_div unat_div)

lemma version_nibble: "unat ((x AND 0x0f) OR 0x40 :: 8 word) div 16 = 4"
  by (simp add: unat_div_16 drop_bit_and drop_bit_or)

lemma variant_nibble: "unat ((x AND 0x3f) OR 0x80 :: 8 word) div 16 \<in> {8, 9, 10, 11}"
proof -
  define y where "y = drop_bit 4 x AND (3 :: 8 word)"
  have "y \<le> 3" unfolding y_def by (rule word_and_le1)
  then have "unat y \<le> 3" by (simp add: word_le_nat_alt)
  then have "unat y = 0 \<or> unat y = 1 \<or> unat y = 2 \<or> unat y = 3" by linarith
  then have "y = 0 \<or> y = 1 \<or> y = 2 \<or> y = 3" by (auto simp: word_unat_eq_iff)
  moreover have "drop_bit 4 ((x AND 0x3f) OR 0x80) = y OR 8" by (simp add: y_def drop_bit_and drop_bit_or)
  ultimately show ?thesis unfolding unat_div_16 by auto
qed

text \<open>
  C21 (functional). The principal of a request is the common name of its verified certificate, else
  the owner of a recognised token, else anonymous; under \<^verbatim>\<open>enforce\<close> a write is permitted exactly to
  the non-anonymous principal whose id is the node's, and under the other modes to everyone.
\<close>

theorem authorization:
  "(az_mode a = ModeEnforce \<longrightarrow>
      (Authorize a (Identity_Principal i ctx) nodeID = None \<longleftrightarrow>
         nodeID \<noteq> [] \<and>
         (verifiedCommonName ctx = nodeID \<or>
          verifiedCommonName ctx = [] \<and> tokenFromMetadata ctx \<noteq> [] \<and>
            fmlookup (id_tokens i) (tokenFromMetadata ctx) = Some nodeID))) \<and>
   (az_mode a \<noteq> ModeEnforce \<longrightarrow> Authorize a p nodeID = None)"
  by (auto simp: Authorize_def Identity_Principal_def authenticated_def anonymous_def Let_def split: option.splits)

theorem authorization_witness:
  "Authorize (NewAuthorizer ModeEnforce)
      (Identity_Principal (NewIdentity (fmap_of_list [(''t0k'', ''n1'')]))
        \<lparr>cx_peer = None, cx_metadata = Some (fmap_of_list [(''authorization'', [''Bearer t0k''])])\<rparr>) ''n1'' = None \<and>
   Authorize (NewAuthorizer ModeEnforce)
      (Identity_Principal (NewIdentity (fmap_of_list [(''t0k'', ''n1'')]))
        \<lparr>cx_peer = None, cx_metadata = Some (fmap_of_list [(''authorization'', [''Bearer t0k''])])\<rparr>) ''n2'' \<noteq> None"
proof -
  let ?i = "NewIdentity (fmap_of_list [(''t0k'', ''n1'')])"
  let ?c = "\<lparr>cx_peer = None, cx_metadata = Some (fmap_of_list [(''authorization'', [''Bearer t0k''])])\<rparr>"
  have "verifiedCommonName ?c = []" "tokenFromMetadata ?c = ''t0k''" "az_mode (NewAuthorizer ModeEnforce) = ModeEnforce"
    by code_simp+
  then show ?thesis
    using authorization [of "NewAuthorizer ModeEnforce" ?i ?c "''n1''"]
      authorization [of "NewAuthorizer ModeEnforce" ?i ?c "''n2''"] by (simp add: NewIdentity_def)
qed

text \<open>
  A node keeps its id: a configured name always is the id; otherwise the id generated
  at the first start is the one every later start with the same data directory returns, whatever
  random bytes it is given. A generated id has the 36 characters of a UUID, with version digit 4 and
  a variant digit among 8, 9, a and b.
\<close>

theorem node_id_stable:
  "(nodeName \<noteq> [] \<longrightarrow> NodeID rnd mk wr nodeName dataDir fs = (Inr nodeName, fs)) \<and>
   (dataDir \<noteq> [] \<longrightarrow> NodeID (Some b) mk wr [] dataDir fs = (Inr i, fs') \<longrightarrow>
      NodeID rnd mk' wr' [] dataDir fs' = (Inr i, fs')) \<and>
   (length b = 16 \<longrightarrow> newUUID (Some b) = Some u \<longrightarrow>
      length u = 36 \<and> u ! 14 = CHR ''4'' \<and> u ! 19 \<in> {CHR ''8'', CHR ''9'', CHR ''a'', CHR ''b''})"
proof -
  have stored: "NodeID rnd mk' wr' [] dataDir fs' = (Inr i, fs')"
    if d: "dataDir \<noteq> []" and run: "NodeID (Some b) mk wr [] dataDir fs = (Inr i, fs')"
  proof (cases "(case fs (node_id_path dataDir) of None \<Rightarrow> [] | Some data \<Rightarrow> TrimSpace data) = []")
    case True
    with d run have i: "newUUID (Some b) = Some i" "fs' = fs(node_id_path dataDir \<mapsto> i @ [CHR 0x0A])"
      by (auto simp: NodeID_def newUUID_def Let_def split: if_splits)
    have "i \<noteq> []" using i(1) by (auto simp: newUUID_def Let_def)
    moreover have "\<forall>c\<in>set i. \<not> is_space c" using newUUID_chars [OF i(1)] is_space_not_hex by blast
    ultimately show ?thesis using TrimSpace_newline [of i] d by (simp add: NodeID_def i(2))
  next
    case False
    then show ?thesis using d run by (auto simp: NodeID_def Let_def)
  qed
  have digits: "length u = 36 \<and> u ! 14 = CHR ''4'' \<and> u ! 19 \<in> {CHR ''8'', CHR ''9'', CHR ''a'', CHR ''b''}"
    if b: "length b = 16" and u: "newUUID (Some b) = Some u"
  proof -
    let ?v = "(b ! 6 AND 0x0f) OR 0x40" and ?w = "(b ! 8 AND 0x3f) OR 0x80"
    obtain a0 a1 a2 a3 a4 a5 a6 a7 a8 a9 as where bs: "b = [a0,a1,a2,a3,a4,a5,a6,a7,a8,a9] @ as"
      using b by (cases b; auto simp: length_Suc_conv eval_nat_numeral)
    have "u ! 14 = hex_digit (unat ?v div 16)" "u ! 19 = hex_digit (unat ?w div 16)"
      using u by (auto simp: newUUID_def Let_def bs hex_bytes_def)
    then show ?thesis
      using length_newUUID [OF b u] version_nibble [of "b ! 6"] variant_nibble [of "b ! 8"]
      by (auto simp: hex_digit_def)
  qed
  show ?thesis using stored digits by (auto simp: NodeID_def)
qed

theorem node_id_stable_witness:
  "newUUID (Some (replicate 16 0)) = Some ''00000000-0000-4000-8000-000000000000'' \<and>
   (case NodeID (Some (replicate 16 0)) True True [] ''/data'' Map.empty of (_, fs') \<Rightarrow>
      NodeID None False False [] ''/data'' fs' = (Inr ''00000000-0000-4000-8000-000000000000'', fs'))"
proof -
  have u: "newUUID (Some (replicate 16 0)) = Some ''00000000-0000-4000-8000-000000000000''" by code_simp
  then have "NodeID (Some (replicate 16 0)) True True [] ''/data'' Map.empty =
      (Inr ''00000000-0000-4000-8000-000000000000'',
       [node_id_path ''/data'' \<mapsto> ''00000000-0000-4000-8000-000000000000'' @ [CHR 0x0A]])"
    by (simp add: NodeID_def)
  moreover from this node_id_stable [of "[]" "None" True True "''/data''" Map.empty "replicate 16 0"
      "''00000000-0000-4000-8000-000000000000''" _ False False "''00000000-0000-4000-8000-000000000000''"]
  have "NodeID None False False [] ''/data'' (snd (NodeID (Some (replicate 16 0)) True True [] ''/data'' Map.empty)) =
      (Inr ''00000000-0000-4000-8000-000000000000'', snd (NodeID (Some (replicate 16 0)) True True [] ''/data'' Map.empty))"
    by simp
  ultimately show ?thesis using u by simp
qed

end
