(* ===== verification/Server.thy ===== *)
theory Server
  imports Store_Merge Watch Protoconv Cred
begin

text \<open>
  \<^verbatim>\<open>internal/server\<close>: \<^verbatim>\<open>service.go\<close>, the gRPC surface of a seed over its registry, and \<^verbatim>\<open>authz.go\<close>, the
  interceptor that checks write ownership; with the wiring of the seed in \<^verbatim>\<open>cmd/yp/root.go\<close>, whose
  registry notifies the watcher of every batch of changes.

  A request and a response are sums of the messages of the service; a handler returns a status code
  or a response together with the events it published and the new registry. The remaining arguments
  are the clock and the order in which \<^verbatim>\<open>Deregister\<close> visits the services.
\<close>

section \<open>Messages and status codes\<close>

datatype Code = InvalidArgument | NotFound | ResourceExhausted | PermissionDenied | Unimplemented

datatype Request =
    RegisterRequest "pb_Registration option"
  | RenewRequest string "string list"
  | DeregisterRequest string
  | DeregisterServiceRequest string string
  | LookupRequest "pb_Query option"

datatype Response =
    RegisterResponse | RenewResponse | DeregisterResponse | DeregisterServiceResponse
  | LookupResponse pb_LookupResponse

type_synonym reply = "(Code + Response) \<times> ChangeEvent list \<times> Memory"

definition mapError :: "StoreError \<Rightarrow> Code" where
  "mapError err =
     (case err of ErrInvalid \<Rightarrow> InvalidArgument | ErrNotFound \<Rightarrow> NotFound | ErrCapacity \<Rightarrow> ResourceExhausted)"

definition reply_of :: "Response \<Rightarrow> outcome \<Rightarrow> reply" where
  "reply_of resp r =
     (case r of (Some err, events, m) \<Rightarrow> (Inl (mapError err), events, m)
              | (None, events, m) \<Rightarrow> (Inr resp, events, m))"

section \<open>The handlers\<close>

definition Service_Register :: "time \<Rightarrow> clock \<Rightarrow> pb_Registration option \<Rightarrow> Memory \<Rightarrow> reply" where
  "Service_Register now evclk reg m =
     reply_of RegisterResponse (Memory_Register now evclk (RegistrationFromProto reg) m)"

definition Service_Renew :: "time \<Rightarrow> string \<Rightarrow> string list \<Rightarrow> Memory \<Rightarrow> reply" where
  "Service_Renew now nodeID serviceIDs m =
     (if nodeID = [] then (Inl InvalidArgument, [], m)
      else case Memory_Renew now nodeID serviceIDs m of (err, m') \<Rightarrow> reply_of RenewResponse (err, [], m'))"

definition Service_Deregister :: "string list \<Rightarrow> string \<Rightarrow> Memory \<Rightarrow> reply" where
  "Service_Deregister order nodeID m =
     (if nodeID = [] then (Inl InvalidArgument, [], m)
      else reply_of DeregisterResponse (Memory_Deregister order nodeID m))"

definition Service_DeregisterService :: "string \<Rightarrow> string \<Rightarrow> Memory \<Rightarrow> reply" where
  "Service_DeregisterService nodeID serviceID m =
     (if nodeID = [] \<or> serviceID = [] then (Inl InvalidArgument, [], m)
      else reply_of DeregisterServiceResponse (Memory_DeregisterService nodeID serviceID m))"

definition Service_Lookup :: "time \<Rightarrow> pb_Query option \<Rightarrow> Memory \<Rightarrow> reply" where
  "Service_Lookup now qo m =
     (let q = QueryFromProto qo;
          res = Memory_Lookup now q m;
          res = (if q_OnlyHealthy q then res\<lparr>lr_Entries := Filter (lr_Entries res) passing_only\<rparr> else res)
      in (Inr (LookupResponse (LookupResultToProto res)), [], m))"

fun Service_handle :: "time \<Rightarrow> clock \<Rightarrow> string list \<Rightarrow> Request \<Rightarrow> Memory \<Rightarrow> reply" where
  "Service_handle now evclk order (RegisterRequest reg) m = Service_Register now evclk reg m"
| "Service_handle now evclk order (RenewRequest nodeID ids) m = Service_Renew now nodeID ids m"
| "Service_handle now evclk order (DeregisterRequest nodeID) m = Service_Deregister order nodeID m"
| "Service_handle now evclk order (DeregisterServiceRequest nodeID sid) m = Service_DeregisterService nodeID sid m"
| "Service_handle now evclk order (LookupRequest q) m = Service_Lookup now q m"

section \<open>Authorization of writes\<close>

fun writeTarget :: "Request \<Rightarrow> string \<times> bool" where
  "writeTarget (RegisterRequest reg) =
     (case reg of
        None \<Rightarrow> ([], True)
      | Some r \<Rightarrow> (case pr_Node r of None \<Rightarrow> ([], True) | Some n \<Rightarrow> (pn_Id n, True)))"
| "writeTarget (RenewRequest nodeID ids) = (nodeID, True)"
| "writeTarget (DeregisterRequest nodeID) = (nodeID, True)"
| "writeTarget (DeregisterServiceRequest nodeID sid) = (nodeID, True)"
| "writeTarget (LookupRequest q) = ([], False)"

definition UnaryAuthzInterceptor :: "Identity \<Rightarrow> Authorizer \<Rightarrow> Context \<Rightarrow> Request
    \<Rightarrow> (Memory \<Rightarrow> reply) \<Rightarrow> Memory \<Rightarrow> reply" where
  "UnaryAuthzInterceptor i authz ctx req handler m =
     (case writeTarget req of (nodeID, isWrite) \<Rightarrow>
        if isWrite \<and> Enforcing authz \<and> Authorize authz (Identity_Principal i ctx) nodeID \<noteq> None
        then (Inl PermissionDenied, [], m)
        else handler m)"

definition principalName :: "Principal \<Rightarrow> string" where
  "principalName p = (if p_Anonymous p \<or> p_ID p = [] then ''anonymous'' else p_ID p)"

text \<open>The audit record of a write: target, principal and the code of the result.\<close>

definition UnaryAuditInterceptor :: "Identity \<Rightarrow> Context \<Rightarrow> Request \<Rightarrow> reply
    \<Rightarrow> (string \<times> string \<times> Code option) option" where
  "UnaryAuditInterceptor i ctx req result =
     (case writeTarget req of (nodeID, isWrite) \<Rightarrow>
        if isWrite
        then Some (nodeID, principalName (Identity_Principal i ctx),
                   (case fst result of Inl c \<Rightarrow> Some c | Inr _ \<Rightarrow> None))
        else None)"

text \<open>A call as the server serves it: the interceptor around the handler.\<close>

definition serve :: "Identity \<Rightarrow> Authorizer \<Rightarrow> Context \<Rightarrow> time \<Rightarrow> clock \<Rightarrow> string list \<Rightarrow> Request \<Rightarrow> Memory \<Rightarrow> reply" where
  "serve i authz ctx now evclk order req =
     UnaryAuthzInterceptor i authz ctx req (Service_handle now evclk order req)"

section \<open>Watch\<close>

record pb_WatchResponse =
  px_Event :: "pb_ChangeEvent option"
  px_Index :: uint64
  px_SnapshotDone :: bool

text \<open>The guard of \<^verbatim>\<open>Watch\<close>, the snapshot it sends and the message of a live event.\<close>

definition Watch_guard :: "Watcher option \<Rightarrow> pb_Query option \<Rightarrow> Code option" where
  "Watch_guard w q =
     (if w = None then Some Unimplemented
      else if q_Name (QueryFromProto q) = [] then Some InvalidArgument
      else None)"

definition snapshot_events :: "time \<Rightarrow> Query \<Rightarrow> Memory \<Rightarrow> ChangeEvent list" where
  "snapshot_events now q m =
     map (\<lambda>e. \<lparr>c_Type = ChangePut, c_Entry = e, c_Index = 0\<rparr>) (lr_Entries (Memory_Lookup now q m))"

definition Watch_snapshot :: "time \<Rightarrow> Query \<Rightarrow> Memory \<Rightarrow> Watcher \<Rightarrow> pb_WatchResponse list" where
  "Watch_snapshot now q m w =
     map (\<lambda>ev. \<lparr>px_Event = Some (ChangeEventToProto ev),
                px_Index = Watcher_CurrentIndex w q, px_SnapshotDone = False\<rparr>)
       (snapshot_events now q m) @
     [\<lparr>px_Event = None, px_Index = Watcher_CurrentIndex w q, px_SnapshotDone = True\<rparr>]"

definition Watch_live :: "ChangeEvent \<Rightarrow> pb_WatchResponse" where
  "Watch_live ev = \<lparr>px_Event = Some (ChangeEventToProto ev), px_Index = c_Index ev, px_SnapshotDone = False\<rparr>"

section \<open>The seed\<close>

record Seed =
  sd_store :: Memory
  sd_watcher :: Watcher

definition new_seed :: "duration \<Rightarrow> int \<Rightarrow> Seed" where
  "new_seed ttl maxServices =
     \<lparr>sd_store = NewMemory \<lparr>o_DefaultTTL = ttl, o_MinTTL = 0, o_MaxTTL = 0, o_GracePeriod = 0,
        o_StartIndex = 0, o_MaxServices = maxServices, o_OnChange = True\<rparr>,
      sd_watcher = Watcher_New 0\<rparr>"

text \<open>One registry operation followed by the notification of its batch.\<close>

inductive seed_step :: "Seed \<Rightarrow> ChangeEvent list \<Rightarrow> Seed \<Rightarrow> bool" where
  "mem_step (sd_store s) es m' \<Longrightarrow>
   seed_step s es \<lparr>sd_store = m', sd_watcher = Watcher_Notify es (sd_watcher s)\<rparr>"

section \<open>Writes are confined to their node\<close>

text \<open>What the registry holds of a node.\<close>

definition node_view :: "Memory \<Rightarrow> string \<Rightarrow> Node option \<times> (string \<Rightarrow> service option)" where
  "node_view m nid = (meta_at m nid, svc_at m nid)"

lemma node_view_create_svc:
  "create_svc evclk meta def m = (ev, m') \<Longrightarrow> nid \<noteq> n_ID meta \<Longrightarrow> node_view m' nid = node_view m nid"
  by (auto simp: create_svc_def next_index_def Let_def node_view_def store_simps fun_eq_iff)

lemma node_view_frame [simp]:
  "nid \<noteq> nid' \<Longrightarrow> node_view (put_svc nid' sid svc m) nid = node_view m nid"
  "nid \<noteq> nid' \<Longrightarrow> node_view (delete_svc nid' sid m) nid = node_view m nid"
  "nid \<noteq> n_ID meta \<Longrightarrow> node_view (touch_node meta m) nid = node_view m nid"
  "node_view (m\<lparr>m_index := i\<rparr>) = node_view m"
  "node_view (reindex_name nid' name def m) = node_view m"
  "node_view (unindexName nid' name sid m) = node_view m"
  "nid \<noteq> nid' \<Longrightarrow> node_view (drop_empty_node nid' m) nid = node_view m nid"
  by (auto simp: node_view_def store_simps meta_at_drop_empty_node fun_eq_iff)

lemma register_loop_frame:
  "register_loop now evclk meta gen svcs sz events m = (err, out, m') \<Longrightarrow> nid \<noteq> n_ID meta \<Longrightarrow>
   node_view m' nid = node_view m nid"
proof (induction svcs arbitrary: sz events m)
  case (Cons s rest)
  define d where "d = normalise_def (m_opts m) now gen s"
  note run = Cons.prems(1) [unfolded register_loop.simps Let_def, folded d_def]
  note IH = Cons.IH [OF _ Cons.prems(2)]
  show ?case
  proof (cases "svc_at m (n_ID meta) (s_ID d)")
    case None
    obtain ev m1 where c: "create_svc evclk meta d m = (ev, m1)" by fastforce
    show ?thesis
      using run None c IH [of "Suc sz" "events @ [ev]" m1] node_view_create_svc [OF c Cons.prems(2)]
      by (simp split: if_splits)
  next
    case (Some svc)
    show ?thesis
    proof (cases "changed (sv_def svc) d")
      case True
      let ?svc = "svc\<lparr>sv_def := d, sv_lastState := HealthPassing, sv_modifyIndex := m_index m + 1\<rparr>"
      show ?thesis
        using run Some True Cons.prems(2) IH [of sz "events @ [putEvent (m_opts m) evclk meta ?svc]"
            "reindex_name (n_ID meta) (s_Name (sv_def svc)) d
              (put_svc (n_ID meta) (s_ID d) ?svc (m\<lparr>m_index := m_index m + 1\<rparr>))"]
        by (simp add: next_index_def)
    next
      case False
      show ?thesis
        using run Some False Cons.prems(2) IH [of sz events
            "put_svc (n_ID meta) (s_ID d) (svc\<lparr>sv_def := (sv_def svc)\<lparr>s_LastSeen := now\<rparr>\<rparr>) m"]
        by simp
    qed
  qed
qed simp

lemma Memory_Register_frame:
  "nid \<noteq> n_ID (r_Node reg) \<Longrightarrow> node_view (snd (snd (Memory_Register now evclk reg m))) nid = node_view m nid"
  by (cases "Memory_Register now evclk reg m")
     (auto simp: Memory_Register_def dest!: register_loop_frame split: if_splits)

lemma renew_loop_frame: "nid \<noteq> nid' \<Longrightarrow> node_view (snd (renew_loop now nid' ids m)) nid = node_view m nid"
  by (induction ids arbitrary: m) (auto split: option.splits)

lemma Memory_Renew_frame: "nid \<noteq> nid' \<Longrightarrow> node_view (snd (Memory_Renew now nid' ids m)) nid = node_view m nid"
  by (auto simp: Memory_Renew_def renew_loop_frame split: option.splits)
     (auto simp: node_view_def meta_at_def svc_at_def fun_eq_iff)

lemma deregister_loop_nodes: "m_nodes (snd (deregister_loop nid n ids events m)) = m_nodes m"
proof (induction ids arbitrary: events m)
  case (Cons sid ids)
  have "m_nodes (unindexName nid name sid (m\<lparr>m_index := i\<rparr>)) = m_nodes m" for name i
    by (simp add: unindexName_def Let_def split: option.splits)
  then show ?case using Cons by (simp add: next_index_def Let_def split: option.splits)
qed simp

lemma Memory_Deregister_frame:
  "nid \<noteq> nid' \<Longrightarrow> node_view (snd (snd (Memory_Deregister order nid' m))) nid = node_view m nid"
proof (cases "fmlookup (m_nodes m) nid'")
  case (Some n)
  assume "nid \<noteq> nid'"
  then show ?thesis
    using deregister_loop_nodes [of nid' n order "[]" m]
    by (simp add: Some Memory_Deregister_def node_view_def meta_at_def svc_at_def split_def fun_eq_iff)
qed (simp add: Memory_Deregister_def)

lemma Memory_DeregisterService_frame:
  "nid \<noteq> nid' \<Longrightarrow> node_view (snd (snd (Memory_DeregisterService nid' sid m))) nid = node_view m nid"
  by (auto simp: Memory_DeregisterService_def next_index_def Let_def split: option.splits)

lemma reply_of_state [simp]: "snd (snd (reply_of resp r)) = snd (snd r)"
  by (auto simp: reply_of_def split: prod.splits option.splits)

lemma Service_handle_frame:
  assumes "nid \<noteq> fst (writeTarget req) \<or> \<not> snd (writeTarget req)"
  shows "node_view (snd (snd (Service_handle now evclk order req m))) nid = node_view m nid"
proof (cases req)
  case (RegisterRequest reg)
  have "n_ID (r_Node (RegistrationFromProto reg)) = fst (writeTarget req)"
    by (auto simp: RegisterRequest RegistrationFromProto_def NodeFromProto_def Node_zero_def split: option.splits)
  then show ?thesis
    using assms by (auto simp: RegisterRequest Service_Register_def intro!: Memory_Register_frame split: option.splits)
next
  case (RenewRequest nodeID ids)
  then show ?thesis
    using assms Memory_Renew_frame [of nid nodeID now ids m]
    by (auto simp: Service_Renew_def split: prod.splits)
next
  case (DeregisterRequest nodeID)
  then show ?thesis using assms by (simp add: Service_Deregister_def Memory_Deregister_frame)
next
  case (DeregisterServiceRequest nodeID sid)
  then show ?thesis using assms by (simp add: Service_DeregisterService_def Memory_DeregisterService_frame)
next
  case (LookupRequest q)
  then show ?thesis by (simp add: Service_Lookup_def Let_def)
qed

text \<open>
  The contract of a surface whose callers write only what they own: a call changes the view of no
  key but its owner's. It carries over to any sequence of calls.
\<close>

locale owned_writes =
  fixes call :: "'r \<Rightarrow> 's \<Rightarrow> 's" and owner :: "'r \<Rightarrow> 'k" and view :: "'s \<Rightarrow> 'k \<Rightarrow> 'v"
  assumes confined: "k \<noteq> owner r \<Longrightarrow> view (call r s) k = view s k"
begin

lemma run_confined: "\<forall>r\<in>set rs. owner r \<noteq> k \<Longrightarrow> view (fold call rs s) k = view s k"
  by (induction rs arbitrary: s) (auto simp: confined)

end

record Call =
  cl_ctx :: Context
  cl_now :: time
  cl_evclk :: clock
  cl_order :: "string list"
  cl_req :: Request

definition serve_call :: "Identity \<Rightarrow> Authorizer \<Rightarrow> Call \<Rightarrow> Memory \<Rightarrow> Memory" where
  "serve_call i authz c m = snd (snd (serve i authz (cl_ctx c) (cl_now c) (cl_evclk c) (cl_order c) (cl_req c) m))"

definition caller :: "Identity \<Rightarrow> Call \<Rightarrow> string" where
  "caller i c = p_ID (Identity_Principal i (cl_ctx c))"

interpretation enforced: owned_writes "serve_call i (NewAuthorizer ModeEnforce)" "caller i" node_view for i
proof
  fix k c m assume k: "k \<noteq> caller i c"
  have "fst (writeTarget (cl_req c)) = caller i c"
    if "Authorize (NewAuthorizer ModeEnforce) (Identity_Principal i (cl_ctx c)) (fst (writeTarget (cl_req c))) = None"
    using that by (auto simp: Authorize_def NewAuthorizer_def caller_def split: if_splits)
  then show "node_view (serve_call i (NewAuthorizer ModeEnforce) c m) k = node_view m k"
    using k by (auto simp: serve_call_def serve_def UnaryAuthzInterceptor_def Enforcing_def NewAuthorizer_def
        intro!: Service_handle_frame split: prod.splits)
qed

text \<open>
  C13 (safety). Under \<^verbatim>\<open>enforce\<close>, whatever requests are sent, in whatever order and number, the
  registry's record of a node is changed by no caller but the one who authenticates as that node;
  and a write by anyone else is answered with \<^verbatim>\<open>PermissionDenied\<close>, publishes nothing and leaves the
  whole registry as it is.
\<close>

theorem enforce_isolates:
  "((\<forall>c\<in>set cs. caller i c \<noteq> nid) \<longrightarrow>
      node_view (fold (serve_call i (NewAuthorizer ModeEnforce)) cs m) nid = node_view m nid) \<and>
   (snd (writeTarget req) \<and> fst (writeTarget req) \<noteq> p_ID (Identity_Principal i ctx) \<longrightarrow>
      serve i (NewAuthorizer ModeEnforce) ctx now evclk order req m = (Inl PermissionDenied, [], m))"
  using enforced.run_confined [of cs i nid m]
  by (auto simp: serve_def UnaryAuthzInterceptor_def Enforcing_def NewAuthorizer_def Authorize_def split: prod.splits)

definition ex_ctx :: Context where
  "ex_ctx = \<lparr>cx_peer = Some (TLSInfo [[''n9'']]), cx_metadata = None\<rparr>"

theorem enforce_isolates_witness:
  "(let c = \<lparr>cl_ctx = ex_ctx, cl_now = 300, cl_evclk = (\<lambda>_. 300), cl_order = [''s1'', ''s2''],
              cl_req = DeregisterRequest ''n1''\<rparr> in
      caller (NewIdentity fmempty) c = ''n9'' \<and>
      node_view (fold (serve_call (NewIdentity fmempty) (NewAuthorizer ModeEnforce)) [c] ex_mem) ''n1'' = node_view ex_mem ''n1'' \<and>
      fst (serve (NewIdentity fmempty) (NewAuthorizer ModeEnforce) ex_ctx 300 (\<lambda>_. 300) [] (DeregisterRequest ''n1'') ex_mem)
        = Inl PermissionDenied)"
proof -
  let ?i = "NewIdentity fmempty"
  let ?c = "\<lparr>cl_ctx = ex_ctx, cl_now = 300, cl_evclk = (\<lambda>_. 300), cl_order = [''s1'', ''s2''],
              cl_req = DeregisterRequest ''n1''\<rparr>"
  have p: "p_ID (Identity_Principal ?i ex_ctx) = ''n9''" by code_simp
  then have c: "caller ?i ?c = ''n9''" by (simp add: caller_def)
  show ?thesis
    using enforce_isolates [of "[?c]" ?i "''n1''" ex_mem "DeregisterRequest ''n1''" ex_ctx 300 "\<lambda>_. 300" "[]"] c p
    by (simp add: Let_def)
qed

section \<open>Answers and errors\<close>



text \<open>
  A client that asks a seed and decodes the answer gets the seed's index and,
  entry by entry in the registry's order, what the registry answers: all of it, or with healthy-only
  the passing and warning entries that are not in maintenance, up to what the wire leaves out; and a read changes
  nothing.
\<close>

theorem remote_lookup:
  "list_all wire_safe (lr_Entries (Memory_Lookup now q m)) \<Longrightarrow>
   \<exists>resp. Service_handle now evclk order (LookupRequest (Some (QueryToProto q))) m = (Inr (LookupResponse resp), [], m) \<and>
     lr_Index (LookupResultFromProto (Some resp)) = Memory_Index m \<and>
     lr_Entries (LookupResultFromProto (Some resp)) =
       map wire_entry
         (if q_OnlyHealthy q
          then filter (\<lambda>e. e_Health e \<in> {HealthPassing, HealthWarning} \<and> \<not> e_Maintenance e) (lr_Entries (Memory_Lookup now q m))
          else lr_Entries (Memory_Lookup now q m))"
proof -
  assume safe: "list_all wire_safe (lr_Entries (Memory_Lookup now q m))"
  define es where "es = (if q_OnlyHealthy q then Filter (lr_Entries (Memory_Lookup now q m)) passing_only
      else lr_Entries (Memory_Lookup now q m))"
  have q: "QueryFromProto (Some (QueryToProto q)) = q" by (simp add: QueryFromProto_def QueryToProto_def)
  have "set es \<subseteq> set (lr_Entries (Memory_Lookup now q m))" by (auto simp: es_def Filter_def)
  then have "map (\<lambda>e. EntryFromProto (Some (EntryToProto e))) es = map wire_entry es"
    using safe by (auto simp: list_all_iff Entry_roundtrip)
  moreover have "es = (if q_OnlyHealthy q
      then filter (\<lambda>e. e_Health e \<in> {HealthPassing, HealthWarning} \<and> \<not> e_Maintenance e) (lr_Entries (Memory_Lookup now q m))
      else lr_Entries (Memory_Lookup now q m))"
    by (simp add: es_def Filter_def Visible_def) (rule impI, rule filter_cong; auto split: HealthState.splits)
  ultimately show ?thesis
    by (auto simp: Service_Lookup_def q LookupResultFromProto_def LookupResultToProto_def comp_def
        Memory_Index_def Memory_Lookup_def es_def Let_def)
qed

theorem remote_lookup_witness:
  "list_all wire_safe (lr_Entries (Memory_Lookup 200 (ex_query\<lparr>q_OnlyHealthy := True\<rparr>) ex_mem)) \<and>
   (\<exists>resp. fst (Service_handle 200 (\<lambda>_. 0) [] (LookupRequest (Some (QueryToProto (ex_query\<lparr>q_OnlyHealthy := True\<rparr>)))) ex_mem)
       = Inr (LookupResponse resp) \<and> lr_Index (LookupResultFromProto (Some resp)) = 9)"
proof -
  have s: "list_all wire_safe (lr_Entries (Memory_Lookup 200 (ex_query\<lparr>q_OnlyHealthy := True\<rparr>) ex_mem))" by code_simp
  have "Memory_Index ex_mem = 9" by code_simp
  then show ?thesis using s remote_lookup [OF s, of "\<lambda>_. 0" "[]"] by force
qed

section \<open>A watch misses nothing between its snapshot and its events\<close>

lemma replay_puts:
  assumes "distinct (map entry_id es)" "e \<in> set es"
  shows "replay (map (\<lambda>e. \<lparr>c_Type = ChangePut, c_Entry = e, c_Index = 0\<rparr>) es) Map.empty (entry_id e) =
    Some ((e_Service e)\<lparr>s_LastSeen := 0\<rparr>, e_Maintenance e, e_CreateIndex e, e_ModifyIndex e)"
  using assms
proof (induction es rule: rev_induct)
  case (snoc f es)
  have r: "replay (xs @ [ev]) c k = apply_event ev (replay xs c) k" for xs ev c k by (simp add: replay_def)
  show ?case
  proof (cases "e = f")
    case False
    then have "e \<in> set es" "entry_id e \<noteq> entry_id f" using snoc.prems by (auto simp: image_iff)
    then show ?thesis using snoc by (auto simp: r apply_event_def)
  qed (simp add: r apply_event_def)
qed simp

lemma replay_snapshot:
  assumes "registry_ok m" "meta_at m nid = Some meta" "svc_at m nid sid = Some svc" "asked q meta svc" "live m now svc"
  shows "replay (snapshot_events now q m) Map.empty (nid, sid) = catalogue_of m (nid, sid)"
proof -
  have ok: "ids_ok m" "names_ok m" using assms(1) by (simp_all add: registry_ok_def)
  have in_set: "answer m now meta svc \<in> set (lr_Entries (Memory_Lookup now q m))"
    unfolding set_Lookup [OF ok(2)] using assms(2-5) by blast
  have key: "entry_id (answer m now meta svc) = (nid, sid)"
    using ids_okD(1) [OF ok(1) assms(2)] ids_okD(2) [OF ok(1) assms(3)] by (simp add: answer_def entry_def)
  have "distinct (map entry_id (lr_Entries (Memory_Lookup now q m)))"
    using sorted_Lookup [OF ok(1)] by (simp add: strict_sorted_iff)
  from replay_puts [OF this in_set] key show ?thesis
    unfolding snapshot_events_def catalogue_of_def using assms(3)
    by (simp add: answer_def entry_def record_of_def)
qed

lemma replay_snapshot_None:
  assumes "registry_ok m" "svc_at m nid sid = None"
  shows "replay (snapshot_events now q m) Map.empty (nid, sid) = None"
proof -
  have ok: "ids_ok m" "names_ok m" using assms(1) by (simp_all add: registry_ok_def)
  have "entry_id e \<noteq> (nid, sid)" if e_in: "e \<in> set (lr_Entries (Memory_Lookup now q m))" for e
  proof -
    obtain n s meta svc where e: "e = answer m now meta svc" "meta_at m n = Some meta" "svc_at m n s = Some svc"
      using e_in unfolding set_Lookup [OF ok(2)] by blast
    then have "entry_id e = (n, s)"
      using ids_okD(1) [OF ok(1) e(2)] ids_okD(2) [OF ok(1) e(3)] by (simp add: answer_def entry_def)
    then show ?thesis using e(3) assms(2) by auto
  qed
  then have "\<not> touches (snapshot_events now q m) (nid, sid)" by (auto simp: touches_def snapshot_events_def)
  then show ?thesis using replay_at [of "snapshot_events now q m" Map.empty "(nid, sid)"] by simp
qed


text \<open>The sample registry with one of its services put into maintenance after the snapshot.\<close>

definition ex_maint :: outcome where
  "ex_maint = Memory_SetMaintenance (\<lambda>_. 300) ''n1'' ''s1'' True ex_mem"


text \<open>
  A service registered again under another name leaves its old name without a sign: the one event
  carries the new name, so a watch on the old name receives no delete and its index does not move,
  although a lookup of the old name no longer finds the service.
\<close>

definition ex_renamed :: outcome where
  "ex_renamed = Memory_Register 120 (\<lambda>_. 120)
     (ex_reg\<lparr>r_Services := [ex_svc ''s1'' ''api'' 0 0]\<rparr>) ex_mem"

theorem rename_unnoticed:
  "map entry_id (lr_Entries (Memory_Lookup 200 ex_query ex_mem)) = [(''n1'', ''s1'')] \<and>
   lr_Entries (Memory_Lookup 200 ex_query (snd (snd ex_renamed))) = [] \<and>
   filter (\<lambda>ev. matches ex_query (c_Entry ev)) (fst (snd ex_renamed)) = [] \<and>
   Watcher_CurrentIndex (Watcher_Notify ex_events (Watcher_New 0)) ex_query =
     Watcher_CurrentIndex (Watcher_Notify (fst (snd ex_renamed)) (Watcher_Notify ex_events (Watcher_New 0))) ex_query"
  by code_simp

text \<open>
  An operation notifies after it has released the registry's lock, so two batches may be delivered in
  the order opposite to the one they were made in: a registration and a deregistration whose
  notifications are swapped leave a consumer with a service the registry does not have.
\<close>

theorem late_notification_stale:
  "(case Memory_Deregister [''s1'', ''s2''] ''n1'' ex_mem of (_, deleted, m) \<Rightarrow>
      catalogue_of m (''n1'', ''s1'') = None \<and>
      replay (ex_events @ deleted) Map.empty (''n1'', ''s1'') = None \<and>
      replay (deleted @ ex_events) Map.empty (''n1'', ''s1'') \<noteq> None)"
  by code_simp

end
