(* ===== verification/SeedClient.thy ===== *)
theory SeedClient
  imports Server
begin

text \<open>
  \<^verbatim>\<open>internal/seedclient/client.go\<close>: the agent's fan-out over its seeds. The seeds are a function from
  addresses to registries; what a call meets on the way to a seed is its \<open>SeedEnv\<close>: the link (up, down,
  or the request applied and the reply lost, as a deadline that fires too early does) and the handler
  the seed runs. The calls to the seeds are concurrent and each touches its own seed, so a fan-out is
  a pass over the seeds in the order in which they complete, which is an argument where the result
  could depend on it.
\<close>

section \<open>Calling one seed\<close>

datatype link = Up | Down | ReplyLost

datatype rpc_error = Unreachable | Status Code

record SeedEnv =
  se_link :: link
  se_handle :: "Request \<Rightarrow> Memory \<Rightarrow> reply"

type_synonym world = "string \<Rightarrow> SeedEnv"
type_synonym cluster = "string \<Rightarrow> Memory"

definition call_seed :: "SeedEnv \<Rightarrow> Request \<Rightarrow> Memory \<Rightarrow> (rpc_error + Response) \<times> Memory" where
  "call_seed env req m =
     (case se_link env of
        Down \<Rightarrow> (Inl Unreachable, m)
      | ReplyLost \<Rightarrow> (Inl Unreachable, snd (snd (se_handle env req m)))
      | Up \<Rightarrow> (case se_handle env req m of (Inl c, _, m') \<Rightarrow> (Inl (Status c), m')
                                        | (Inr r, _, m') \<Rightarrow> (Inr r, m')))"

section \<open>The client\<close>

definition defaultSeedTimeout :: duration where
  "defaultSeedTimeout = 3 * second"

record SeedClient =
  sc_conns :: "string list"
  sc_seedTimeout :: duration

datatype NewError = NoSeeds | DialFailed string

fun dial_loop :: "(string \<Rightarrow> bool) \<Rightarrow> string list \<Rightarrow> string list \<Rightarrow> NewError + string list" where
  "dial_loop dial conns [] = Inr conns"
| "dial_loop dial conns (addr # seeds) =
     (if dial addr then dial_loop dial (conns @ [addr]) seeds else Inl (DialFailed addr))"

definition SeedClient_New :: "(string \<Rightarrow> bool) \<Rightarrow> string list \<Rightarrow> duration \<Rightarrow> NewError + SeedClient" where
  "SeedClient_New dial seeds seedTimeout =
     (if seeds = [] then Inl NoSeeds
      else let seedTimeout = (if seedTimeout \<le> 0 then defaultSeedTimeout else seedTimeout) in
        case dial_loop dial [] seeds of
          Inl e \<Rightarrow> Inl e
        | Inr conns \<Rightarrow> Inr \<lparr>sc_conns = conns, sc_seedTimeout = seedTimeout\<rparr>)"

definition SeedClient_Seeds :: "SeedClient \<Rightarrow> string list" where
  "SeedClient_Seeds c = sc_conns c"

section \<open>Writes\<close>

record WriteResult =
  wr_Total :: nat
  wr_Succeeded :: nat
  wr_Errors :: "(string, rpc_error) fmap"

definition WriteResult_zero :: WriteResult where
  "WriteResult_zero = \<lparr>wr_Total = 0, wr_Succeeded = 0, wr_Errors = fmempty\<rparr>"

definition WriteResult_OK :: "WriteResult \<Rightarrow> int \<Rightarrow> bool" where
  "WriteResult_OK w quorum \<longleftrightarrow> int (wr_Succeeded w) \<ge> quorum"

fun fanOut_loop :: "world \<Rightarrow> Request \<Rightarrow> string list \<Rightarrow> WriteResult \<Rightarrow> cluster \<Rightarrow> WriteResult \<times> cluster" where
  "fanOut_loop w req [] res cl = (res, cl)"
| "fanOut_loop w req (addr # addrs) res cl =
     (case call_seed (w addr) req (cl addr) of
        (Inl err, m') \<Rightarrow> fanOut_loop w req addrs (res\<lparr>wr_Errors := fmupd addr err (wr_Errors res)\<rparr>) (cl(addr := m'))
      | (Inr _, m') \<Rightarrow> fanOut_loop w req addrs (res\<lparr>wr_Succeeded := Suc (wr_Succeeded res)\<rparr>) (cl(addr := m')))"

definition fanOut :: "world \<Rightarrow> Request \<Rightarrow> SeedClient \<Rightarrow> cluster \<Rightarrow> WriteResult \<times> cluster" where
  "fanOut w req c cl =
     fanOut_loop w req (sc_conns c)
       \<lparr>wr_Total = length (sc_conns c), wr_Succeeded = 0, wr_Errors = fmempty\<rparr> cl"

definition SeedClient_Register :: "world \<Rightarrow> Registration \<Rightarrow> SeedClient \<Rightarrow> cluster \<Rightarrow> WriteResult \<times> cluster" where
  "SeedClient_Register w reg = fanOut w (RegisterRequest (Some (RegistrationToProto reg)))"

definition SeedClient_Renew :: "world \<Rightarrow> string \<Rightarrow> string list \<Rightarrow> SeedClient \<Rightarrow> cluster \<Rightarrow> WriteResult \<times> cluster" where
  "SeedClient_Renew w nodeID serviceIDs = fanOut w (RenewRequest nodeID serviceIDs)"

definition SeedClient_Deregister :: "world \<Rightarrow> string \<Rightarrow> SeedClient \<Rightarrow> cluster \<Rightarrow> WriteResult \<times> cluster" where
  "SeedClient_Deregister w nodeID = fanOut w (DeregisterRequest nodeID)"

definition SeedClient_DeregisterService :: "world \<Rightarrow> string \<Rightarrow> string \<Rightarrow> SeedClient \<Rightarrow> cluster \<Rightarrow> WriteResult \<times> cluster" where
  "SeedClient_DeregisterService w nodeID serviceID = fanOut w (DeregisterServiceRequest nodeID serviceID)"

section \<open>Reads\<close>

text \<open>The decoded answer of one seed to a lookup, or the failure of the call.\<close>

definition seed_lookup :: "world \<Rightarrow> Query \<Rightarrow> cluster \<Rightarrow> string \<Rightarrow> rpc_error + LookupResult" where
  "seed_lookup w q cl addr =
     (case fst (call_seed (w addr) (LookupRequest (Some (QueryToProto q))) (cl addr)) of
        Inl e \<Rightarrow> Inl e
      | Inr (LookupResponse resp) \<Rightarrow> Inr (LookupResultFromProto (Some resp))
      | Inr _ \<Rightarrow> Inl Unreachable)"

record gather =
  ga_all :: "ServiceEntry list"
  ga_counts :: "nat list"
  ga_maxIndex :: uint64
  ga_okCount :: nat
  ga_errs :: "(string \<times> rpc_error) list"

definition gather_zero :: gather where
  "gather_zero = \<lparr>ga_all = [], ga_counts = [], ga_maxIndex = 0, ga_okCount = 0, ga_errs = []\<rparr>"

definition gather_one :: "string \<Rightarrow> rpc_error + LookupResult \<Rightarrow> gather \<Rightarrow> gather" where
  "gather_one addr r g =
     (case r of
        Inl e \<Rightarrow> g\<lparr>ga_errs := ga_errs g @ [(addr, e)]\<rparr>
      | Inr lr \<Rightarrow> g\<lparr>ga_okCount := Suc (ga_okCount g), ga_all := ga_all g @ lr_Entries lr,
          ga_counts := ga_counts g @ [length (lr_Entries lr)],
          ga_maxIndex := (if lr_Index lr > ga_maxIndex g then lr_Index lr else ga_maxIndex g)\<rparr>)"

definition spread :: "nat list \<Rightarrow> nat" where
  "spread counts =
     (case counts of
        [] \<Rightarrow> 0
      | c0 # cs \<Rightarrow>
          (case fold (\<lambda>c (lo, hi). (if c < lo then c else lo, if c > hi then c else hi)) cs (c0, c0) of
             (lo, hi) \<Rightarrow> hi - lo))"

text \<open>The first and last instants seen for each registration, and the widest gap between them.\<close>

fun skew_spans :: "ServiceEntry list \<Rightarrow> (string \<times> string \<times> uint64, time \<times> time) fmap
    \<Rightarrow> (string \<times> string \<times> uint64, time \<times> time) fmap" where
  "skew_spans [] spans = spans"
| "skew_spans (e # es) spans =
     (let ts = s_LastSeen (e_Service e);
          k = (n_ID (e_Node e), s_ID (e_Service e), s_Generation (e_Service e)) in
      if time_IsZero ts then skew_spans es spans
      else case fmlookup spans k of
        None \<Rightarrow> skew_spans es (fmupd k (ts, ts) spans)
      | Some (lo, hi) \<Rightarrow>
          skew_spans es (fmupd k (if ts < lo then ts else lo, if ts > hi then ts else hi) spans))"

definition estimateSkew :: "ServiceEntry list \<Rightarrow> duration" where
  "estimateSkew entries =
     fold (\<lambda>(lo, hi) m. let d = time_Sub hi lo in if d > m then d else m)
       (range_values (skew_spans entries fmempty)) 0"

record Lookup_out =
  lo_result :: "rpc_error list + LookupResult"
  lo_skew :: duration
  lo_divergence :: nat

text \<open>\<open>order\<close> is the order in which the seeds answer.\<close>

definition SeedClient_Lookup :: "world \<Rightarrow> string list \<Rightarrow> Query \<Rightarrow> SeedClient \<Rightarrow> cluster \<Rightarrow> Lookup_out" where
  "SeedClient_Lookup w order q c cl =
     (let g = fold (\<lambda>addr. gather_one addr (seed_lookup w q cl addr)) order gather_zero in
      if ga_okCount g = 0
      then \<lparr>lo_result = Inl (map snd (ga_errs g)), lo_skew = 0, lo_divergence = 0\<rparr>
      else \<lparr>lo_result = Inr \<lparr>lr_Entries = MergeLWW (ga_all g), lr_Index = ga_maxIndex g\<rparr>,
            lo_skew = estimateSkew (ga_all g), lo_divergence = spread (ga_counts g)\<rparr>)"

definition SeedClient_Dump :: "world \<Rightarrow> Query \<Rightarrow> SeedClient \<Rightarrow> cluster \<Rightarrow> (string, ServiceEntry list) fmap" where
  "SeedClient_Dump w q c cl =
     fold (\<lambda>addr. fmupd addr (case seed_lookup w q cl addr of Inl _ \<Rightarrow> [] | Inr lr \<Rightarrow> lr_Entries lr)) (sc_conns c) fmempty"

text \<open>The seeds that answer their health check with \<^verbatim>\<open>SERVING\<close>.\<close>

definition SeedClient_Reachable :: "(string \<Rightarrow> bool) \<Rightarrow> SeedClient \<Rightarrow> nat" where
  "SeedClient_Reachable serving c = length (filter serving (sc_conns c))"

section \<open>What a fan-out write does\<close>

lemma fanOut_loop_effect:
  assumes "fanOut_loop w req addrs res cl = (res', cl')" "distinct addrs"
  shows "wr_Total res' = wr_Total res \<and>
    wr_Succeeded res' = wr_Succeeded res + length (filter (\<lambda>a. \<not> isl (fst (call_seed (w a) req (cl a)))) addrs) \<and>
    (\<forall>a. cl' a = (if a \<in> set addrs then snd (call_seed (w a) req (cl a)) else cl a)) \<and>
    (\<forall>a. fmlookup (wr_Errors res') a =
       (if a \<in> set addrs \<and> isl (fst (call_seed (w a) req (cl a)))
        then Some (projl (fst (call_seed (w a) req (cl a)))) else fmlookup (wr_Errors res) a))"
  using assms
proof (induction addrs arbitrary: res cl)
  case (Cons a addrs)
  obtain r m where c: "call_seed (w a) req (cl a) = (r, m)" by fastforce
  define res1 where "res1 = (case r of Inl e \<Rightarrow> res\<lparr>wr_Errors := fmupd a e (wr_Errors res)\<rparr>
      | Inr _ \<Rightarrow> res\<lparr>wr_Succeeded := Suc (wr_Succeeded res)\<rparr>)"
  have run: "fanOut_loop w req addrs res1 (cl(a := m)) = (res', cl')"
    using Cons.prems(1) c by (cases r) (simp_all add: res1_def)
  have same: "(cl(a := m)) b = cl b" if "b \<in> set addrs" for b using that Cons.prems(2) by auto
  have filt: "filter (\<lambda>b. \<not> isl (fst (call_seed (w b) req ((cl(a := m)) b)))) addrs =
      filter (\<lambda>b. \<not> isl (fst (call_seed (w b) req (cl b)))) addrs"
    by (rule filter_cong) (simp, metis same)
  show ?case
    using Cons.IH [OF run] Cons.prems(2) same c unfolding filt
    by (cases r) (auto simp: res1_def)
qed simp

lemma fanOut_effect:
  assumes "fanOut w req c cl = (res, cl')" "distinct (sc_conns c)"
  shows "wr_Total res = length (sc_conns c)"
    "wr_Succeeded res = length (filter (\<lambda>a. \<not> isl (fst (call_seed (w a) req (cl a)))) (sc_conns c))"
    "cl' a = (if a \<in> set (sc_conns c) then snd (call_seed (w a) req (cl a)) else cl a)"
    "a \<in> fmdom' (wr_Errors res) \<longleftrightarrow> a \<in> set (sc_conns c) \<and> isl (fst (call_seed (w a) req (cl a)))"
  using fanOut_loop_effect [OF assms(1) [unfolded fanOut_def] assms(2)]
  by (simp_all add: fmlookup_dom'_iff)

lemma WriteResult_counts:
  assumes "fanOut w req c cl = (res, cl')" "distinct (sc_conns c)"
  shows "wr_Succeeded res + card (fmdom' (wr_Errors res)) = wr_Total res"
proof -
  let ?f = "\<lambda>a. isl (fst (call_seed (w a) req (cl a)))"
  have "fmdom' (wr_Errors res) = set (filter ?f (sc_conns c))"
    using fanOut_effect(4) [OF assms] by auto
  then have "card (fmdom' (wr_Errors res)) = length (filter ?f (sc_conns c))"
    using distinct_card [of "filter ?f (sc_conns c)"] assms(2) by simp
  then show ?thesis
    using fanOut_effect(1,2) [OF assms] sum_length_filter_compl [of ?f "sc_conns c"] by simp
qed

section \<open>What a fan-out read does\<close>

lemma gather_fold:
  "fold (\<lambda>addr. gather_one addr (f addr)) order g =
     g\<lparr>ga_errs := ga_errs g @ concat (map (\<lambda>a. case f a of Inl e \<Rightarrow> [(a, e)] | Inr _ \<Rightarrow> []) order),
       ga_okCount := ga_okCount g + length (filter (\<lambda>a. \<not> isl (f a)) order),
       ga_all := ga_all g @ concat (map (\<lambda>a. case f a of Inl _ \<Rightarrow> [] | Inr lr \<Rightarrow> lr_Entries lr) order),
       ga_counts := ga_counts g @ concat (map (\<lambda>a. case f a of Inl _ \<Rightarrow> [] | Inr lr \<Rightarrow> [length (lr_Entries lr)]) order),
       ga_maxIndex := fold (\<lambda>a i. case f a of Inl _ \<Rightarrow> i | Inr lr \<Rightarrow> max (lr_Index lr) i) order (ga_maxIndex g)\<rparr>"
  by (induction order arbitrary: g) (auto simp: gather_one_def max_def split: sum.splits)

text \<open>The entries the answering seeds give, in the order of the answers.\<close>

definition answers :: "world \<Rightarrow> Query \<Rightarrow> cluster \<Rightarrow> string list \<Rightarrow> ServiceEntry list" where
  "answers w q cl order =
     concat (map (\<lambda>a. case seed_lookup w q cl a of Inl _ \<Rightarrow> [] | Inr lr \<Rightarrow> lr_Entries lr) order)"

lemma set_answers: "set (answers w q cl order) =
    {e. \<exists>a\<in>set order. \<exists>lr. seed_lookup w q cl a = Inr lr \<and> e \<in> set (lr_Entries lr)}"
proof -
  have "e \<in> set (case r of Inl _ \<Rightarrow> [] | Inr lr \<Rightarrow> lr_Entries lr) \<longleftrightarrow> (\<exists>lr. r = Inr lr \<and> e \<in> set (lr_Entries lr))"
    for e and r :: "rpc_error + LookupResult" by (cases r) auto
  then show ?thesis by (auto simp: answers_def)
qed

lemma Lookup_result:
  "lo_result (SeedClient_Lookup w order q c cl) =
     (if \<forall>a\<in>set order. isl (seed_lookup w q cl a) then Inl (map (\<lambda>a. projl (seed_lookup w q cl a)) order)
      else Inr \<lparr>lr_Entries = MergeLWW (answers w q cl order),
                lr_Index = fold (\<lambda>a i. case seed_lookup w q cl a of Inl _ \<Rightarrow> i | Inr lr \<Rightarrow> max (lr_Index lr) i) order 0\<rparr>)"
proof -
  have errs: "map snd (concat (map (\<lambda>a. case f a of Inl e \<Rightarrow> [(a, e)] | Inr _ \<Rightarrow> []) xs)) = map (\<lambda>a. projl (f a)) xs"
    if "\<forall>a\<in>set xs. isl (f a)" for f :: "string \<Rightarrow> rpc_error + LookupResult" and xs
    using that by (induction xs) (auto split: sum.splits)
  show ?thesis
    by (auto simp: SeedClient_Lookup_def gather_fold gather_zero_def answers_def filter_empty_conv errs Let_def)
qed

lemma Max_insert_max: "finite S \<Longrightarrow> Max (insert (max x i) S) = Max (insert i (insert (x :: uint64) S))"
  by (cases "S = {}") (simp_all add: max.commute max.left_commute)

lemma fold_max_index:
  "fold (\<lambda>a i. case f a of Inl _ \<Rightarrow> i | Inr lr \<Rightarrow> max (lr_Index lr) i) order (i :: uint64) =
     Max (insert i {lr_Index lr | a lr. a \<in> set order \<and> f a = Inr lr})"
proof (induction order arbitrary: i)
  case (Cons a order)
  have fin: "finite {lr_Index lr | a lr. a \<in> set order \<and> f a = Inr lr}"
    by (rule finite_subset [of _ "(\<lambda>a. lr_Index (projr (f a))) ` set order"]) (auto simp: image_iff, metis sum.sel(2))
  have "{lr_Index lr | b lr. b \<in> set (a # order) \<and> f b = Inr lr} =
      (case f a of Inl _ \<Rightarrow> {} | Inr lr \<Rightarrow> {lr_Index lr}) \<union> {lr_Index lr | a lr. a \<in> set order \<and> f a = Inr lr}"
    by (auto split: sum.splits)
  then show ?case
    by (cases "f a") (simp_all add: Cons.IH Max_insert_max fin)
qed simp

text \<open>
  C20 (functional). The answer of a fan-out read: it fails exactly when no seed answers; otherwise its index
  is the highest the answering seeds report and its entries are the last-writer-wins merge of all
  they hold, so that each instance any of them knows occurs once, in a version none of them beats.
  Without version ties it does not depend on the order in which the seeds answer.
\<close>

theorem fan_out_read:
  "((\<exists>errs. lo_result (SeedClient_Lookup w order q c cl) = Inl errs) \<longleftrightarrow> (\<forall>a\<in>set order. isl (seed_lookup w q cl a))) \<and>
   (\<forall>lr. lo_result (SeedClient_Lookup w order q c cl) = Inr lr \<longrightarrow>
      lr_Index lr = Max (insert 0 {lr_Index r | a r. a \<in> set order \<and> seed_lookup w q cl a = Inr r}) \<and>
      lr_Entries lr = MergeLWW (answers w q cl order) \<and>
      entry_id ` set (lr_Entries lr) = {entry_id e | a r e. a \<in> set order \<and> seed_lookup w q cl a = Inr r \<and> e \<in> set (lr_Entries r)} \<and>
      (\<forall>a r f. a \<in> set order \<longrightarrow> seed_lookup w q cl a = Inr r \<longrightarrow> f \<in> set (lr_Entries r) \<longrightarrow>
         (\<exists>e\<in>set (lr_Entries lr). entry_id e = entry_id f \<and> \<not> WinsLWW (e_Service f) (e_Service e)))) \<and>
   (set order' = set order \<longrightarrow> no_ties (answers w q cl order) \<longrightarrow>
      map_sum (\<lambda>_. ()) id (lo_result (SeedClient_Lookup w order' q c cl)) =
      map_sum (\<lambda>_. ()) id (lo_result (SeedClient_Lookup w order q c cl)))"
proof (intro conjI allI impI)
  let ?ans = "answers w q cl order"
  show "(\<exists>errs. lo_result (SeedClient_Lookup w order q c cl) = Inl errs) \<longleftrightarrow> (\<forall>a\<in>set order. isl (seed_lookup w q cl a))"
    by (auto simp: Lookup_result)
  fix lr
  assume "lo_result (SeedClient_Lookup w order q c cl) = Inr lr"
  then have lr: "lr_Entries lr = MergeLWW ?ans"
    "lr_Index lr = fold (\<lambda>a i. case seed_lookup w q cl a of Inl _ \<Rightarrow> i | Inr lr \<Rightarrow> max (lr_Index lr) i) order 0"
    by (auto simp: Lookup_result split: if_splits)
  show "lr_Index lr = Max (insert 0 {lr_Index r | a r. a \<in> set order \<and> seed_lookup w q cl a = Inr r})"
    by (simp add: lr fold_max_index)
  show "lr_Entries lr = MergeLWW ?ans" by (rule lr)
  show "entry_id ` set (lr_Entries lr) = {entry_id e | a r e. a \<in> set order \<and> seed_lookup w q cl a = Inr r \<and> e \<in> set (lr_Entries r)}"
    unfolding lr ids_MergeLWW set_answers by auto
  fix a r f
  assume "a \<in> set order" "seed_lookup w q cl a = Inr r" "f \<in> set (lr_Entries r)"
  then have f: "f \<in> set ?ans" by (auto simp: set_answers)
  then have "entry_id f \<in> entry_id ` set (MergeLWW ?ans)" by (simp add: ids_MergeLWW)
  then show "\<exists>e\<in>set (lr_Entries lr). entry_id e = entry_id f \<and> \<not> WinsLWW (e_Service f) (e_Service e)"
    using MergeLWW_unbeaten [of _ ?ans f] f by (auto simp: lr)
next
  assume o: "set order' = set order" "no_ties (answers w q cl order)"
  then have "set (answers w q cl order) = set (answers w q cl order')" by (simp add: set_answers)
  from merge_same_set [OF this o(2)] o(1)
  show "map_sum (\<lambda>_. ()) id (lo_result (SeedClient_Lookup w order' q c cl)) =
      map_sum (\<lambda>_. ()) id (lo_result (SeedClient_Lookup w order q c cl))"
    by (simp add: Lookup_result fold_max_index)
qed

section \<open>Quorums\<close>

text \<open>Seeds that run the handlers of \<^verbatim>\<open>service.go\<close>, each with its own clock.\<close>

definition seeds_run :: "(string \<Rightarrow> time) \<Rightarrow> clock \<Rightarrow> (string \<Rightarrow> string list) \<Rightarrow> (string \<Rightarrow> link) \<Rightarrow> world" where
  "seeds_run now evclk order lk a = \<lparr>se_link = lk a, se_handle = Service_handle (now a) evclk (order a)\<rparr>"

definition wire_reg :: "Registration \<Rightarrow> Registration" where
  "wire_reg r = r\<lparr>r_Services := map (\<lambda>s. s\<lparr>s_TTL := wire_ttl (s_TTL s), s_LastSeen := zeroTime, s_Generation := 0\<rparr>) (r_Services r)\<rparr>"

lemma Registration_wire: "RegistrationFromProto (Some (RegistrationToProto r)) = wire_reg r"
  by (simp add: RegistrationFromProto_def RegistrationToProto_def wire_reg_def Service_roundtrip)

lemma call_Register:
  "call_seed (seeds_run now evclk order lk a) (RegisterRequest (Some (RegistrationToProto reg))) m = (Inr r, m') \<Longrightarrow>
   \<exists>out. Memory_Register (now a) evclk (wire_reg reg) m = (None, out, m')"
  by (auto simp: call_seed_def seeds_run_def Service_Register_def Registration_wire reply_of_def
      split: link.splits prod.splits sum.splits option.splits)

lemma Query_wire [simp]: "QueryFromProto (Some (QueryToProto q)) = q"
  by (simp add: QueryFromProto_def QueryToProto_def)

lemma seed_lookup_run:
  "seed_lookup (seeds_run now evclk order lk) q cl a =
     (if lk a = Up then Inr (LookupResultFromProto (Some (LookupResultToProto
        (let res = Memory_Lookup (now a) q (cl a) in
         if q_OnlyHealthy q then res\<lparr>lr_Entries := Filter (lr_Entries res) passing_only\<rparr> else res))))
      else Inl Unreachable)"
  by (cases "lk a") (simp_all add: seed_lookup_def call_seed_def seeds_run_def Service_Lookup_def Let_def)

lemma Entry_wire_id: "entry_id (EntryFromProto (Some (EntryToProto e))) = entry_id e"
    "s_Generation (e_Service (EntryFromProto (Some (EntryToProto e)))) = s_Generation (e_Service e)"
  by (simp_all add: EntryFromProto_def EntryToProto_def Service_roundtrip Let_def)

text \<open>A seed that accepted a registration answers it while the lease it was given lasts.\<close>

lemma registered_answers:
  assumes reg: "Memory_Register now evclk (wire_reg reg) m = (None, out, m')"
    and ok: "registry_ok m" and d: "distinct (map svc_id (r_Services reg))" and s: "s \<in> set (r_Services reg)"
    and q: "q_Name q \<in> {[], s_Name s}" "q_Datacenter q \<in> {[], n_Datacenter (r_Node reg)}" "set (q_Tags q) \<subseteq> set (s_Tags s)"
    and t: "time_Sub now' now \<le> clampTTL (m_opts m) (wire_ttl (s_TTL s))"
  shows "\<exists>e\<in>set (lr_Entries (Memory_Lookup now' q m')). entry_id e = (n_ID (r_Node reg), svc_id s) \<and>
    s_Generation (e_Service e) = r_Generation reg"
proof -
  let ?s = "s\<lparr>s_TTL := wire_ttl (s_TTL s), s_LastSeen := zeroTime, s_Generation := 0\<rparr>"
  have id: "svc_id ?s = svc_id s" by (simp add: svc_id_def)
  have ids: "map svc_id (r_Services (wire_reg reg)) = map svc_id (r_Services reg)"
    by (simp add: wire_reg_def svc_id_def comp_def)
  obtain raw where "msteps m raw m'" using Memory_Register_msteps [OF reg] by blast
  then have ok': "registry_ok m'" using ok by (rule registry_ok_msteps)
  note eff = Memory_Register_effect [OF reg, unfolded ids, OF d]
  have "holds_at now (r_Generation reg) (n_ID (r_Node reg)) m' ?s"
    using eff s by (simp add: wire_reg_def)
  then obtain svc where svc: "svc_at m' (n_ID (r_Node reg)) (svc_id s) = Some svc" "s_LastSeen (sv_def svc) = now"
      "\<not> changed (sv_def svc) (normalise_def (m_opts m') now (r_Generation reg) ?s)"
    unfolding holds_at_def id by blast
  have same: "s_Name (sv_def svc) = s_Name s" "s_Tags (sv_def svc) = s_Tags s" "s_Generation (sv_def svc) = r_Generation reg"
      "s_TTL (sv_def svc) = clampTTL (m_opts m) (wire_ttl (s_TTL s))"
    using svc(3) eff by (auto simp: changed_def normalise_def_def equalStrings_iff Let_def split: if_splits)
  have meta: "meta_at m' (n_ID (r_Node reg)) = Some (r_Node reg)" using eff by (simp add: wire_reg_def)
  have "live m' now' svc" using t same(4) svc(2) by (simp add: live_def lease_def Let_def)
  moreover have "asked q (r_Node reg) svc" using q same by (auto simp: asked_def)
  ultimately have "answer m' now' (r_Node reg) svc \<in> set (lr_Entries (Memory_Lookup now' q m'))"
    using meta svc(1) ok' by (auto simp: registry_ok_def set_Lookup)
  moreover have "s_ID (sv_def svc) = svc_id s" using svc(1) ok' by (auto simp: registry_ok_def dest: ids_okD)
  ultimately show ?thesis using same(3)
    by (intro bexI [of _ "answer m' now' (r_Node reg) svc"]) (simp_all add: answer_def entry_def)
qed

lemma quorums_meet:
  assumes "finite S" "A \<subseteq> S" "B \<subseteq> S" "card A + card B > card S"
  shows "\<exists>x. x \<in> A \<and> x \<in> B"
proof (rule ccontr)
  assume "\<not> ?thesis"
  then have "card (A \<union> B) = card A + card B"
    using assms finite_subset by (intro card_Un_disjoint) (auto intro: finite_subset)
  moreover have "card (A \<union> B) \<le> card S" using assms by (intro card_mono) auto
  ultimately show False using assms(4) by simp
qed

lemma register_then_lookup:
  "distinct (sc_conns c) \<Longrightarrow> set order = set (sc_conns c) \<Longrightarrow> \<forall>a. registry_ok (cl a) \<Longrightarrow>
   distinct (map svc_id (r_Services reg)) \<Longrightarrow> s \<in> set (r_Services reg) \<Longrightarrow> \<not> q_OnlyHealthy q \<Longrightarrow>
   q_Name q \<in> {[], s_Name s} \<Longrightarrow> q_Datacenter q \<in> {[], n_Datacenter (r_Node reg)} \<Longrightarrow> set (q_Tags q) \<subseteq> set (s_Tags s) \<Longrightarrow>
   \<forall>a. time_Sub (now' a) (now a) \<le> clampTTL (m_opts (cl a)) (wire_ttl (s_TTL s)) \<Longrightarrow>
   SeedClient_Register (seeds_run now evclk ord lk) reg c cl = (res, cl') \<Longrightarrow>
   wr_Succeeded res + card {a \<in> set (sc_conns c). lk' a = Up} > wr_Total res \<Longrightarrow>
   \<exists>lr. lo_result (SeedClient_Lookup (seeds_run now' evclk' ord' lk') order q c cl') = Inr lr \<and>
     (\<exists>e\<in>set (lr_Entries lr). entry_id e = (n_ID (r_Node reg), svc_id s) \<and>
        s_Generation (e_Service e) \<ge> r_Generation reg)"
proof -
  assume d: "distinct (sc_conns c)" and o: "set order = set (sc_conns c)" and ok: "\<forall>a. registry_ok (cl a)"
    and reg: "distinct (map svc_id (r_Services reg))" "s \<in> set (r_Services reg)" and nh: "\<not> q_OnlyHealthy q"
    and q: "q_Name q \<in> {[], s_Name s}" "q_Datacenter q \<in> {[], n_Datacenter (r_Node reg)}" "set (q_Tags q) \<subseteq> set (s_Tags s)"
    and t: "\<forall>a. time_Sub (now' a) (now a) \<le> clampTTL (m_opts (cl a)) (wire_ttl (s_TTL s))"
    and run: "SeedClient_Register (seeds_run now evclk ord lk) reg c cl = (res, cl')"
    and quorum: "wr_Succeeded res + card {a \<in> set (sc_conns c). lk' a = Up} > wr_Total res"
  let ?w = "seeds_run now evclk ord lk" and ?w' = "seeds_run now' evclk' ord' lk'"
  let ?call = "\<lambda>a. call_seed (?w a) (RegisterRequest (Some (RegistrationToProto reg))) (cl a)"
  let ?acks = "{a \<in> set (sc_conns c). \<not> isl (fst (?call a))}"
  note eff = fanOut_effect [OF run [unfolded SeedClient_Register_def] d]
  have "wr_Succeeded res = card ?acks"
    using eff(2) d distinct_card [of "filter (\<lambda>a. \<not> isl (fst (?call a))) (sc_conns c)"] by simp
  moreover have "wr_Total res = card (set (sc_conns c))" using eff(1) d by (simp add: distinct_card)
  ultimately obtain a where a: "a \<in> set (sc_conns c)" "\<not> isl (fst (?call a))" "lk' a = Up"
    using quorums_meet [of "set (sc_conns c)" ?acks "{a \<in> set (sc_conns c). lk' a = Up}"] quorum by auto
  then obtain r where c: "?call a = (Inr r, cl' a)" using eff(3) [of a] by (cases "?call a"; cases "fst (?call a)") auto
  from call_Register [OF c] obtain out where stored: "Memory_Register (now a) evclk (wire_reg reg) (cl a) = (None, out, cl' a)" ..
  from registered_answers [OF stored ok [rule_format] reg q t [rule_format]]
  obtain e where e: "e \<in> set (lr_Entries (Memory_Lookup (now' a) q (cl' a)))"
    "entry_id e = (n_ID (r_Node reg), svc_id s)" "s_Generation (e_Service e) = r_Generation reg" by blast
  define f where "f = EntryFromProto (Some (EntryToProto e))"
  have f: "f \<in> set (answers ?w' q cl' order)" "entry_id f = entry_id e" "s_Generation (e_Service f) = r_Generation reg"
    using e a(1,3) o nh by (auto simp: f_def set_answers seed_lookup_run Entry_wire_id LookupResultFromProto_def
        LookupResultToProto_def intro!: bexI [of _ a])
  have "entry_id f \<in> entry_id ` set (MergeLWW (answers ?w' q cl' order))" using f(1) by (simp add: ids_MergeLWW)
  then obtain g where g: "g \<in> set (MergeLWW (answers ?w' q cl' order))" "entry_id g = entry_id f" by auto
  have "s_Generation (e_Service g) \<ge> r_Generation reg"
    using MergeLWW_unbeaten [OF g(1) f(1)] g(2) f(3) by (auto simp: WinsLWW_def split: if_splits)
  moreover have "\<not> (\<forall>b\<in>set order. isl (seed_lookup ?w' q cl' b))" using a(1,3) o by (auto simp: seed_lookup_run)
  ultimately show ?thesis using g f(2) e(2) by (auto simp: Lookup_result)
qed

text \<open>
  Read your writes: when the seeds that acknowledged a registration and the seeds that answer a later
  lookup are together more than all seeds, the lookup succeeds and returns every registered service
  that the query asks for, in the registered generation or a newer one, while the lease granted lasts. This
  holds whatever the other seeds hold, on seeds whose clocks disagree, and in any order of answers.
\<close>

theorem quorum_read:
  "distinct (sc_conns c) \<Longrightarrow> set order = set (sc_conns c) \<Longrightarrow> \<forall>a. registry_ok (cl a) \<Longrightarrow>
   distinct (map svc_id (r_Services reg)) \<Longrightarrow> s \<in> set (r_Services reg) \<Longrightarrow> \<not> q_OnlyHealthy q \<Longrightarrow>
   q_Name q \<in> {[], s_Name s} \<Longrightarrow> q_Datacenter q \<in> {[], n_Datacenter (r_Node reg)} \<Longrightarrow> set (q_Tags q) \<subseteq> set (s_Tags s) \<Longrightarrow>
   \<forall>a. time_Sub (now' a) (now a) \<le> clampTTL (m_opts (cl a)) (wire_ttl (s_TTL s)) \<Longrightarrow>
   SeedClient_Register (seeds_run now evclk ord lk) reg c cl = (res, cl') \<Longrightarrow>
   wr_Succeeded res + card {a \<in> set (sc_conns c). lk' a = Up} > wr_Total res \<Longrightarrow>
   \<exists>lr. lo_result (SeedClient_Lookup (seeds_run now' evclk' ord' lk') order q c cl') = Inr lr \<and>
     (\<exists>e\<in>set (lr_Entries lr). entry_id e = (n_ID (r_Node reg), svc_id s) \<and>
        s_Generation (e_Service e) \<ge> r_Generation reg)"
  by (rule register_then_lookup)

definition ex_client :: SeedClient where
  "ex_client = \<lparr>sc_conns = [''a'', ''b'', ''c''], sc_seedTimeout = defaultSeedTimeout\<rparr>"

definition ex_cluster :: cluster where
  "ex_cluster = (\<lambda>_. NewMemory ex_opts)"

definition ex_written :: "WriteResult \<times> cluster" where
  "ex_written = SeedClient_Register (seeds_run (\<lambda>_. 100) (\<lambda>_. 100) (\<lambda>_. []) (\<lambda>a. if a = ''a'' then Down else Up))
     ex_reg ex_client ex_cluster"

definition ex_read :: Lookup_out where
  "ex_read = SeedClient_Lookup (seeds_run (\<lambda>_. 200) (\<lambda>_. 200) (\<lambda>_. []) (\<lambda>a. if a = ''b'' then Down else Up))
     [''c'', ''a'', ''b''] ex_query ex_client (snd ex_written)"

theorem quorum_read_witness:
  "wr_Succeeded (fst ex_written) = 2 \<and>
   (\<exists>lr. lo_result ex_read = Inr lr \<and> (\<exists>e\<in>set (lr_Entries lr). entry_id e = (''n1'', ''s1'') \<and> s_Generation (e_Service e) \<ge> 1))"
proof
  show two: "wr_Succeeded (fst ex_written) = 2" by code_simp
  have three: "wr_Total (fst ex_written) = 3" by code_simp
  have "{a \<in> {''a'', ''b'', ''c''}. (if a = ''b'' then Down else Up) = Up} = {''a'', ''c''}" by (auto split: if_splits)
  then have up: "card {a \<in> set (sc_conns ex_client). (if a = ''b'' then Down else Up) = Up} = 2" by (simp add: ex_client_def)
  have t: "time_Sub 200 100 \<le> clampTTL (m_opts (ex_cluster a)) (wire_ttl (s_TTL (hd (r_Services ex_reg))))" for a
    unfolding ex_cluster_def by code_simp
  have run: "SeedClient_Register (seeds_run (\<lambda>_. 100) (\<lambda>_. 100) (\<lambda>_. []) (\<lambda>a. if a = ''a'' then Down else Up))
      ex_reg ex_client ex_cluster = (fst ex_written, snd ex_written)"
    by (simp add: ex_written_def)
  have q: "wr_Succeeded (fst ex_written) + card {a \<in> set (sc_conns ex_client). (if a = ''b'' then Down else Up) = Up}
      > wr_Total (fst ex_written)"
    using two three up by simp
  have "\<exists>lr. lo_result ex_read = Inr lr \<and> (\<exists>e\<in>set (lr_Entries lr).
      entry_id e = (n_ID (r_Node ex_reg), svc_id (hd (r_Services ex_reg))) \<and> s_Generation (e_Service e) \<ge> r_Generation ex_reg)"
    unfolding ex_read_def
    by (rule quorum_read [OF _ _ _ _ _ _ _ _ _ _ run q])
       (use t in \<open>auto simp: ex_client_def ex_cluster_def ex_reg_def ex_query_def Query_zero_def svc_id_def registry_ok_NewMemory\<close>)
  then show "\<exists>lr. lo_result ex_read = Inr lr \<and> (\<exists>e\<in>set (lr_Entries lr). entry_id e = (''n1'', ''s1'') \<and> s_Generation (e_Service e) \<ge> 1)"
    by (simp add: ex_reg_def svc_id_def)
qed

theorem fan_out_read_witness:
  "\<exists>lr. lo_result ex_read = Inr lr \<and> entry_id ` set (lr_Entries lr) = {(''n1'', ''s1'')}"
proof -
  let ?w = "seeds_run (\<lambda>_. 200) (\<lambda>_. 200) (\<lambda>_. []) (\<lambda>a. if a = ''b'' then Down else Up)"
  let ?o = "[''c'', ''a'', ''b'']"
  note spec = fan_out_read [where w = ?w and order = ?o and q = ex_query and c = ex_client and cl = "snd ex_written",
      folded ex_read_def]
  have "seed_lookup ?w ex_query (snd ex_written) ''c'' = Inr (projr (seed_lookup ?w ex_query (snd ex_written) ''c''))"
    by (simp add: seed_lookup_run)
  then have "\<nexists>errs. lo_result ex_read = Inl errs"
    using conjunct1 [OF spec] by (metis isl_def list.set_intros(1) sum.distinct(1))
  then obtain lr where lr: "lo_result ex_read = Inr lr" by (cases "lo_result ex_read") auto
  have "map entry_id (answers ?w ex_query (snd ex_written) ?o) = [(''n1'', ''s1'')]" by code_simp
  from arg_cong [OF this, of set] have ids: "entry_id ` set (answers ?w ex_query (snd ex_written) ?o) = {(''n1'', ''s1'')}"
    by simp
  have "lr_Entries lr = MergeLWW (answers ?w ex_query (snd ex_written) ?o)"
    using conjunct1 [OF conjunct2 [OF spec]] lr by blast
  then show ?thesis using lr ids by (simp add: ids_MergeLWW)
qed

text \<open>
  The outcome of a fan-out write over distinct seeds: every seed is counted once, as a
  success or among the errors; each seed's registry is what its own call made it, a seed that could
  not be reached is as it was, and a registry that is no seed of the client is untouched. The write
  has a quorum exactly when that many seeds accepted it.
\<close>

theorem fan_out_write:
  "distinct (sc_conns c) \<Longrightarrow> fanOut w req c cl = (res, cl') \<Longrightarrow>
   wr_Total res = length (sc_conns c) \<and> wr_Succeeded res + card (fmdom' (wr_Errors res)) = wr_Total res \<and>
   (\<forall>a. cl' a = (if a \<in> set (sc_conns c) then snd (call_seed (w a) req (cl a)) else cl a)) \<and>
   (\<forall>a. se_link (w a) = Down \<longrightarrow> cl' a = cl a \<and> (a \<in> set (sc_conns c) \<longrightarrow> a \<in> fmdom' (wr_Errors res))) \<and>
   (WriteResult_OK res quorum \<longleftrightarrow>
      int (card {a \<in> set (sc_conns c). se_link (w a) = Up \<and> \<not> isl (fst (se_handle (w a) req (cl a)))}) \<ge> quorum)"
proof -
  assume d: "distinct (sc_conns c)" and run: "fanOut w req c cl = (res, cl')"
  note eff = fanOut_effect [OF run d]
  have acc: "\<not> isl (fst (call_seed (w a) req (cl a))) \<longleftrightarrow> se_link (w a) = Up \<and> \<not> isl (fst (se_handle (w a) req (cl a)))" for a
    by (auto simp: call_seed_def split: link.splits prod.splits sum.splits)
  have "wr_Succeeded res = card {a \<in> set (sc_conns c). se_link (w a) = Up \<and> \<not> isl (fst (se_handle (w a) req (cl a)))}"
    using eff(2) d distinct_card [of "filter (\<lambda>a. \<not> isl (fst (call_seed (w a) req (cl a)))) (sc_conns c)"]
    unfolding acc by simp
  then show ?thesis
    using eff(1) WriteResult_counts [OF run d] eff(3,4) by (auto simp: WriteResult_OK_def call_seed_def)
qed

theorem fan_out_write_witness:
  "wr_Total (fst ex_written) = 3 \<and> fmdom' (wr_Errors (fst ex_written)) = {''a''} \<and> snd ex_written ''a'' = NewMemory ex_opts"
proof -
  let ?w = "seeds_run (\<lambda>_. 100) (\<lambda>_. 100) (\<lambda>_. []) (\<lambda>a. if a = ''a'' then Down else Up)"
  have d: "distinct (sc_conns ex_client)" by (simp add: ex_client_def)
  have run: "fanOut ?w (RegisterRequest (Some (RegistrationToProto ex_reg))) ex_client ex_cluster = (fst ex_written, snd ex_written)"
    by (simp add: ex_written_def SeedClient_Register_def)
  note spec = fan_out_write [OF d run]
  have two: "wr_Succeeded (fst ex_written) = 2" by code_simp
  have three: "wr_Total (fst ex_written) = 3" using spec by (simp add: ex_client_def)
  have down: "se_link (?w ''a'') = Down" by (simp add: seeds_run_def)
  have "''a'' \<in> set (sc_conns ex_client)" by (simp add: ex_client_def)
  then have a: "''a'' \<in> fmdom' (wr_Errors (fst ex_written)) \<and> snd ex_written ''a'' = NewMemory ex_opts"
    using spec down unfolding ex_cluster_def by blast
  have "card (fmdom' (wr_Errors (fst ex_written))) = 1" using conjunct1 [OF conjunct2 [OF spec]] two three by linarith
  then obtain x where "fmdom' (wr_Errors (fst ex_written)) = {x}" using card_1_singletonE by blast
  then show ?thesis using a three by auto
qed

end
