(* ===== verification/Cache.thy ===== *)
theory Cache
  imports SeedClient
begin

text \<open>
  \<^verbatim>\<open>internal/seedclient/cache.go\<close>: the agent's read cache. What the seeds answer is the argument \<open>seeds\<close>,
  which \<open>client_lookup\<close> instantiates with the fan-out of \<open>SeedClient\<close>. The names the change notifier is
  called with are returned in order. The entry pointer of the source is an option, so a method call
  on a nil entry is the outcome \<open>Panic\<close>.
\<close>

type_synonym lookup = "Query \<Rightarrow> rpc_error list + LookupResult"

definition client_lookup :: "world \<Rightarrow> string list \<Rightarrow> SeedClient \<Rightarrow> cluster \<Rightarrow> lookup" where
  "client_lookup w order c cl q = lo_result (SeedClient_Lookup w order q c cl)"

section \<open>The cache\<close>

type_synonym cacheKey = "string \<times> string \<times> string"

record cacheEntry =
  ce_query :: Query
  ce_merged :: "ServiceEntry list"
  ce_index :: uint64
  ce_fetchedAt :: time

record Cache =
  ca_maxAge :: duration
  ca_onChange :: bool
  ca_entries :: "(cacheKey, cacheEntry) fmap"

abbreviation NUL :: string where
  "NUL \<equiv> [CHR 0x00]"

definition keyFor :: "Query \<Rightarrow> cacheKey" where
  "keyFor q = (q_Name q, q_Datacenter q, Join NUL (q_Tags q))"

definition NewCache :: "duration \<Rightarrow> bool \<Rightarrow> Cache" where
  "NewCache maxAge onChange =
     \<lparr>ca_maxAge = (if maxAge \<le> 0 then 5 * second else maxAge), ca_onChange = onChange, ca_entries = fmempty\<rparr>"

definition endpointChanged :: "ServiceEntry \<Rightarrow> ServiceEntry \<Rightarrow> bool" where
  "endpointChanged a b \<longleftrightarrow>
     s_Address (e_Service a) \<noteq> s_Address (e_Service b) \<or> s_Port (e_Service a) \<noteq> s_Port (e_Service b) \<or>
     s_Generation (e_Service a) \<noteq> s_Generation (e_Service b) \<or> e_Health a \<noteq> e_Health b"

definition cache_changed :: "cacheEntry option \<Rightarrow> cacheEntry \<Rightarrow> bool" where
  "cache_changed prev cur =
     (case prev of
        None \<Rightarrow> length (ce_merged cur) > 0
      | Some prev \<Rightarrow>
          if length (ce_merged prev) \<noteq> length (ce_merged cur) then True
          else list_ex (\<lambda>(a, b). n_ID (e_Node a) \<noteq> n_ID (e_Node b) \<or> s_ID (e_Service a) \<noteq> s_ID (e_Service b) \<or>
                 endpointChanged a b) (zip (ce_merged prev) (ce_merged cur)))"

definition raw_query :: "Query \<Rightarrow> Query" where
  "raw_query q = q\<lparr>q_OnlyHealthy := False\<rparr>"

definition Cache_fetch :: "lookup \<Rightarrow> time \<Rightarrow> Query \<Rightarrow> Cache
    \<Rightarrow> (rpc_error list + cacheEntry) \<times> string list \<times> Cache" where
  "Cache_fetch seeds now q c =
     (case seeds (raw_query q) of
        Inl err \<Rightarrow> (Inl err, [], c)
      | Inr lr \<Rightarrow>
          (let key = keyFor q;
               entry = \<lparr>ce_query = q, ce_merged = lr_Entries lr, ce_index = lr_Index lr, ce_fetchedAt = now\<rparr>;
               prev = fmlookup (ca_entries c) key;
               c' = c\<lparr>ca_entries := fmupd key entry (ca_entries c)\<rparr>
           in (Inr entry, if ca_onChange c \<and> cache_changed prev entry then [q_Name q] else [], c')))"

datatype served = Panic | Failed "rpc_error list" | Served LookupResult duration

text \<open>What is answered from an entry; \<open>now\<close> is the instant its age is read at.\<close>

definition serve_entry :: "time \<Rightarrow> Query \<Rightarrow> cacheEntry option \<Rightarrow> served" where
  "serve_entry now q eo =
     (case eo of
        None \<Rightarrow> Panic
      | Some e \<Rightarrow>
          Served \<lparr>lr_Entries = (if q_OnlyHealthy q then Filter (ce_merged e) passing_only else ce_merged e),
                  lr_Index = ce_index e\<rparr>
            (time_Sub now (ce_fetchedAt e)))"

text \<open>The clock is read when freshness is decided, when the fetched entry is stamped and when the age is taken.\<close>

definition LookupWithAge :: "lookup \<Rightarrow> time \<Rightarrow> time \<Rightarrow> time \<Rightarrow> Query \<Rightarrow> Cache \<Rightarrow> served \<times> string list \<times> Cache" where
  "LookupWithAge seeds t1 t2 t3 q c =
     (let key = keyFor q;
          eo = fmlookup (ca_entries c) key;
          fresh = (case eo of None \<Rightarrow> False | Some e \<Rightarrow> time_Sub t1 (ce_fetchedAt e) < ca_maxAge c) in
      if fresh then (serve_entry t3 q eo, [], c)
      else case Cache_fetch seeds t2 q c of
        (Inr e, names, c') \<Rightarrow> (serve_entry t3 q (Some e), names, c')
      | (Inl err, names, c') \<Rightarrow>
          if eo \<noteq> None then (serve_entry t3 q None, names, c')
          else (Failed err, names, c'))"

definition Cache_Lookup :: "lookup \<Rightarrow> time \<Rightarrow> time \<Rightarrow> time \<Rightarrow> Query \<Rightarrow> Cache \<Rightarrow> served \<times> string list \<times> Cache" where
  "Cache_Lookup seeds t1 t2 t3 q c =
     (case LookupWithAge seeds t1 t2 t3 q c of
        (Served lr _, names, c') \<Rightarrow> (Served lr 0, names, c')
      | r \<Rightarrow> r)"

fun refresh_loop :: "(time \<Rightarrow> lookup) \<Rightarrow> (Query \<Rightarrow> time) \<Rightarrow> Query list \<Rightarrow> Cache \<Rightarrow> string list \<times> Cache" where
  "refresh_loop seeds tick [] c = ([], c)"
| "refresh_loop seeds tick (q # queries) c =
     (case Cache_fetch (seeds (tick q)) (tick q) q c of
        (_, names, c') \<Rightarrow> (case refresh_loop seeds tick queries c' of (names', c'') \<Rightarrow> (names @ names', c'')))"

text \<open>\<open>order\<close> is the order in which the entries are visited.\<close>

definition Cache_Refresh :: "(time \<Rightarrow> lookup) \<Rightarrow> (Query \<Rightarrow> time) \<Rightarrow> cacheKey list \<Rightarrow> Cache \<Rightarrow> string list \<times> Cache" where
  "Cache_Refresh seeds tick order c =
     refresh_loop seeds tick (List.map_filter (\<lambda>k. map_option ce_query (fmlookup (ca_entries c) k)) order) c"

section \<open>Runs of the cache\<close>

text \<open>\<open>seeds t\<close> is what the seeds answer to the fetch stamped \<open>t\<close>.\<close>

inductive cache_step :: "(time \<Rightarrow> lookup) \<Rightarrow> Cache \<Rightarrow> Cache \<Rightarrow> bool" for seeds where
  lookup [step_intros]: "LookupWithAge (seeds t2) t1 t2 t3 q c = (out, names, c') \<Longrightarrow> cache_step seeds c c'"
| refresh [step_intros]: "Cache_Refresh seeds tick order c = (names, c') \<Longrightarrow> cache_step seeds c c'"

inductive cache_reach :: "(time \<Rightarrow> lookup) \<Rightarrow> duration \<Rightarrow> bool \<Rightarrow> Cache \<Rightarrow> bool" for seeds maxAge onChange where
  init [step_intros]: "cache_reach seeds maxAge onChange (NewCache maxAge onChange)"
| step [step_intros]: "cache_reach seeds maxAge onChange c \<Longrightarrow> cache_step seeds c c' \<Longrightarrow> cache_reach seeds maxAge onChange c'"

text \<open>Every entry is what the seeds answered when it was stamped, to a query with its key.\<close>

definition cached_ok :: "(time \<Rightarrow> lookup) \<Rightarrow> Cache \<Rightarrow> bool" where
  "cached_ok seeds c \<longleftrightarrow>
     (\<forall>k e. fmlookup (ca_entries c) k = Some e \<longrightarrow> keyFor (ce_query e) = k \<and>
        seeds (ce_fetchedAt e) (raw_query (ce_query e)) = Inr \<lparr>lr_Entries = ce_merged e, lr_Index = ce_index e\<rparr>)"

lemma cached_ok_fetch:
  assumes "Cache_fetch (seeds now) now q c = (r, names, c')" "cached_ok seeds c"
  shows "cached_ok seeds c' \<and> ca_maxAge c' = ca_maxAge c"
  using assms by (auto simp: Cache_fetch_def cached_ok_def Let_def split: sum.splits if_splits)

lemma cached_ok_refresh_loop:
  "refresh_loop seeds tick queries c = (names, c') \<Longrightarrow> cached_ok seeds c \<Longrightarrow> cached_ok seeds c' \<and> ca_maxAge c' = ca_maxAge c"
proof (induction queries arbitrary: c names)
  case (Cons q queries)
  obtain r n1 c1 where f: "Cache_fetch (seeds (tick q)) (tick q) q c = (r, n1, c1)" by (metis prod_cases3)
  then obtain n2 where l: "refresh_loop seeds tick queries c1 = (n2, c')"
    using Cons.prems(1) by (auto split: prod.splits)
  show ?case using Cons.IH [OF l] cached_ok_fetch [where seeds = seeds, OF f] Cons.prems(2) by simp
qed simp

lemma LookupWithAge_cache:
  "LookupWithAge seeds t1 t2 t3 q c = (out, names, c') \<Longrightarrow> c' = c \<or> (\<exists>r names. Cache_fetch seeds t2 q c = (r, names, c'))"
  by (auto simp: LookupWithAge_def Let_def split: if_splits prod.splits sum.splits)

lemma cached_ok_step: "cache_step seeds c c' \<Longrightarrow> cached_ok seeds c \<Longrightarrow> cached_ok seeds c' \<and> ca_maxAge c' = ca_maxAge c"
proof (induction rule: cache_step.induct)
  case (lookup t2 t1 t3 q c out names c')
  then show ?case using LookupWithAge_cache [OF lookup(1)] cached_ok_fetch by blast
next
  case (refresh tick order c names c')
  then show ?case using cached_ok_refresh_loop unfolding Cache_Refresh_def by blast
qed

lemma cached_ok_reach: "cache_reach seeds maxAge onChange c \<Longrightarrow>
    cached_ok seeds c \<and> ca_maxAge c = (if maxAge \<le> 0 then 5 * second else maxAge)"
proof (induction rule: cache_reach.induct)
  case init
  show ?case by (simp add: cached_ok_def NewCache_def)
next
  case (step c c')
  then show ?case using cached_ok_step [OF step(2)] by simp
qed

text \<open>A tag that can be told apart in the key: not empty and without a NUL.\<close>

definition plain_tag :: "string \<Rightarrow> bool" where
  "plain_tag t \<longleftrightarrow> t \<noteq> [] \<and> CHR 0x00 \<notin> set t"

lemma keyFor_inj:
  assumes "keyFor q = keyFor r" "list_all plain_tag (q_Tags q)" "list_all plain_tag (q_Tags r)"
  shows "raw_query q = raw_query r"
proof -
  have j: "Join NUL (q_Tags q) = Join NUL (q_Tags r)" using assms(1) by (simp add: keyFor_def)
  have split: "Split (CHR 0x00) (Join NUL ts) = ts" if "list_all plain_tag ts" "ts \<noteq> []" for ts
    using that by (intro Split_Join) (auto simp: list_all_iff plain_tag_def)
  have nil: "(Join NUL ts = []) = (ts = [])" if "list_all plain_tag ts" for ts
    using that by (cases ts; cases "tl ts") (auto simp: plain_tag_def)
  have "q_Tags q = q_Tags r"
  proof (cases "q_Tags q = []")
    case True
    then show ?thesis using nil [OF assms(3)] j by simp
  next
    case False
    then have "q_Tags r \<noteq> []" using nil [OF assms(2)] nil [OF assms(3)] j by simp
    then show ?thesis using split [OF assms(2) False] split [OF assms(3)] j by metis
  qed
  then show ?thesis using assms(1) by (simp add: keyFor_def raw_query_def)
qed

definition entries_plain :: "Cache \<Rightarrow> bool" where
  "entries_plain c \<longleftrightarrow> (\<forall>k e. fmlookup (ca_entries c) k = Some e \<longrightarrow> list_all plain_tag (q_Tags (ce_query e)))"

text \<open>What a read of \<open>q\<close> shows of an answer of the seeds to the unfiltered query.\<close>

definition view :: "Query \<Rightarrow> LookupResult \<Rightarrow> LookupResult" where
  "view q lr = (if q_OnlyHealthy q then lr\<lparr>lr_Entries := Filter (lr_Entries lr) passing_only\<rparr> else lr)"

lemma LookupResult_eta [simp]: "\<lparr>lr_Entries = lr_Entries lr, lr_Index = lr_Index lr\<rparr> = lr"
  by (cases lr) simp

lemma serve_entry_Some: "serve_entry t q (Some e) =
    Served (view q \<lparr>lr_Entries = ce_merged e, lr_Index = ce_index e\<rparr>) (time_Sub t (ce_fetchedAt e))"
  by (simp add: serve_entry_def view_def)

lemma serve_entry_None: "serve_entry t q None = Panic"
  by (simp add: serve_entry_def)

text \<open>
  C19 (bounds). Bounded staleness, on every cache that lookups and refreshes reach from an empty one: what a
  lookup serves is the health filter of what the seeds answered to the same query at one instant \<open>t\<close>,
  which lies less than the maximal age before the lookup or is the fetch of this very lookup, and the
  age it reports is measured from \<open>t\<close>. It fails exactly when nothing is cached for the query and the seeds do not
  answer. It panics exactly when an entry is cached that is too old and the seeds do not answer. Tags
  are assumed not to be empty or to contain a NUL, the separator of the cache key.
\<close>

theorem bounded_staleness:
  "cache_reach seeds maxAge onChange c \<Longrightarrow> entries_plain c \<Longrightarrow> list_all plain_tag (q_Tags q) \<Longrightarrow>
   LookupWithAge (seeds t2) t1 t2 t3 q c = (out, names, c') \<Longrightarrow>
   (\<forall>lr age. out = Served lr age \<longrightarrow>
      (\<exists>t raw. seeds t (raw_query q) = Inr raw \<and> lr = view q raw \<and> age = time_Sub t3 t \<and>
         (t = t2 \<or> time_Sub t1 t < (if maxAge \<le> 0 then 5 * second else maxAge)))) \<and>
   ((\<exists>err. out = Failed err) \<longleftrightarrow> fmlookup (ca_entries c) (keyFor q) = None \<and> isl (seeds t2 (raw_query q))) \<and>
   (out = Panic \<longleftrightarrow> (\<exists>e. fmlookup (ca_entries c) (keyFor q) = Some e \<and> time_Sub t1 (ce_fetchedAt e) \<ge> ca_maxAge c) \<and>
      isl (seeds t2 (raw_query q)))"
proof -
  assume reach: "cache_reach seeds maxAge onChange c" and plain: "entries_plain c" "list_all plain_tag (q_Tags q)"
    and run: "LookupWithAge (seeds t2) t1 t2 t3 q c = (out, names, c')"
  note ok = cached_ok_reach [OF reach]
  have hit: "seeds (ce_fetchedAt e) (raw_query q) = Inr \<lparr>lr_Entries = ce_merged e, lr_Index = ce_index e\<rparr>"
    if e: "fmlookup (ca_entries c) (keyFor q) = Some e" for e
  proof -
    have "list_all plain_tag (q_Tags (ce_query e))" using plain(1) e unfolding entries_plain_def by blast
    moreover have "keyFor (ce_query e) = keyFor q" using ok e by (metis cached_ok_def)
    ultimately have "raw_query (ce_query e) = raw_query q" using plain(2) by (intro keyFor_inj)
    then show ?thesis using ok e by (metis cached_ok_def)
  qed
  show ?thesis
  proof (cases "fmlookup (ca_entries c) (keyFor q)")
    case None
    then show ?thesis using run
      by (cases "seeds t2 (raw_query q)") (auto simp: LookupWithAge_def Cache_fetch_def serve_entry_Some Let_def intro!: exI [of _ t2])
  next
    case (Some e)
    show ?thesis
    proof (cases "time_Sub t1 (ce_fetchedAt e) < ca_maxAge c")
      case True
      then have "out = Served (view q \<lparr>lr_Entries = ce_merged e, lr_Index = ce_index e\<rparr>) (time_Sub t3 (ce_fetchedAt e))"
        using run Some by (simp add: LookupWithAge_def serve_entry_Some Let_def)
      then show ?thesis using hit [OF Some] ok True Some
        by (auto intro!: exI [of _ "ce_fetchedAt e"])
    next
      case False
      then show ?thesis using run Some
        by (cases "seeds t2 (raw_query q)")
           (auto simp: LookupWithAge_def Cache_fetch_def serve_entry_Some Let_def serve_entry_None intro!: exI [of _ t2])
    qed
  qed
qed

definition ex_seeds :: "time \<Rightarrow> lookup" where
  "ex_seeds t q = (if t < 1000 then Inr \<lparr>lr_Entries = [ex_entry ''n'' ''s'' ''web'' 1 9], lr_Index = 7\<rparr> else Inl [Unreachable])"

definition ex_warm :: "served \<times> string list \<times> Cache" where
  "ex_warm = LookupWithAge (ex_seeds 100) 100 100 100 ex_query (NewCache 50 True)"

lemma ex_warm_cache:
  "snd (snd ex_warm) = \<lparr>ca_maxAge = 50, ca_onChange = True, ca_entries = fmupd (keyFor ex_query)
     \<lparr>ce_query = ex_query, ce_merged = [ex_entry ''n'' ''s'' ''web'' 1 9], ce_index = 7, ce_fetchedAt = 100\<rparr> fmempty\<rparr>"
  by (simp add: ex_warm_def LookupWithAge_def Cache_fetch_def NewCache_def ex_seeds_def Let_def)

theorem bounded_staleness_witness:
  "(\<exists>lr. fst (LookupWithAge (ex_seeds 120) 120 120 120 ex_query (snd (snd ex_warm))) = Served lr 20 \<and>
      (\<exists>t raw. ex_seeds t (raw_query ex_query) = Inr raw \<and> lr = view ex_query raw \<and> (t = 120 \<or> time_Sub 120 t < 50))) \<and>
   fst (LookupWithAge (ex_seeds 2000) 2000 2000 2000 ex_query (snd (snd ex_warm))) = Panic"
proof -
  let ?c = "snd (snd ex_warm)"
  have "cache_step ex_seeds (NewCache 50 True) ?c"
    by (rule cache_step.lookup [of ex_seeds 100 100 100 ex_query _ "fst ex_warm" "fst (snd ex_warm)"]) (simp add: ex_warm_def)
  then have reach: "cache_reach ex_seeds 50 True ?c" using cache_reach.init cache_reach.step by metis
  have plain: "entries_plain ?c" "list_all plain_tag (q_Tags ex_query)"
    by (auto simp: entries_plain_def ex_warm_cache ex_query_def Query_zero_def split: if_splits)
  obtain out names c' where hit: "LookupWithAge (ex_seeds 120) 120 120 120 ex_query ?c = (out, names, c')" by (metis prod_cases3)
  have served: "out = Served (view ex_query \<lparr>lr_Entries = [ex_entry ''n'' ''s'' ''web'' 1 9], lr_Index = 7\<rparr>) 20"
    using hit by (simp add: ex_warm_cache LookupWithAge_def serve_entry_Some time_Sub_def max_duration_def min_duration_def Let_def)
  obtain out2 names2 c2 where miss: "LookupWithAge (ex_seeds 2000) 2000 2000 2000 ex_query ?c = (out2, names2, c2)" by (metis prod_cases3)
  have "out2 = Panic"
    using conjunct2 [OF conjunct2 [OF bounded_staleness [OF reach plain miss]]]
    by (simp add: ex_warm_cache time_Sub_def ex_seeds_def max_duration_def min_duration_def)
  then show ?thesis
    using conjunct1 [OF bounded_staleness [OF reach plain hit]] hit miss served by fastforce
qed

end
