(* ===== verification/Proxy.thy ===== *)
theory Proxy
  imports Cache
begin

text \<open>
  The agent: \<^verbatim>\<open>internal/seedclient/proxy.go\<close>, the service that local applications talk to,
  \<^verbatim>\<open>internal/seedclient/loops.go\<close>, one tick of each of its loops, and \<^verbatim>\<open>internal/federation/pool.go\<close>, the
  reads of other datacenters. An operation takes the world its calls to the seeds meet and the
  registries of the seeds, and returns them updated. \<open>perm\<close> gives the order in which a set of seeds
  answers a read. Its \<^verbatim>\<open>Watch\<close> is in \<open>AgentWatch\<close>.
\<close>

section \<open>Federation\<close>

record Pool =
  fp_local :: string
  fp_maxHops :: int
  fp_clients :: "(string, SeedClient) fmap"

fun pool_loop :: "(string \<Rightarrow> bool) \<Rightarrow> duration \<Rightarrow> string \<Rightarrow> (string \<times> string list) list
    \<Rightarrow> (string, SeedClient) fmap \<Rightarrow> (string \<times> NewError) + (string, SeedClient) fmap" where
  "pool_loop dial timeout local [] clients = Inr clients"
| "pool_loop dial timeout local ((dc, seeds) # dcs) clients =
     (if dc = local \<or> seeds = [] then pool_loop dial timeout local dcs clients
      else case SeedClient_New dial seeds timeout of
        Inl err \<Rightarrow> Inl (dc, err)
      | Inr c \<Rightarrow> pool_loop dial timeout local dcs (fmupd dc c clients))"

definition NewPool :: "(string \<Rightarrow> bool) \<Rightarrow> string \<Rightarrow> int \<Rightarrow> (string \<times> string list) list \<Rightarrow> duration
    \<Rightarrow> (string \<times> NewError) + Pool" where
  "NewPool dial local maxHops datacenters timeout =
     (let maxHops = (if maxHops \<le> 0 then 1 else maxHops) in
      case pool_loop dial timeout local datacenters fmempty of
        Inl err \<Rightarrow> Inl err
      | Inr clients \<Rightarrow> Inr \<lparr>fp_local = local, fp_maxHops = maxHops, fp_clients = clients\<rparr>)"

definition IsRemote :: "Pool \<Rightarrow> string \<Rightarrow> bool" where
  "IsRemote p dc = (if dc = [] \<or> dc = fp_local p then False else fmlookup (fp_clients p) dc \<noteq> None)"

definition LookupResult_zero :: LookupResult where
  "LookupResult_zero = \<lparr>lr_Entries = [], lr_Index = 0\<rparr>"

definition Pool_Resolve :: "world \<Rightarrow> (string list \<Rightarrow> string list) \<Rightarrow> cluster \<Rightarrow> string \<Rightarrow> Query \<Rightarrow> Pool
    \<Rightarrow> rpc_error list + LookupResult" where
  "Pool_Resolve w perm cl dc q p =
     (case fmlookup (fp_clients p) dc of
        None \<Rightarrow> Inr LookupResult_zero
      | Some c \<Rightarrow> client_lookup w (perm (sc_conns c)) c cl (q\<lparr>q_Datacenter := dc\<rparr>))"

definition Datacenters :: "Pool \<Rightarrow> string list" where
  "Datacenters p = range_keys (fp_clients p)"

section \<open>The agent\<close>

record Proxy =
  ag_client :: SeedClient
  ag_cache :: "Cache option"
  ag_federation :: "Pool option"
  ag_node :: Node
  ag_quorum :: int
  ag_hosted :: "(string, ServiceInstance) fmap"
  ag_gate :: "(string \<Rightarrow> bool) option"

datatype AgentError = AgentInvalid | AgentUnavailable nat nat

type_synonym agent = "Proxy \<times> cluster"

definition NewProxy :: "SeedClient \<Rightarrow> Node \<Rightarrow> int \<Rightarrow> Cache option \<Rightarrow> Pool option \<Rightarrow> Proxy" where
  "NewProxy client node quorum cache federation =
     \<lparr>ag_client = client, ag_cache = cache, ag_federation = federation, ag_node = node,
      ag_quorum = (if quorum < 1 then 1 else quorum), ag_hosted = fmempty, ag_gate = None\<rparr>"

definition SetCheckGate :: "(string \<Rightarrow> bool) option \<Rightarrow> Proxy \<Rightarrow> Proxy" where
  "SetCheckGate fn p = p\<lparr>ag_gate := fn\<rparr>"

definition unless_ok :: "WriteResult \<Rightarrow> int \<Rightarrow> AgentError option" where
  "unless_ok res k = (if \<not> WriteResult_OK res k then Some (AgentUnavailable (wr_Succeeded res) (wr_Total res)) else None)"

definition KeepAlive :: "world \<Rightarrow> string \<Rightarrow> agent \<Rightarrow> AgentError option \<times> agent" where
  "KeepAlive w serviceID a =
     (case a of (p, cl) \<Rightarrow>
        case fmlookup (ag_hosted p) serviceID of
          None \<Rightarrow> (None, p, cl)
        | Some svc \<Rightarrow>
            (case SeedClient_Register w \<lparr>r_Node = ag_node p, r_Services = [svc], r_Generation = s_Generation svc\<rparr>
                    (ag_client p) cl of
               (res, cl') \<Rightarrow> (unless_ok res (ag_quorum p), p, cl')))"

text \<open>The checks of a registration, which also give every service an id.\<close>

fun check_services :: "ServiceInstance list \<Rightarrow> ServiceInstance list option" where
  "check_services [] = Some []"
| "check_services (s # ss) =
     (if s_Name s = [] then None
      else case check_services ss of
        None \<Rightarrow> None
      | Some ss' \<Rightarrow> Some ((if s_ID s = [] then s\<lparr>s_ID := s_Name s\<rparr> else s) # ss'))"

definition RegisterServices :: "world \<Rightarrow> Registration \<Rightarrow> agent \<Rightarrow> AgentError option \<times> agent" where
  "RegisterServices w reg a =
     (case a of (p, cl) \<Rightarrow>
        if r_Services reg = [] then (Some AgentInvalid, p, cl)
        else case check_services (r_Services reg) of
          None \<Rightarrow> (Some AgentInvalid, p, cl)
        | Some services \<Rightarrow>
            (let reg = reg\<lparr>r_Node := ag_node p, r_Services := services\<rparr> in
             case SeedClient_Register w reg (ag_client p) cl of (res, cl') \<Rightarrow>
               if \<not> WriteResult_OK res (ag_quorum p)
               then (Some (AgentUnavailable (wr_Succeeded res) (wr_Total res)), p, cl')
               else (None,
                 p\<lparr>ag_hosted := fold (\<lambda>s. fmupd (s_ID s) (s\<lparr>s_Generation := r_Generation reg\<rparr>)) services (ag_hosted p)\<rparr>,
                 cl')))"

definition Proxy_Register :: "world \<Rightarrow> pb_Registration option \<Rightarrow> agent \<Rightarrow> AgentError option \<times> agent" where
  "Proxy_Register w reg = RegisterServices w (RegistrationFromProto reg)"

definition Proxy_Renew :: "world \<Rightarrow> string list \<Rightarrow> agent \<Rightarrow> AgentError option \<times> agent" where
  "Proxy_Renew w serviceIDs a =
     (case a of (p, cl) \<Rightarrow>
        case SeedClient_Renew w (n_ID (ag_node p)) serviceIDs (ag_client p) cl of (res, cl') \<Rightarrow> (unless_ok res 1, p, cl'))"

definition Proxy_Deregister :: "world \<Rightarrow> agent \<Rightarrow> AgentError option \<times> agent" where
  "Proxy_Deregister w a =
     (case a of (p, cl) \<Rightarrow>
        case SeedClient_Deregister w (n_ID (ag_node p)) (ag_client p) cl of (res, cl') \<Rightarrow>
          (unless_ok res 1, p\<lparr>ag_hosted := fmempty\<rparr>, cl'))"

definition RemoveService :: "world \<Rightarrow> string \<Rightarrow> agent \<Rightarrow> AgentError option \<times> agent" where
  "RemoveService w serviceID a =
     (case a of (p, cl) \<Rightarrow>
        if serviceID = [] then (Some AgentInvalid, p, cl)
        else case SeedClient_DeregisterService w (n_ID (ag_node p)) serviceID (ag_client p) cl of (res, cl') \<Rightarrow>
          (unless_ok res 1, p\<lparr>ag_hosted := fmdrop serviceID (ag_hosted p)\<rparr>, cl'))"

definition Proxy_DeregisterService :: "world \<Rightarrow> string \<Rightarrow> agent \<Rightarrow> AgentError option \<times> agent" where
  "Proxy_DeregisterService w serviceID = RemoveService w serviceID"

definition RenewService :: "world \<Rightarrow> string \<Rightarrow> agent \<Rightarrow> AgentError option \<times> agent" where
  "RenewService w serviceID = Proxy_Renew w [serviceID]"

definition FailService :: "string \<Rightarrow> agent \<Rightarrow> AgentError option \<times> agent" where
  "FailService serviceID a = (None, a)"

definition Proxy_SetMaintenance :: "string \<Rightarrow> bool \<Rightarrow> agent \<Rightarrow> AgentError option \<times> agent" where
  "Proxy_SetMaintenance serviceID enabled a = (None, a)"

definition Proxy_Dump :: "world \<Rightarrow> Query \<Rightarrow> agent \<Rightarrow> (string, ServiceEntry list) fmap" where
  "Proxy_Dump w q a = (case a of (p, cl) \<Rightarrow> SeedClient_Dump w q (ag_client p) cl)"

definition RegisterExternal :: "world \<Rightarrow> Registration \<Rightarrow> agent \<Rightarrow> AgentError option \<times> agent" where
  "RegisterExternal w reg a =
     (case a of (p, cl) \<Rightarrow>
        case SeedClient_Register w reg (ag_client p) cl of (res, cl') \<Rightarrow> (unless_ok res 1, p, cl'))"

definition RemoveNode :: "world \<Rightarrow> string \<Rightarrow> agent \<Rightarrow> AgentError option \<times> agent" where
  "RemoveNode w nodeID a =
     (case a of (p, cl) \<Rightarrow> case SeedClient_Deregister w nodeID (ag_client p) cl of (res, cl') \<Rightarrow> (None, p, cl'))"

definition Hosted :: "Proxy \<Rightarrow> ServiceInstance list" where
  "Hosted p = range_values (ag_hosted p)"

definition hostedCount :: "Proxy \<Rightarrow> nat" where
  "hostedCount p = fmlen (ag_hosted p)"

section \<open>Reads of the agent\<close>

definition local_lookup :: "world \<Rightarrow> (string list \<Rightarrow> string list) \<Rightarrow> agent \<Rightarrow> lookup" where
  "local_lookup w perm a = client_lookup w (perm (sc_conns (ag_client (fst a)))) (ag_client (fst a)) (snd a)"

definition directLookup :: "lookup \<Rightarrow> Query \<Rightarrow> rpc_error list + LookupResult" where
  "directLookup seeds q =
     (case seeds (raw_query q) of
        Inl err \<Rightarrow> Inl err
      | Inr lr \<Rightarrow> Inr (if q_OnlyHealthy q then lr\<lparr>lr_Entries := Filter (lr_Entries lr) passing_only\<rparr> else lr))"

definition served_of :: "rpc_error list + LookupResult \<Rightarrow> served" where
  "served_of r = (case r of Inl err \<Rightarrow> Failed err | Inr lr \<Rightarrow> Served lr 0)"

definition set_cache :: "Cache \<Rightarrow> agent \<Rightarrow> agent" where
  "set_cache c a = ((fst a)\<lparr>ag_cache := Some c\<rparr>, snd a)"

definition Proxy_Resolve :: "world \<Rightarrow> (string list \<Rightarrow> string list) \<Rightarrow> time \<Rightarrow> time \<Rightarrow> time \<Rightarrow> Query \<Rightarrow> Consistency \<Rightarrow> agent
    \<Rightarrow> served \<times> string list \<times> agent" where
  "Proxy_Resolve w perm t1 t2 t3 q mode a =
     (let p = fst a; seeds = local_lookup w perm a;
          direct = (served_of (directLookup seeds q), [], a);
          via_cache = (case ag_cache p of
              None \<Rightarrow> direct
            | Some c \<Rightarrow> if mode = ConsistencyConsistent then direct
                else (case LookupWithAge seeds t1 t2 t3 q c of (out, names, c') \<Rightarrow> (out, names, set_cache c' a)))
      in case ag_federation p of
           None \<Rightarrow> via_cache
         | Some f \<Rightarrow> if IsRemote f (q_Datacenter q)
             then (served_of (Pool_Resolve w perm (snd a) (q_Datacenter q) q f), [], a)
             else via_cache)"

text \<open>\<^verbatim>\<open>lookup\<close> reads through the cache when there is one; it does not federate.\<close>

definition Proxy_lookup :: "world \<Rightarrow> (string list \<Rightarrow> string list) \<Rightarrow> time \<Rightarrow> time \<Rightarrow> time \<Rightarrow> Query \<Rightarrow> agent
    \<Rightarrow> served \<times> string list \<times> agent" where
  "Proxy_lookup w perm t1 t2 t3 q a =
     (case ag_cache (fst a) of
        None \<Rightarrow> (served_of (directLookup (local_lookup w perm a) q), [], a)
      | Some c \<Rightarrow> (case Cache_Lookup (local_lookup w perm a) t1 t2 t3 q c of (out, names, c') \<Rightarrow> (out, names, set_cache c' a)))"

datatype wire_answer = WirePanic | WireUnavailable | WireAnswer pb_LookupResponse

definition Proxy_Lookup :: "world \<Rightarrow> (string list \<Rightarrow> string list) \<Rightarrow> time \<Rightarrow> time \<Rightarrow> time \<Rightarrow> pb_Query option \<Rightarrow> agent
    \<Rightarrow> wire_answer \<times> string list \<times> agent" where
  "Proxy_Lookup w perm t1 t2 t3 req a =
     (case Proxy_lookup w perm t1 t2 t3 (QueryFromProto req) a of
        (Panic, names, a') \<Rightarrow> (WirePanic, names, a')
      | (Failed _, names, a') \<Rightarrow> (WireUnavailable, names, a')
      | (Served lr _, names, a') \<Rightarrow> (WireAnswer (LookupResultToProto lr), names, a'))"

definition entries_contain :: "ServiceEntry list \<Rightarrow> string \<Rightarrow> string \<Rightarrow> bool" where
  "entries_contain entries nodeID serviceID =
     list_ex (\<lambda>e. n_ID (e_Node e) = nodeID \<and> s_ID (e_Service e) = serviceID) entries"

text \<open>The polls of the propagation probe before its deadline, each with the time it took so far: the latency it records.\<close>

fun measurePropagation :: "string \<Rightarrow> string \<Rightarrow> bool \<Rightarrow> (duration \<times> (rpc_error list + LookupResult)) list \<Rightarrow> duration option" where
  "measurePropagation nodeID serviceID appear [] = None"
| "measurePropagation nodeID serviceID appear ((d, r) # polls) =
     (case r of
        Inr lr \<Rightarrow> if entries_contain (lr_Entries lr) nodeID serviceID = appear then Some d
                  else measurePropagation nodeID serviceID appear polls
      | Inl _ \<Rightarrow> measurePropagation nodeID serviceID appear polls)"

section \<open>The loops\<close>

text \<open>\<open>order\<close> is the order in which the hosted services are visited.\<close>

definition renewAll :: "world \<Rightarrow> string list \<Rightarrow> agent \<Rightarrow> WriteResult \<times> agent" where
  "renewAll w order a =
     (case a of (p, cl) \<Rightarrow>
        case ag_gate p of
          None \<Rightarrow> (case SeedClient_Renew w (n_ID (ag_node p)) [] (ag_client p) cl of (res, cl') \<Rightarrow> (res, p, cl'))
        | Some gate \<Rightarrow>
            (let ids = filter (\<lambda>i. \<not> gate i) order in
             if length ids = 0 then (WriteResult_zero, p, cl)
             else case SeedClient_Renew w (n_ID (ag_node p)) ids (ag_client p) cl of (res, cl') \<Rightarrow> (res, p, cl')))"

definition renewOnce :: "world \<Rightarrow> string list \<Rightarrow> agent \<Rightarrow> agent" where
  "renewOnce w order a = (if hostedCount (fst a) = 0 then a else snd (renewAll w order a))"

definition NewReadinessProbe :: "int \<Rightarrow> int" where
  "NewReadinessProbe minSeeds = (if minSeeds < 1 then 1 else minSeeds)"

text \<open>One probe; a cancelled context leaves the gate as it is.\<close>

definition readiness_probe :: "(string \<Rightarrow> bool) \<Rightarrow> bool \<Rightarrow> SeedClient \<Rightarrow> int \<Rightarrow> bool \<Rightarrow> bool" where
  "readiness_probe serving cancelled c minSeeds ready =
     (let reachable = SeedClient_Reachable serving c in
      if cancelled then ready else int reachable \<ge> minSeeds)"

definition Deregistrar_Stop :: "world \<Rightarrow> string \<Rightarrow> SeedClient \<Rightarrow> cluster \<Rightarrow> cluster" where
  "Deregistrar_Stop w nodeID c cl = snd (SeedClient_Deregister w nodeID c cl)"

end
