(* ===== verification/Agent.thy ===== *)
theory Agent
  imports Proxy
begin

text \<open>
  The properties of the agent: what it hosts and what its registrations leave on the seeds, that a
  read after a registered write sees it, what the renew loop can and cannot do, the drain at shutdown
  and the reads of other datacenters.
\<close>

section \<open>Hosted services\<close>

lemma check_services_iff: "check_services ss = None \<longleftrightarrow> (\<exists>s\<in>set ss. s_Name s = [])"
  by (induction ss) (auto split: option.splits)

lemma check_services_Some:
  "check_services ss = Some ts \<Longrightarrow> ts = map (\<lambda>s. s\<lparr>s_ID := svc_id s\<rparr>) ss \<and> (\<forall>t\<in>set ts. s_ID t \<noteq> [] \<and> s_Name t \<noteq> [])"
proof (induction ss arbitrary: ts)
  case (Cons s ss)
  then obtain us where us: "check_services ss = Some us" "s_Name s \<noteq> []"
    "ts = (if s_ID s = [] then s\<lparr>s_ID := s_Name s\<rparr> else s) # us"
    by (auto split: if_splits option.splits)
  have "(if s_ID s = [] then s\<lparr>s_ID := s_Name s\<rparr> else s) = s\<lparr>s_ID := svc_id s\<rparr>" by (simp add: svc_id_def)
  moreover have "svc_id s \<noteq> []" using us(2) by (simp add: svc_id_def)
  ultimately show ?case using Cons.IH [OF us(1)] us(2,3) by simp
qed simp

definition hosting :: "(string, ServiceInstance) fmap \<Rightarrow> bool" where
  "hosting h \<longleftrightarrow> (\<forall>k s. fmlookup h k = Some s \<longrightarrow> s_ID s = k \<and> k \<noteq> [] \<and> s_Name s \<noteq> [])"

lemma hosting_fold:
  "\<forall>s\<in>set ss. s_ID s \<noteq> [] \<and> s_Name s \<noteq> [] \<Longrightarrow> hosting h \<Longrightarrow>
   hosting (fold (\<lambda>s. fmupd (s_ID s) (s\<lparr>s_Generation := g\<rparr>)) ss h)"
proof (induction ss arbitrary: h)
  case (Cons s ss)
  have "hosting (fmupd (s_ID s) (s\<lparr>s_Generation := g\<rparr>) h)" using Cons.prems by (simp add: hosting_def)
  from Cons.IH [OF _ this] show ?case using Cons.prems(1) by simp
qed simp

lemma hosting_drop: "hosting h \<Longrightarrow> hosting (fmdrop k h)"
  by (auto simp: hosting_def)

lemma hosting_empty: "hosting fmempty"
  by (simp add: hosting_def)

lemma hosted_fold_lookup:
  "distinct (map s_ID ss) \<Longrightarrow> fmlookup (fold (\<lambda>s. fmupd (s_ID s) (f s)) ss h) k =
     (case find (\<lambda>s. s_ID s = k) ss of Some s \<Rightarrow> Some (f s) | None \<Rightarrow> fmlookup h k)"
proof (induction ss arbitrary: h)
  case (Cons s ss)
  have "find (\<lambda>t. s_ID t = s_ID s) ss = None" using Cons.prems by (auto simp: find_None_iff image_iff)
  then show ?case using Cons by (auto split: option.splits)
qed simp

text \<open>The operations of the agent, on any world.\<close>

inductive agent_step :: "agent \<Rightarrow> agent \<Rightarrow> bool" where
  register [step_intros]: "RegisterServices w reg a = (err, a') \<Longrightarrow> agent_step a a'"
| keep_alive [step_intros]: "KeepAlive w sid a = (err, a') \<Longrightarrow> agent_step a a'"
| renew [step_intros]: "Proxy_Renew w ids a = (err, a') \<Longrightarrow> agent_step a a'"
| deregister [step_intros]: "Proxy_Deregister w a = (err, a') \<Longrightarrow> agent_step a a'"
| remove_service [step_intros]: "RemoveService w sid a = (err, a') \<Longrightarrow> agent_step a a'"
| register_external [step_intros]: "RegisterExternal w reg a = (err, a') \<Longrightarrow> agent_step a a'"
| remove_node [step_intros]: "RemoveNode w nid a = (err, a') \<Longrightarrow> agent_step a a'"
| gate [step_intros]: "agent_step (p, cl) (SetCheckGate fn p, cl)"
| resolve [step_intros]: "Proxy_Resolve w perm t1 t2 t3 q mode a = (out, names, a') \<Longrightarrow> agent_step a a'"
| lookup [step_intros]: "Proxy_lookup w perm t1 t2 t3 q a = (out, names, a') \<Longrightarrow> agent_step a a'"
| renew_tick [step_intros]: "agent_step a (renewOnce w order a)"
| seeds [step_intros]: "agent_step (p, cl) (p, cl')"

inductive agent_reach :: "SeedClient \<Rightarrow> Node \<Rightarrow> int \<Rightarrow> Cache option \<Rightarrow> Pool option \<Rightarrow> agent \<Rightarrow> bool"
  for client node quorum cache fed where
  init [step_intros]: "agent_reach client node quorum cache fed (NewProxy client node quorum cache fed, cl)"
| step [step_intros]: "agent_reach client node quorum cache fed a \<Longrightarrow> agent_step a a' \<Longrightarrow> agent_reach client node quorum cache fed a'"

definition same_identity :: "Proxy \<Rightarrow> Proxy \<Rightarrow> bool" where
  "same_identity p p' \<longleftrightarrow> ag_client p' = ag_client p \<and> ag_node p' = ag_node p \<and> ag_quorum p' = ag_quorum p \<and>
     ag_federation p' = ag_federation p"

lemma agent_step_ok: "agent_step a a' \<Longrightarrow> hosting (ag_hosted (fst a)) \<Longrightarrow> hosting (ag_hosted (fst a')) \<and> same_identity (fst a) (fst a')"
proof (induction rule: agent_step.induct)
  case (register w reg a err a')
  obtain p cl where a: "a = (p, cl)" by fastforce
  show ?case
  proof (cases "check_services (r_Services reg)")
    case (Some ts)
    have "hosting (fold (\<lambda>s. fmupd (s_ID s) (s\<lparr>s_Generation := g\<rparr>)) ts (ag_hosted p))" for g
      using register(2) check_services_Some [OF Some] a by (intro hosting_fold) auto
    then show ?thesis using register a Some
      by (auto simp: RegisterServices_def same_identity_def Let_def split: if_splits prod.splits)
  qed (use register a in \<open>auto simp: RegisterServices_def same_identity_def split: if_splits\<close>)
qed (auto simp: KeepAlive_def Proxy_Renew_def Proxy_Deregister_def RemoveService_def RegisterExternal_def RemoveNode_def
    SetCheckGate_def Proxy_Resolve_def Proxy_lookup_def renewOnce_def renewAll_def set_cache_def same_identity_def hosting_drop hosting_empty Let_def
    split: option.splits prod.splits if_splits)

lemma same_identity_trans: "same_identity a b \<Longrightarrow> same_identity b c \<Longrightarrow> same_identity a c"
  by (simp add: same_identity_def)

text \<open>
  Whatever operations an agent runs and whatever becomes of its seeds: it hosts every
  service under its own id, with an id and a name that are not empty; its seeds, node identity and
  remote datacenters are those it was started with; and its write quorum is at least one.
\<close>

theorem agent_invariant:
  "agent_reach client node quorum cache fed (p, cl) \<Longrightarrow>
   hosting (ag_hosted p) \<and> ag_client p = client \<and> ag_node p = node \<and> ag_federation p = fed \<and> ag_quorum p = max 1 quorum"
proof -
  have "hosting (ag_hosted (fst a)) \<and> same_identity (NewProxy client node quorum cache fed) (fst a)"
    if "agent_reach client node quorum cache fed a" for a
    using that
  proof (induction rule: agent_reach.induct)
    case (init cl)
    show ?case by (simp add: NewProxy_def same_identity_def hosting_empty)
  next
    case (step a a')
    then show ?case using agent_step_ok [OF step(2)] same_identity_trans by blast
  qed
  from this [of "(p, cl)"] show "agent_reach client node quorum cache fed (p, cl) \<Longrightarrow> ?thesis"
    by (simp add: same_identity_def NewProxy_def)
qed

definition ex_proxy :: Proxy where
  "ex_proxy = NewProxy ex_client (ex_node ''n1'') 2 None None"

definition ex_up :: "string \<Rightarrow> link" where
  "ex_up = (\<lambda>a. if a = ''a'' then Down else Up)"

definition ex_registered :: "AgentError option \<times> agent" where
  "ex_registered = RegisterServices (seeds_run (\<lambda>_. 100) (\<lambda>_. 100) (\<lambda>_. []) ex_up) ex_reg (ex_proxy, ex_cluster)"

theorem agent_invariant_witness:
  "hosting (ag_hosted (fst (snd ex_registered))) \<and> ag_quorum (fst (snd ex_registered)) = 2 \<and>
   range_keys (ag_hosted (fst (snd ex_registered))) = [''s1'', ''s2'']"
proof -
  have "agent_step (ex_proxy, ex_cluster) (snd ex_registered)"
    by (rule agent_step.register [of "seeds_run (\<lambda>_. 100) (\<lambda>_. 100) (\<lambda>_. []) ex_up" ex_reg _ "fst ex_registered"])
       (simp add: ex_registered_def)
  then have "agent_reach ex_client (ex_node ''n1'') 2 None None (fst (snd ex_registered), snd (snd ex_registered))"
    using agent_reach.step [OF agent_reach.init] by (simp add: ex_proxy_def)
  from agent_invariant [OF this] have "hosting (ag_hosted (fst (snd ex_registered)))" "ag_quorum (fst (snd ex_registered)) = 2"
    by simp_all
  moreover have "range_keys (ag_hosted (fst (snd ex_registered))) = [''s1'', ''s2'']" by code_simp
  ultimately show ?thesis by simp
qed

section \<open>Registering through the agent\<close>

definition stamped :: "Proxy \<Rightarrow> Registration \<Rightarrow> Registration" where
  "stamped p reg = reg\<lparr>r_Node := ag_node p, r_Services := map (\<lambda>s. s\<lparr>s_ID := svc_id s\<rparr>) (r_Services reg)\<rparr>"

lemma RegisterServices_valid:
  assumes "r_Services reg \<noteq> []" "\<forall>s\<in>set (r_Services reg). s_Name s \<noteq> []"
  shows "RegisterServices w reg (p, cl) =
    (case SeedClient_Register w (stamped p reg) (ag_client p) cl of (res, cl') \<Rightarrow>
       if \<not> WriteResult_OK res (ag_quorum p) then (Some (AgentUnavailable (wr_Succeeded res) (wr_Total res)), p, cl')
       else (None, p\<lparr>ag_hosted := fold (\<lambda>s. fmupd (s_ID s) (s\<lparr>s_Generation := r_Generation reg\<rparr>))
               (r_Services (stamped p reg)) (ag_hosted p)\<rparr>, cl'))"
proof -
  obtain ts where "check_services (r_Services reg) = Some ts"
    using check_services_iff [of "r_Services reg"] assms(2) by fastforce
  with check_services_Some [OF this] show ?thesis
    using assms(1) by (auto simp: RegisterServices_def stamped_def Let_def split: prod.splits)
qed

lemma RegisterServices_invalid:
  "r_Services reg = [] \<or> (\<exists>s\<in>set (r_Services reg). s_Name s = []) \<Longrightarrow> RegisterServices w reg a = (Some AgentInvalid, a)"
  using check_services_iff [of "r_Services reg"] by (cases a) (auto simp: RegisterServices_def)

lemma svc_id_stamped: "svc_id (s\<lparr>s_ID := svc_id s\<rparr>) = svc_id s"
  by (simp add: svc_id_def)

text \<open>
  C23 (error). A registration at the agent is refused, and changes neither the agent nor a seed, exactly
  when it names no service or an unnamed one. Otherwise it is sent to every seed under the agent's
  own node, whatever node it was asked for; the agent answers success exactly when the seeds that
  accepted it reach the quorum, and only then hosts the services, each under its id with the
  generation registered; the error else tells how many accepted it.
\<close>

theorem agent_registers:
  "distinct (map svc_id (r_Services reg)) \<Longrightarrow> RegisterServices w reg (p, cl) = (err, p', cl') \<Longrightarrow>
   SeedClient_Register w (stamped p reg) (ag_client p) cl = (res, written) \<Longrightarrow>
   (err = Some AgentInvalid \<longleftrightarrow> r_Services reg = [] \<or> (\<exists>s\<in>set (r_Services reg). s_Name s = [])) \<and>
   (err = Some AgentInvalid \<longrightarrow> p' = p \<and> cl' = cl) \<and>
   (err \<noteq> Some AgentInvalid \<longrightarrow> cl' = written \<and>
      (err = None \<longleftrightarrow> int (wr_Succeeded res) \<ge> ag_quorum p) \<and>
      (err \<noteq> None \<longrightarrow> err = Some (AgentUnavailable (wr_Succeeded res) (wr_Total res)) \<and> p' = p)) \<and>
   (err = None \<longrightarrow> (\<forall>s\<in>set (r_Services reg).
      fmlookup (ag_hosted p') (svc_id s) = Some (s\<lparr>s_ID := svc_id s, s_Generation := r_Generation reg\<rparr>)) \<and>
      (\<forall>k. k \<notin> svc_id ` set (r_Services reg) \<longrightarrow> fmlookup (ag_hosted p') k = fmlookup (ag_hosted p) k))"
proof -
  assume d: "distinct (map svc_id (r_Services reg))" and run: "RegisterServices w reg (p, cl) = (err, p', cl')"
    and res: "SeedClient_Register w (stamped p reg) (ag_client p) cl = (res, written)"
  show ?thesis
  proof (cases "r_Services reg = [] \<or> (\<exists>s\<in>set (r_Services reg). s_Name s = [])")
    case True
    then show ?thesis using RegisterServices_invalid [of reg w "(p, cl)"] run by simp
  next
    case False
    let ?ss = "map (\<lambda>s. s\<lparr>s_ID := svc_id s\<rparr>) (r_Services reg)"
    have dd: "distinct (map s_ID ?ss)" using d by (simp add: comp_def)
    have look: "fmlookup (fold (\<lambda>s. fmupd (s_ID s) (f s)) ?ss h) k =
        (case find (\<lambda>s. svc_id s = k) (r_Services reg) of Some s \<Rightarrow> Some (f (s\<lparr>s_ID := svc_id s\<rparr>)) | None \<Rightarrow> fmlookup h k)"
      for f :: "ServiceInstance \<Rightarrow> ServiceInstance" and h k
    proof -
      have "find (\<lambda>s. s_ID s = k) (map (\<lambda>s. s\<lparr>s_ID := svc_id s\<rparr>) xs) =
          map_option (\<lambda>s. s\<lparr>s_ID := svc_id s\<rparr>) (find (\<lambda>s. svc_id s = k) xs)" for xs
        by (induction xs) auto
      then show ?thesis unfolding hosted_fold_lookup [OF dd] by (simp split: option.splits)
    qed
    have found: "find (\<lambda>t. svc_id t = svc_id s) (r_Services reg) = Some s" if "s \<in> set (r_Services reg)" for s
      using find_unique_key [OF d that] .
    have none: "find (\<lambda>t. svc_id t = k) (r_Services reg) = None" if "k \<notin> svc_id ` set (r_Services reg)" for k
      using that by (auto simp: find_None_iff)
    have valid: "r_Services reg \<noteq> []" "\<forall>s\<in>set (r_Services reg). s_Name s \<noteq> []" using False by auto
    have "RegisterServices w reg (p, cl) =
        (if int (wr_Succeeded res) \<ge> ag_quorum p
         then (None, p\<lparr>ag_hosted := fold (\<lambda>s. fmupd (s_ID s) (s\<lparr>s_Generation := r_Generation reg\<rparr>)) ?ss (ag_hosted p)\<rparr>, written)
         else (Some (AgentUnavailable (wr_Succeeded res) (wr_Total res)), p, written))"
      unfolding RegisterServices_valid [OF valid] res by (simp add: WriteResult_OK_def stamped_def)
    then have out: "(err, p', cl') =
        (if int (wr_Succeeded res) \<ge> ag_quorum p
         then (None, p\<lparr>ag_hosted := fold (\<lambda>s. fmupd (s_ID s) (s\<lparr>s_Generation := r_Generation reg\<rparr>)) ?ss (ag_hosted p)\<rparr>, written)
         else (Some (AgentUnavailable (wr_Succeeded res) (wr_Total res)), p, written))"
      using run by simp
    then have "fmlookup (ag_hosted p') k = (case find (\<lambda>s. svc_id s = k) (r_Services reg) of
        Some s \<Rightarrow> Some (s\<lparr>s_ID := svc_id s, s_Generation := r_Generation reg\<rparr>) | None \<Rightarrow> fmlookup (ag_hosted p) k)"
      if "err = None" for k
      using that look by (auto split: if_splits)
    then show ?thesis using out False by (auto simp: found none split: if_splits)
  qed
qed

lemma ex_registered_run:
  "RegisterServices (seeds_run (\<lambda>_. 100) (\<lambda>_. 100) (\<lambda>_. []) ex_up) ex_reg (ex_proxy, ex_cluster) =
     (None, fst (snd ex_registered), snd (snd ex_registered))"
proof -
  have "fst ex_registered = None" by code_simp
  then show ?thesis by (simp add: ex_registered_def prod_eq_iff)
qed

lemma ex_reg_ids: "distinct (map svc_id (r_Services ex_reg))"
  by (simp add: ex_reg_def svc_id_def)

theorem agent_registers_witness:
  "fst ex_registered = None \<and> fmlookup (ag_hosted (fst (snd ex_registered))) ''s1'' = Some (ex_svc ''s1'' ''web'' 1 0)"
proof -
  obtain res written where
    w: "SeedClient_Register (seeds_run (\<lambda>_. 100) (\<lambda>_. 100) (\<lambda>_. []) ex_up) (stamped ex_proxy ex_reg) (ag_client ex_proxy) ex_cluster = (res, written)"
    by fastforce
  have "fst ex_registered = None" by code_simp
  moreover have "\<forall>s\<in>set (r_Services ex_reg). fmlookup (ag_hosted (fst (snd ex_registered))) (svc_id s) =
      Some (s\<lparr>s_ID := svc_id s, s_Generation := r_Generation ex_reg\<rparr>)"
    using agent_registers [OF ex_reg_ids ex_registered_run w] by blast
  ultimately show ?thesis by (simp add: ex_reg_def svc_id_def ex_svc_def)
qed

section \<open>Reading what was registered\<close>

lemma client_lookup_run:
  "client_lookup w order c cl q = lo_result (SeedClient_Lookup w order q c cl)"
  by (simp add: client_lookup_def)

text \<open>
  C18 (safety). Read your writes through the agent: after a registration that the agent answered with success, a consistent read that
  reaches more seeds than all seeds less the quorum serves every registered service the query asks for,
  in the registered generation or a newer one, while its lease lasts. It is not answered from the cache.
\<close>

theorem agent_read_your_writes:
  "distinct (sc_conns (ag_client p)) \<Longrightarrow> \<forall>a. registry_ok (cl a) \<Longrightarrow> \<forall>xs. set (perm xs) = set xs \<Longrightarrow>
   distinct (map svc_id (r_Services reg)) \<Longrightarrow> s \<in> set (r_Services reg) \<Longrightarrow>
   RegisterServices (seeds_run now evclk ord lk) reg (p, cl) = (None, p', cl') \<Longrightarrow>
   ag_federation p = None \<or> q_Datacenter q = [] \<Longrightarrow> \<not> q_OnlyHealthy q \<Longrightarrow> q_Name q \<in> {[], s_Name s} \<Longrightarrow>
   q_Datacenter q \<in> {[], n_Datacenter (ag_node p)} \<Longrightarrow> set (q_Tags q) \<subseteq> set (s_Tags s) \<Longrightarrow>
   \<forall>a. time_Sub (now' a) (now a) \<le> clampTTL (m_opts (cl a)) (wire_ttl (s_TTL s)) \<Longrightarrow>
   ag_quorum p + int (card {a \<in> set (sc_conns (ag_client p)). lk' a = Up}) > int (length (sc_conns (ag_client p))) \<Longrightarrow>
   \<exists>lr. fst (Proxy_Resolve (seeds_run now' evclk' ord' lk') perm t1 t2 t3 q ConsistencyConsistent (p', cl')) = Served lr 0 \<and>
     (\<exists>e\<in>set (lr_Entries lr). entry_id e = (n_ID (ag_node p), svc_id s) \<and> s_Generation (e_Service e) \<ge> r_Generation reg)"
proof -
  assume d: "distinct (sc_conns (ag_client p))" and ok: "\<forall>a. registry_ok (cl a)" and perm: "\<forall>xs. set (perm xs) = set xs"
    and reg: "distinct (map svc_id (r_Services reg))" "s \<in> set (r_Services reg)"
    and run: "RegisterServices (seeds_run now evclk ord lk) reg (p, cl) = (None, p', cl')"
    and fed: "ag_federation p = None \<or> q_Datacenter q = []" and nh: "\<not> q_OnlyHealthy q"
    and q: "q_Name q \<in> {[], s_Name s}" "q_Datacenter q \<in> {[], n_Datacenter (ag_node p)}" "set (q_Tags q) \<subseteq> set (s_Tags s)"
    and t: "\<forall>a. time_Sub (now' a) (now a) \<le> clampTTL (m_opts (cl a)) (wire_ttl (s_TTL s))"
    and quorum: "ag_quorum p + int (card {a \<in> set (sc_conns (ag_client p)). lk' a = Up}) > int (length (sc_conns (ag_client p)))"
  let ?w = "seeds_run now evclk ord lk" and ?w' = "seeds_run now' evclk' ord' lk'"
  have valid: "r_Services reg \<noteq> []" "\<forall>s\<in>set (r_Services reg). s_Name s \<noteq> []"
    using RegisterServices_invalid [of reg ?w "(p, cl)"] run by auto
  obtain res written where w: "SeedClient_Register ?w (stamped p reg) (ag_client p) cl = (res, written)" by fastforce
  have out: "WriteResult_OK res (ag_quorum p)" "cl' = written" "same_identity p p'"
    using run unfolding RegisterServices_valid [OF valid] w by (auto simp: same_identity_def split: if_splits)
  let ?s = "s\<lparr>s_ID := svc_id s\<rparr>"
  have s: "distinct (map svc_id (r_Services (stamped p reg)))" "?s \<in> set (r_Services (stamped p reg))"
    using reg by (simp_all add: stamped_def comp_def svc_id_stamped)
  have total: "wr_Total res = length (sc_conns (ag_client p))"
    using fanOut_effect(1) [OF w [unfolded SeedClient_Register_def] d] .
  have "\<exists>lr. lo_result (SeedClient_Lookup ?w' (perm (sc_conns (ag_client p))) q (ag_client p) cl') = Inr lr \<and>
     (\<exists>e\<in>set (lr_Entries lr). entry_id e = (n_ID (r_Node (stamped p reg)), svc_id ?s) \<and>
        s_Generation (e_Service e) \<ge> r_Generation (stamped p reg))"
  proof (rule register_then_lookup [OF d _ ok s nh _ _ _ _ w [folded out(2)]])
    show "wr_Total res < wr_Succeeded res + card {a \<in> set (sc_conns (ag_client p)). lk' a = Up}"
      using quorum total out(1) by (simp add: WriteResult_OK_def)
  qed (use perm q t in \<open>simp_all add: stamped_def\<close>)
  then obtain lr where lr: "client_lookup ?w' (perm (sc_conns (ag_client p))) (ag_client p) cl' q = Inr lr"
    "\<exists>e\<in>set (lr_Entries lr). entry_id e = (n_ID (ag_node p), svc_id s) \<and> s_Generation (e_Service e) \<ge> r_Generation reg"
    by (auto simp: stamped_def svc_id_stamped client_lookup_def)
  have raw: "raw_query q = q" using nh by (cases q) (simp add: raw_query_def)
  have "fst (Proxy_Resolve ?w' perm t1 t2 t3 q ConsistencyConsistent (p', cl')) = Served lr 0"
    using fed out(3) lr(1) nh by (auto simp: Proxy_Resolve_def IsRemote_def directLookup_def raw served_of_def local_lookup_def
        same_identity_def Let_def split: option.splits)
  then show ?thesis using lr(2) by blast
qed

definition ex_later :: "string \<Rightarrow> link" where
  "ex_later = (\<lambda>a. if a = ''b'' then Down else Up)"

theorem agent_read_your_writes_witness:
  "\<exists>lr. fst (Proxy_Resolve (seeds_run (\<lambda>_. 200) (\<lambda>_. 200) (\<lambda>_. []) ex_later) rev 200 200 200 ex_query ConsistencyConsistent
       (snd ex_registered)) = Served lr 0 \<and>
     (\<exists>e\<in>set (lr_Entries lr). entry_id e = (''n1'', ''s1'') \<and> s_Generation (e_Service e) \<ge> 1)"
proof -
  have s: "ex_svc ''s1'' ''web'' 0 0 \<in> set (r_Services ex_reg)" by (simp add: ex_reg_def)
  have t: "time_Sub 200 100 \<le> clampTTL (m_opts (NewMemory ex_opts)) (wire_ttl (s_TTL (ex_svc ''s1'' ''web'' 0 0)))" by code_simp
  have "{a \<in> {''a'', ''b'', ''c''}. ex_later a = Up} = {''a'', ''c''}" by (auto simp: ex_later_def split: if_splits)
  then have up: "card {a \<in> set (sc_conns (ag_client ex_proxy)). ex_later a = Up} = 2"
    by (simp add: ex_client_def ex_proxy_def NewProxy_def)
  have "\<exists>lr. fst (Proxy_Resolve (seeds_run (\<lambda>_. 200) (\<lambda>_. 200) (\<lambda>_. []) ex_later) rev 200 200 200 ex_query ConsistencyConsistent
       (fst (snd ex_registered), snd (snd ex_registered))) = Served lr 0 \<and>
     (\<exists>e\<in>set (lr_Entries lr). entry_id e = (n_ID (ag_node ex_proxy), svc_id (ex_svc ''s1'' ''web'' 0 0)) \<and>
        s_Generation (e_Service e) \<ge> r_Generation ex_reg)"
    by (rule agent_read_your_writes [OF _ _ _ ex_reg_ids s ex_registered_run])
       (use t up in \<open>auto simp: ex_client_def ex_cluster_def ex_proxy_def NewProxy_def ex_query_def Query_zero_def registry_ok_NewMemory\<close>)
  then show ?thesis by (simp add: ex_proxy_def NewProxy_def svc_id_def ex_reg_def)
qed

section \<open>The renew loop and the drain\<close>

lemma renew_loop_keeps:
  "renew_loop now nid ids m = (err, m') \<Longrightarrow> (svc_at m' nid' sid = None \<longleftrightarrow> svc_at m nid' sid = None) \<and>
     (nid' \<noteq> nid \<longrightarrow> svc_at m' nid' sid = svc_at m nid' sid) \<and>
     (\<forall>svc'. svc_at m' nid' sid = Some svc' \<longrightarrow> (\<exists>svc. svc_at m nid' sid = Some svc \<and> (svc' = svc \<or> svc' = renew_svc now svc)))"
proof (induction ids arbitrary: m)
  case (Cons i ids)
  show ?case
  proof (cases "svc_at m nid i")
    case None
    then show ?thesis using Cons.prems by simp
  next
    case (Some svc)
    then have run: "renew_loop now nid ids (put_svc nid i (renew_svc now svc) m) = (err, m')" using Cons.prems by simp
    show ?thesis using Cons.IH [OF run] Some by (auto simp: store_simps split: if_splits)
  qed
qed simp

lemma Memory_Renew_keeps:
  "Memory_Renew now nid ids m = (err, m') \<Longrightarrow> (svc_at m' nid' sid = None \<longleftrightarrow> svc_at m nid' sid = None) \<and>
     (nid' \<noteq> nid \<longrightarrow> svc_at m' nid' sid = svc_at m nid' sid) \<and>
     (\<forall>svc'. svc_at m' nid' sid = Some svc' \<longrightarrow> (\<exists>svc. svc_at m nid' sid = Some svc \<and> (svc' = svc \<or> svc' = renew_svc now svc)))"
  using renew_loop_keeps [of now nid ids m err m' nid' sid]
  by (auto simp: Memory_Renew_def svc_at_def split: option.splits if_splits)

lemma call_Renew:
  "snd (call_seed (seeds_run now evclk ord lk a) (RenewRequest nid ids) m) =
     (if lk a = Down \<or> nid = [] then m else snd (Memory_Renew (now a) nid ids m))"
  by (auto simp: call_seed_def seeds_run_def Service_Renew_def reply_of_def split: link.splits prod.splits option.splits)

lemma renewOnce_effect:
  assumes "distinct (sc_conns (ag_client p))"
  shows "\<exists>ids. renewOnce (seeds_run now evclk ord lk) order (p, cl) =
      (p, \<lambda>a. if hostedCount p \<noteq> 0 \<and> a \<in> set (sc_conns (ag_client p)) \<and> lk a \<noteq> Down \<and> n_ID (ag_node p) \<noteq> [] \<and> (ag_gate p \<noteq> None \<longrightarrow> ids \<noteq> [])
         then snd (Memory_Renew (now a) (n_ID (ag_node p)) ids (cl a)) else cl a) \<and>
    ids = (case ag_gate p of None \<Rightarrow> [] | Some gate \<Rightarrow> filter (\<lambda>i. \<not> gate i) order)"
proof -
  have out: "snd (SeedClient_Renew (seeds_run now evclk ord lk) nid ids (ag_client p) cl) =
      (\<lambda>a. if a \<in> set (sc_conns (ag_client p)) \<and> lk a \<noteq> Down \<and> nid \<noteq> [] then snd (Memory_Renew (now a) nid ids (cl a)) else cl a)"
    for nid ids
  proof -
    obtain res cl' where run: "fanOut (seeds_run now evclk ord lk) (RenewRequest nid ids) (ag_client p) cl = (res, cl')" by fastforce
    show ?thesis using fanOut_effect(3) [OF run assms] run by (auto simp: SeedClient_Renew_def call_Renew fun_eq_iff)
  qed
  show ?thesis
    by (auto simp: renewOnce_def renewAll_def Let_def split_def out fun_eq_iff split: option.splits)
qed

text \<open>
  A tick of the renew loop only refreshes: on every seed, whatever it holds and whether the call
  reaches it, the same services are registered before and after, each either as it was or with its lease renewed, and
  those of other nodes are as they were; so a seed that lost its registry stays without the agent's services. Without active
  checks a reachable seed that knows the node has all its services there renewed.
\<close>

theorem renew_tick:
  "distinct (sc_conns (ag_client p)) \<Longrightarrow> renewOnce (seeds_run now evclk ord lk) order (p, cl) = (p', cl') \<Longrightarrow>
   p' = p \<and>
   (svc_at (cl' a) nid sid = None \<longleftrightarrow> svc_at (cl a) nid sid = None) \<and>
   (nid \<noteq> n_ID (ag_node p) \<longrightarrow> svc_at (cl' a) nid sid = svc_at (cl a) nid sid) \<and>
   (\<forall>svc'. svc_at (cl' a) nid sid = Some svc' \<longrightarrow>
      (\<exists>svc. svc_at (cl a) nid sid = Some svc \<and> (svc' = svc \<or> svc' = renew_svc (now a) svc))) \<and>
   (ag_gate p = None \<longrightarrow> hostedCount p \<noteq> 0 \<longrightarrow> a \<in> set (sc_conns (ag_client p)) \<longrightarrow> lk a \<noteq> Down \<longrightarrow>
      n_ID (ag_node p) \<noteq> [] \<longrightarrow>
      svc_at (cl' a) (n_ID (ag_node p)) sid = map_option (renew_svc (now a)) (svc_at (cl a) (n_ID (ag_node p)) sid))"
proof -
  assume d: "distinct (sc_conns (ag_client p))" and run: "renewOnce (seeds_run now evclk ord lk) order (p, cl) = (p', cl')"
  let ?nid = "n_ID (ag_node p)"
  obtain ids where eff: "p' = p" "cl' = (\<lambda>a. if hostedCount p \<noteq> 0 \<and> a \<in> set (sc_conns (ag_client p)) \<and> lk a \<noteq> Down \<and> ?nid \<noteq> [] \<and>
         (ag_gate p \<noteq> None \<longrightarrow> ids \<noteq> []) then snd (Memory_Renew (now a) ?nid ids (cl a)) else cl a)"
      "ids = (case ag_gate p of None \<Rightarrow> [] | Some gate \<Rightarrow> filter (\<lambda>i. \<not> gate i) order)"
    using renewOnce_effect [OF d, of now evclk ord lk order cl] run by auto
  obtain err m' where r: "Memory_Renew (now a) ?nid ids (cl a) = (err, m')" by fastforce
  have "cl' a = cl a \<or> cl' a = m'" using eff(2) r by auto
  moreover have "svc_at (snd (Memory_Renew (now a) ?nid [] (cl a))) ?nid sid = map_option (renew_svc (now a)) (svc_at (cl a) ?nid sid)"
    by (simp add: Memory_Renew_def svc_at_def split: option.splits)
  ultimately show ?thesis
    using eff Memory_Renew_keeps [OF r, of nid sid] by (auto split: option.splits)
qed

definition ex_renewed :: agent where
  "ex_renewed = renewOnce (seeds_run (\<lambda>_. 150) (\<lambda>_. 150) (\<lambda>_. []) (\<lambda>_. Up)) [] (snd ex_registered)"

theorem renew_tick_witness:
  "svc_at (snd ex_renewed ''a'') ''n1'' ''s1'' = None \<and>
   map_option (\<lambda>svc. s_LastSeen (sv_def svc)) (svc_at (snd ex_renewed ''b'') ''n1'' ''s1'') = Some 150"
proof -
  have d: "distinct (sc_conns (ag_client (fst (snd ex_registered))))"
    and id: "ag_gate (fst (snd ex_registered)) = None \<and> hostedCount (fst (snd ex_registered)) \<noteq> 0 \<and>
      ''b'' \<in> set (sc_conns (ag_client (fst (snd ex_registered)))) \<and> n_ID (ag_node (fst (snd ex_registered))) = ''n1''"
    by code_simp+
  have run: "renewOnce (seeds_run (\<lambda>_. 150) (\<lambda>_. 150) (\<lambda>_. []) (\<lambda>_. Up)) [] (fst (snd ex_registered), snd (snd ex_registered)) =
      (fst ex_renewed, snd ex_renewed)"
    by (simp add: ex_renewed_def)
  have "map_option (\<lambda>_. ()) (svc_at (snd (snd ex_registered) ''a'') ''n1'' ''s1'') = None" by code_simp
  moreover have "map_option (\<lambda>svc. s_LastSeen (sv_def (renew_svc 150 svc))) (svc_at (snd (snd ex_registered) ''b'') ''n1'' ''s1'') = Some 150"
    by code_simp
  ultimately show ?thesis
    using renew_tick [OF d run, of "''a''" "''n1''" "''s1''"] renew_tick [OF d run, of "''b''" "''n1''" "''s1''"] id
    by (simp add: option.map_comp comp_def)
qed

lemma call_Deregister:
  "snd (call_seed (seeds_run now evclk ord lk a) (DeregisterRequest nid) m) =
     (if lk a = Down \<or> nid = [] then m else snd (snd (Memory_Deregister (ord a) nid m)))"
  by (auto simp: call_seed_def seeds_run_def Service_Deregister_def reply_of_def split: link.splits prod.splits option.splits)

lemma Memory_Deregister_none: "svc_at (snd (snd (Memory_Deregister order nid m))) nid sid = None"
  by (simp add: Memory_Deregister_def svc_at_def split: option.splits prod.splits)

text \<open>
  The drain at shutdown: every seed that the request reaches, even when its reply is
  lost, ends without any service of the node, and with the rest of its registry as it was; the seeds
  that are down are untouched.
\<close>

theorem drain_removes:
  "distinct (sc_conns c) \<Longrightarrow> nodeID \<noteq> [] \<Longrightarrow> cl' = Deregistrar_Stop (seeds_run now evclk ord lk) nodeID c cl \<Longrightarrow>
   (a \<in> set (sc_conns c) \<and> lk a \<noteq> Down \<longrightarrow> svc_at (cl' a) nodeID sid = None) \<and>
   (lk a = Down \<longrightarrow> cl' a = cl a) \<and> (nid \<noteq> nodeID \<longrightarrow> node_view (cl' a) nid = node_view (cl a) nid)"
proof -
  assume d: "distinct (sc_conns c)" and n: "nodeID \<noteq> []" and cl': "cl' = Deregistrar_Stop (seeds_run now evclk ord lk) nodeID c cl"
  obtain res where run: "fanOut (seeds_run now evclk ord lk) (DeregisterRequest nodeID) c cl = (res, cl')"
    using cl' by (cases "fanOut (seeds_run now evclk ord lk) (DeregisterRequest nodeID) c cl")
      (simp add: Deregistrar_Stop_def SeedClient_Deregister_def)
  show ?thesis
    using fanOut_effect(3) [OF run d, of a] n by (auto simp: call_Deregister Memory_Deregister_none Memory_Deregister_frame)
qed

theorem drain_removes_witness:
  "svc_at (Deregistrar_Stop (seeds_run (\<lambda>_. 300) (\<lambda>_. 300) (\<lambda>_. [''s1'', ''s2'']) (\<lambda>_. ReplyLost)) ''n1'' ex_client (snd (snd ex_registered)) ''b'')
     ''n1'' ''s1'' = None \<and> map_option (\<lambda>_. ()) (svc_at (snd (snd ex_registered) ''b'') ''n1'' ''s1'') = Some ()"
proof -
  have "distinct (sc_conns ex_client)" "''b'' \<in> set (sc_conns ex_client)" by (simp_all add: ex_client_def)
  moreover have "map_option (\<lambda>_. ()) (svc_at (snd (snd ex_registered) ''b'') ''n1'' ''s1'') = Some ()" by code_simp
  ultimately show ?thesis
    using drain_removes [where c = ex_client and nodeID = "''n1''" and now = "\<lambda>_. 300" and evclk = "\<lambda>_. 300" and ord = "\<lambda>_. [''s1'', ''s2'']"
        and lk = "\<lambda>_. ReplyLost" and cl = "snd (snd ex_registered)" and a = "''b''" and sid = "''s1''"] by simp
qed

section \<open>Federation\<close>

lemma pool_loop_dom:
  "pool_loop dial timeout local dcs clients = Inr clients' \<Longrightarrow>
   (fmlookup clients' dc \<noteq> None \<longleftrightarrow> fmlookup clients dc \<noteq> None \<or> (dc \<noteq> local \<and> (\<exists>seeds. (dc, seeds) \<in> set dcs \<and> seeds \<noteq> [])))"
  by (induction dial timeout local dcs clients rule: pool_loop.induct) (auto split: if_splits sum.splits)

lemma e_Node_wire [simp]: "e_Node (EntryFromProto (Some (EntryToProto e))) = e_Node e"
  by (simp add: EntryFromProto_def EntryToProto_def Let_def)

lemma Filter_subset: "set (Filter es opts) \<subseteq> set es"
  by (auto simp: Filter_def)

lemma fan_out_datacenter:
  assumes "\<forall>a. registry_ok (cl a)" "q_Datacenter q \<noteq> []"
    and "client_lookup (seeds_run now evclk ord lk) order c cl q = Inr lr" "e \<in> set (lr_Entries lr)"
  shows "n_Datacenter (e_Node e) = q_Datacenter q"
proof -
  let ?w = "seeds_run now evclk ord lk"
  have "e \<in> set (answers ?w q cl order)"
    using assms(3,4) MergeLWW_subset by (fastforce simp: client_lookup_def Lookup_result split: if_splits)
  then obtain a r where r: "seed_lookup ?w q cl a = Inr r" "e \<in> set (lr_Entries r)" by (auto simp: set_answers)
  then obtain e' where e': "e' \<in> set (lr_Entries (Memory_Lookup (now a) q (cl a)))" "e_Node e = e_Node e'"
    using Filter_subset [of "lr_Entries (Memory_Lookup (now a) q (cl a))" passing_only]
    by (fastforce simp: seed_lookup_run LookupResultFromProto_def LookupResultToProto_def Let_def split: if_splits)
  have "names_ok (cl a)" using assms(1) by (simp add: registry_ok_def)
  from e'(1) [unfolded set_Lookup [OF this]] show ?thesis
    using e'(2) assms(2) by (auto simp: asked_def answer_def entry_def)
qed

text \<open>
  Which reads leave the datacenter: exactly those for another, configured datacenter with
  seeds. Every entry a federated read returns is of the datacenter asked for, and a datacenter that
  is not configured answers with nothing and asks no seed.
\<close>

theorem federated_read:
  "NewPool dial local maxHops dcs timeout = Inr f \<Longrightarrow> \<forall>a. registry_ok (cl a) \<Longrightarrow>
   (IsRemote f dc \<longleftrightarrow> dc \<noteq> [] \<and> dc \<noteq> local \<and> (\<exists>seeds. (dc, seeds) \<in> set dcs \<and> seeds \<noteq> [])) \<and>
   (\<forall>lr. IsRemote f dc \<longrightarrow> Pool_Resolve (seeds_run now evclk ord lk) perm cl dc q f = Inr lr \<longrightarrow>
      (\<forall>e\<in>set (lr_Entries lr). n_Datacenter (e_Node e) = dc)) \<and>
   ((\<nexists>seeds. (dc, seeds) \<in> set dcs) \<longrightarrow> Pool_Resolve w perm cl dc q f = Inr LookupResult_zero)"
proof -
  assume new: "NewPool dial local maxHops dcs timeout = Inr f" and ok: "\<forall>a. registry_ok (cl a)"
  have f: "fp_local f = local" "pool_loop dial timeout local dcs fmempty = Inr (fp_clients f)"
    using new by (auto simp: NewPool_def split: sum.splits)
  note dom = pool_loop_dom [OF f(2), of dc]
  show ?thesis
    using f(1) dom fan_out_datacenter [OF ok, of "q\<lparr>q_Datacenter := dc\<rparr>"]
    by (auto simp: IsRemote_def Pool_Resolve_def split: option.splits)
qed

definition ex_pool :: Pool where
  "ex_pool = \<lparr>fp_local = ''dc1'', fp_maxHops = 1, fp_clients = fmupd ''dc2'' ex_client fmempty\<rparr>"

theorem federated_read_witness:
  "IsRemote ex_pool ''dc2'' \<and> \<not> IsRemote ex_pool ''dc1'' \<and> \<not> IsRemote ex_pool ''dc3'' \<and>
   Pool_Resolve (seeds_run (\<lambda>_. 200) (\<lambda>_. 200) (\<lambda>_. []) ex_up) rev ex_cluster ''dc3'' ex_query ex_pool = Inr LookupResult_zero"
proof -
  have new: "NewPool (\<lambda>_. True) ''dc1'' 0 [(''dc1'', [''a'']), (''dc2'', [''a'', ''b'', ''c''])] 0 = Inr ex_pool"
    by (simp add: NewPool_def SeedClient_New_def ex_pool_def ex_client_def Let_def)
  have ok: "\<forall>a. registry_ok (ex_cluster a)" by (simp add: ex_cluster_def registry_ok_NewMemory)
  show ?thesis
    using federated_read [OF new ok, of "''dc1''"] federated_read [OF new ok, of "''dc2''"] federated_read [OF new ok, of "''dc3''"]
    by auto
qed

end
