(* ===== verification/AgentWatch.thy ===== *)
theory AgentWatch
  imports Agent
begin

text \<open>
  The stream of the agent's \<^verbatim>\<open>Watch\<close> (\<^verbatim>\<open>internal/seedclient/proxy.go\<close>), the client that consumes it
  (\<^verbatim>\<open>client/sdk/sdk.go\<close>) and the gRPC resolver on top of the client (\<^verbatim>\<open>client/grpcresolver/resolver.go\<close>).
  One pass of the loop of \<^verbatim>\<open>Watch\<close> is \<open>watch_round\<close>: its arguments are the index the wait returned and what
  the lookup answered. \<open>ord\<close> is the order in which Go visits a map.
\<close>

section \<open>The agent's side\<close>

record WatchState =
  ws_last :: "(string, ServiceEntry) fmap"
  ws_lastIdx :: uint64
  ws_first :: bool

type_synonym map_order = "(string, ServiceEntry) fmap \<Rightarrow> string list"

definition watch_init :: WatchState where
  "watch_init = \<lparr>ws_last = fmempty, ws_lastIdx = 0, ws_first = True\<rparr>"

definition entryKey :: "ServiceEntry \<Rightarrow> string" where
  "entryKey e = n_ID (e_Node e) @ NUL @ s_ID (e_Service e)"

definition sendEvent :: "ChangeType \<Rightarrow> uint64 \<Rightarrow> ServiceEntry \<Rightarrow> pb_WatchResponse" where
  "sendEvent t idx e =
     \<lparr>px_Event = Some (ChangeEventToProto \<lparr>c_Type = t, c_Entry = e, c_Index = 0\<rparr>), px_Index = idx, px_SnapshotDone = False\<rparr>"

definition entries_map :: "ServiceEntry list \<Rightarrow> (string, ServiceEntry) fmap" where
  "entries_map es = fold (\<lambda>e. fmupd (entryKey e) e) es fmempty"

definition needs_put :: "(string, ServiceEntry) fmap \<Rightarrow> (string, ServiceEntry) fmap \<Rightarrow> string \<Rightarrow> bool" where
  "needs_put prevs cur k =
     (case fmlookup prevs k of
        None \<Rightarrow> True
      | Some prev \<Rightarrow> endpointChanged prev (the (fmlookup cur k)))"

definition watch_round :: "map_order \<Rightarrow> uint64 \<Rightarrow> rpc_error list + LookupResult \<Rightarrow> WatchState
    \<Rightarrow> pb_WatchResponse list \<times> WatchState" where
  "watch_round ord idx res st =
     (if idx = ws_lastIdx st \<and> \<not> ws_first st then ([], st)
      else case res of
        Inl err \<Rightarrow> ([], st\<lparr>ws_lastIdx := idx\<rparr>)
      | Inr lr \<Rightarrow>
          (let cur = entries_map (lr_Entries lr);
               out = (if ws_first st
                 then map (sendEvent ChangePut idx) (lr_Entries lr) @
                      [\<lparr>px_Event = None, px_Index = idx, px_SnapshotDone = True\<rparr>]
                 else map (\<lambda>k. sendEvent ChangePut idx (the (fmlookup cur k))) (filter (needs_put (ws_last st) cur) (ord cur)) @
                      map (\<lambda>k. sendEvent ChangeDelete idx (the (fmlookup (ws_last st) k)))
                        (filter (\<lambda>k. fmlookup cur k = None) (ord (ws_last st))))
           in (out, \<lparr>ws_last = cur, ws_lastIdx = idx, ws_first = False\<rparr>)))"

fun watch_run :: "map_order \<Rightarrow> (uint64 \<times> (rpc_error list + LookupResult)) list \<Rightarrow> WatchState
    \<Rightarrow> pb_WatchResponse list \<times> WatchState" where
  "watch_run ord [] st = ([], st)"
| "watch_run ord ((idx, res) # rounds) st =
     (case watch_round ord idx res st of (out, st') \<Rightarrow>
        (case watch_run ord rounds st' of (out', st'') \<Rightarrow> (out @ out', st'')))"

section \<open>The client\<close>

definition DefaultAgentAddress :: string where
  "DefaultAgentAddress = ''127.0.0.1:9900''"

definition Dial_target :: "string \<Rightarrow> string" where
  "Dial_target target = (if target = [] then DefaultAgentAddress else target)"

definition sdk_Register :: "pb_Registration \<Rightarrow> Request" where
  "sdk_Register reg = RegisterRequest (Some reg)"

definition sdk_Renew :: "string \<Rightarrow> string list \<Rightarrow> Request" where
  "sdk_Renew nodeID serviceIDs = RenewRequest nodeID serviceIDs"

definition sdk_Deregister :: "string \<Rightarrow> Request" where
  "sdk_Deregister nodeID = DeregisterRequest nodeID"

definition sdk_DeregisterService :: "string \<Rightarrow> string \<Rightarrow> Request" where
  "sdk_DeregisterService nodeID serviceID = DeregisterServiceRequest nodeID serviceID"

definition Discover :: "('e + pb_LookupResponse) \<Rightarrow> 'e + pb_ServiceEntry option list" where
  "Discover resp = (case resp of Inl err \<Rightarrow> Inl err | Inr r \<Rightarrow> Inr (pl_Entries r))"

text \<open>The set the client builds, whether the snapshot is complete, and the undelivered snapshot of its channel.\<close>

record SdkWatch =
  sw_set :: "(string, pb_ServiceEntry) fmap"
  sw_ready :: bool
  sw_out :: "pb_ServiceEntry list option"

definition sdk_init :: SdkWatch where
  "sdk_init = \<lparr>sw_set = fmempty, sw_ready = False, sw_out = None\<rparr>"

definition pb_key :: "pb_ServiceEntry \<Rightarrow> string" where
  "pb_key pe =
     (case pe_Node pe of None \<Rightarrow> [] | Some n \<Rightarrow> pn_Id n) @ NUL @
     (case pe_Service pe of None \<Rightarrow> [] | Some s \<Rightarrow> ps_Id s)"

definition sdk_snapshot :: "(string, pb_ServiceEntry) fmap \<Rightarrow> pb_ServiceEntry list" where
  "sdk_snapshot s = range_values s"

text \<open>
  Delivering to a channel of one place: the send succeeds when the place is free, and a full channel
  is drained and the send retried, so that the channel ends with the new snapshot.
\<close>

definition sdk_emit :: "'a \<Rightarrow> 'a option \<Rightarrow> 'a option" where
  "sdk_emit snap out = (case out of None \<Rightarrow> Some snap | Some old \<Rightarrow> Some snap)"

definition sdk_apply :: "pb_ChangeEvent option \<Rightarrow> (string, pb_ServiceEntry) fmap \<Rightarrow> (string, pb_ServiceEntry) fmap" where
  "sdk_apply ev s =
     (case ev of
        None \<Rightarrow> s
      | Some ev \<Rightarrow>
          (case pc_Entry ev of
             None \<Rightarrow> s
           | Some e \<Rightarrow> if pc_Type ev = 1 then fmupd (pb_key e) e s
                       else if pc_Type ev = 2 then fmdrop (pb_key e) s else s))"

definition sdk_recv :: "pb_WatchResponse \<Rightarrow> SdkWatch \<Rightarrow> SdkWatch" where
  "sdk_recv resp st =
     (let s = sdk_apply (px_Event resp) (sw_set st);
          ready = (sw_ready st \<or> px_SnapshotDone resp) in
      \<lparr>sw_set = s, sw_ready = ready, sw_out = (if ready then sdk_emit (sdk_snapshot s) (sw_out st) else sw_out st)\<rparr>)"

section \<open>The gRPC resolver\<close>

record Address =
  ad_Addr :: string
  ad_Weight :: "uint32 option"

definition Weight :: "Address \<Rightarrow> uint32" where
  "Weight a = (case ad_Weight a of Some w \<Rightarrow> w | None \<Rightarrow> 1)"

text \<open>The agent to dial and the service to watch for a target URL, or the error of a target without a service.\<close>

definition resolver_target :: "string \<Rightarrow> string \<Rightarrow> (string \<times> Query) option" where
  "resolver_target host path =
     (let agentAddr = (if host = [] then DefaultAgentAddress else host);
          service = TrimPrefix path ''/'' in
      if service = [] then None else Some (agentAddr, Query_zero\<lparr>q_Name := service, q_OnlyHealthy := True\<rparr>))"

definition weightOf :: "pb_ServiceEntry \<Rightarrow> uint32" where
  "weightOf e =
     (let w = (case pe_Service e of None \<Rightarrow> 0 | Some s \<Rightarrow> (case ps_Weights s of None \<Rightarrow> 0 | Some w \<Rightarrow> pw_Passing w))
      in if w > 0 then w else 1)"

definition toAddress :: "pb_ServiceEntry \<Rightarrow> Address option" where
  "toAddress e =
     (let host = (case pe_Service e of None \<Rightarrow> [] | Some s \<Rightarrow> ps_Address s);
          host = (if host = [] then (case pe_Node e of None \<Rightarrow> [] | Some n \<Rightarrow> pn_Address n) else host);
          port = (case pe_Service e of None \<Rightarrow> 0 | Some s \<Rightarrow> ps_Port s) in
      if host = [] then None
      else Some \<lparr>ad_Addr = JoinHostPort host (decimal (unat port)), ad_Weight = Some (weightOf e)\<rparr>)"

definition toAddresses :: "pb_ServiceEntry list \<Rightarrow> Address list" where
  "toAddresses entries = List.map_filter toAddress entries"

section \<open>The client follows the agent\<close>

lemma pb_key_EntryToProto [simp]: "pb_key (EntryToProto e) = entryKey e"
  by (simp add: pb_key_def EntryToProto_def NodeToProto_def ServiceToProto_def entryKey_def)

lemma sw_set_recv: "sw_set (sdk_recv (sendEvent ChangePut idx e) st) = fmupd (entryKey e) (EntryToProto e) (sw_set st)"
    "sw_set (sdk_recv (sendEvent ChangeDelete idx e) st) = fmdrop (entryKey e) (sw_set st)"
    "px_Event r = None \<Longrightarrow> sw_set (sdk_recv r st) = sw_set st"
  by (simp_all add: sdk_recv_def sdk_apply_def sendEvent_def ChangeEventToProto_def ChangeTypeToProto_def Let_def)

lemma sw_ready_recv: "sw_ready (sdk_recv r st) \<longleftrightarrow> sw_ready st \<or> px_SnapshotDone r"
  by (simp add: sdk_recv_def Let_def)

lemma sw_out_recv: "sw_out (sdk_recv r st) =
    (if sw_ready st \<or> px_SnapshotDone r then Some (sdk_snapshot (sw_set (sdk_recv r st))) else sw_out st)"
  by (simp add: sdk_recv_def sdk_emit_def Let_def split: option.splits)

lemma recv_puts:
  "\<forall>k\<in>set ks. entryKey (f k) = k \<Longrightarrow>
   fmlookup (sw_set (fold sdk_recv (map (\<lambda>k. sendEvent ChangePut idx (f k)) ks) st)) k =
     (if k \<in> set ks then Some (EntryToProto (f k)) else fmlookup (sw_set st) k)"
  by (induction ks arbitrary: st) (auto simp: sw_set_recv)

lemma recv_deletes:
  "\<forall>k\<in>set ks. entryKey (f k) = k \<Longrightarrow>
   fmlookup (sw_set (fold sdk_recv (map (\<lambda>k. sendEvent ChangeDelete idx (f k)) ks) st)) k =
     (if k \<in> set ks then None else fmlookup (sw_set st) k)"
  by (induction ks arbitrary: st) (auto simp: sw_set_recv)

lemma recv_snapshot:
  "sw_set (fold sdk_recv (map (sendEvent ChangePut idx) es) st) =
     fold (\<lambda>e. fmupd (entryKey e) (EntryToProto e)) es (sw_set st)"
  by (induction es arbitrary: st) (auto simp: sw_set_recv)

lemma entries_map_key: "fmlookup (entries_map es) k = Some e \<Longrightarrow> entryKey e = k \<and> e \<in> set es"
proof -
  have "fmlookup (fold (\<lambda>e. fmupd (entryKey e) e) es h) k = Some e \<Longrightarrow> entryKey e = k \<and> e \<in> set es \<or> fmlookup h k = Some e" for h
    by (induction es arbitrary: h) (fastforce split: if_splits)+
  from this [of fmempty] show "fmlookup (entries_map es) k = Some e \<Longrightarrow> ?thesis" by (simp add: entries_map_def)
qed

lemma entries_map_image:
  "fmlookup (fold (\<lambda>e. fmupd (entryKey e) (EntryToProto e)) es fmempty) k = map_option EntryToProto (fmlookup (entries_map es) k)"
proof -
  have "fmlookup (fold (\<lambda>e. fmupd (entryKey e) (EntryToProto e)) es h) k =
      map_option EntryToProto (fmlookup (fold (\<lambda>e. fmupd (entryKey e) e) es h') k)"
    if "fmlookup h k = map_option EntryToProto (fmlookup h' k)" for h h'
    using that by (induction es arbitrary: h h') (simp_all add: if_distrib)
  from this [of fmempty fmempty] show ?thesis by (simp add: entries_map_def)
qed

text \<open>The endpoint a message shows is that of an entry: everything \<open>endpointChanged\<close> compares.\<close>

definition shows_endpoint :: "pb_ServiceEntry \<Rightarrow> ServiceEntry \<Rightarrow> bool" where
  "shows_endpoint pe e \<longleftrightarrow> entryKey (EntryFromProto (Some pe)) = entryKey e \<and> \<not> endpointChanged (EntryFromProto (Some pe)) e"

definition in_step :: "(string, pb_ServiceEntry) fmap \<Rightarrow> (string, ServiceEntry) fmap \<Rightarrow> bool" where
  "in_step s prevs \<longleftrightarrow> (\<forall>k. rel_option shows_endpoint (fmlookup s k) (fmlookup prevs k)) \<and>
     (\<forall>k e. fmlookup prevs k = Some e \<longrightarrow> entryKey e = k)"

lemma shows_endpoint_self: "shows_endpoint (EntryToProto e) e"
  by (simp add: shows_endpoint_def endpointChanged_def EntryFromProto_def EntryToProto_def Service_roundtrip Health_roundtrip entryKey_def Let_def)

text \<open>A difference of two sets of entries brings a client that shows the first to the second.\<close>

lemma in_step_diff:
  assumes ord: "\<And>m. range_order m (ord m)" and inv: "in_step (sw_set c) prevs"
    and key: "\<And>k e. fmlookup cur k = Some e \<Longrightarrow> entryKey e = k"
    and out: "out = map (\<lambda>k. sendEvent ChangePut idx (the (fmlookup cur k))) (filter (needs_put prevs cur) (ord cur)) @
      map (\<lambda>k. sendEvent ChangeDelete idx (the (fmlookup prevs k))) (filter (\<lambda>k. fmlookup cur k = None) (ord prevs))"
  shows "in_step (sw_set (fold sdk_recv out c)) cur"
proof -
  let ?ps = "filter (needs_put prevs cur) (ord cur)" and ?ds = "filter (\<lambda>k. fmlookup cur k = None) (ord prevs)"
  have ps: "k \<in> set ?ps \<longleftrightarrow> fmlookup cur k \<noteq> None \<and> needs_put prevs cur k" for k
    using ord [of cur] by (auto simp: range_order_def fmlookup_dom'_iff)
  have ds: "k \<in> set ?ds \<longleftrightarrow> fmlookup prevs k \<noteq> None \<and> fmlookup cur k = None" for k
    using ord [of prevs] by (auto simp: range_order_def fmlookup_dom'_iff)
  have k1: "\<forall>k\<in>set ?ps. entryKey (the (fmlookup cur k)) = k" using ps key by auto
  have k2: "\<forall>k\<in>set ?ds. entryKey (the (fmlookup prevs k)) = k" using ds inv by (auto simp: in_step_def)
  have look: "fmlookup (sw_set (fold sdk_recv out c)) k =
      (if fmlookup prevs k \<noteq> None \<and> fmlookup cur k = None then None
       else if fmlookup cur k \<noteq> None \<and> needs_put prevs cur k then Some (EntryToProto (the (fmlookup cur k)))
       else fmlookup (sw_set c) k)" for k
    unfolding out fold_append comp_def recv_deletes [OF k2] recv_puts [OF k1] ds ps ..
  have "rel_option shows_endpoint (fmlookup (sw_set (fold sdk_recv out c)) k) (fmlookup cur k)" for k
  proof (cases "fmlookup cur k")
    case None
    then show ?thesis using inv unfolding look in_step_def by (cases "fmlookup prevs k") (auto dest: spec [of _ k])
  next
    case (Some e)
    show ?thesis
    proof (cases "needs_put prevs cur k")
      case True
      then show ?thesis using Some by (simp add: look shows_endpoint_self)
    next
      case no: False
      then obtain prev where prev: "fmlookup prevs k = Some prev" "\<not> endpointChanged prev e"
        using Some by (auto simp: needs_put_def split: option.splits)
      then obtain pe where pe: "fmlookup (sw_set c) k = Some pe" "shows_endpoint pe prev" "entryKey prev = k"
        using inv unfolding in_step_def by (metis option_rel_Some2)
      then show ?thesis using prev(2) key [OF Some] Some no
        by (auto simp: look shows_endpoint_def endpointChanged_def)
    qed
  qed
  then show ?thesis using key by (simp add: in_step_def)
qed

lemma in_step_snapshot:
  assumes "sw_set c = fmempty"
    and out: "out = map (sendEvent ChangePut idx) es @ [\<lparr>px_Event = None, px_Index = idx, px_SnapshotDone = True\<rparr>]"
  shows "in_step (sw_set (fold sdk_recv out c)) (entries_map es)"
proof -
  have "fmlookup (sw_set (fold sdk_recv out c)) k = map_option EntryToProto (fmlookup (entries_map es) k)" for k
    by (simp add: out sw_set_recv recv_snapshot entries_map_image assms(1))
  then show ?thesis
    by (auto simp: in_step_def option.rel_map shows_endpoint_self dest: entries_map_key intro: option.rel_refl)
qed

lemma sw_ready_run: "sw_ready (fold sdk_recv rs c) \<longleftrightarrow> sw_ready c \<or> (\<exists>r\<in>set rs. px_SnapshotDone r)"
  by (induction rs arbitrary: c) (auto simp: sw_ready_recv)

text \<open>The set of the client follows the last set of the agent; it is ready once the first one was sent.\<close>

definition follows :: "SdkWatch \<Rightarrow> WatchState \<Rightarrow> bool" where
  "follows c st \<longleftrightarrow> in_step (sw_set c) (ws_last st) \<and> sw_ready c = (\<not> ws_first st) \<and>
     (ws_first st \<longrightarrow> sw_set c = fmempty) \<and> (sw_ready c \<longrightarrow> sw_out c = Some (sdk_snapshot (sw_set c)))"

lemma follows_out:
  "(sw_ready c \<longrightarrow> sw_out c = Some (sdk_snapshot (sw_set c))) \<Longrightarrow>
   sw_ready (fold sdk_recv rs c) \<longrightarrow> sw_out (fold sdk_recv rs c) = Some (sdk_snapshot (sw_set (fold sdk_recv rs c)))"
proof (induction rs arbitrary: c)
  case (Cons r rs)
  have "sw_ready (sdk_recv r c) \<longrightarrow> sw_out (sdk_recv r c) = Some (sdk_snapshot (sw_set (sdk_recv r c)))"
    by (simp add: sw_out_recv sw_ready_recv)
  from Cons.IH [OF this] show ?case by simp
qed simp

lemma follows_round:
  assumes ord: "\<And>m. range_order m (ord m)" and inv: "follows c st" and run: "watch_round ord idx res st = (out, st')"
  shows "follows (fold sdk_recv out c) st'"
proof (cases "(idx = ws_lastIdx st \<and> \<not> ws_first st) \<or> isl res")
  case True
  then show ?thesis using inv run by (auto simp: follows_def watch_round_def split: if_splits sum.splits)
next
  case False
  then obtain lr where lr: "res = Inr lr" by (cases res) auto
  define cur where "cur = entries_map (lr_Entries lr)"
  have st': "ws_last st' = cur" "\<not> ws_first st'" using run False lr by (auto simp: watch_round_def cur_def Let_def)
  have key: "\<And>k e. fmlookup cur k = Some e \<Longrightarrow> entryKey e = k" using entries_map_key by (auto simp: cur_def)
  have "in_step (sw_set (fold sdk_recv out c)) cur \<and> sw_ready (fold sdk_recv out c)"
  proof (cases "ws_first st")
    case True
    then have out: "out = map (sendEvent ChangePut idx) (lr_Entries lr) @ [\<lparr>px_Event = None, px_Index = idx, px_SnapshotDone = True\<rparr>]"
      using run False lr by (auto simp: watch_round_def Let_def)
    have "sw_set c = fmempty" using inv True by (simp add: follows_def)
    from in_step_snapshot [OF this out] show ?thesis by (simp add: cur_def sw_ready_run sw_ready_recv out)
  next
    case nf: False
    have "in_step (sw_set (fold sdk_recv out c)) cur"
      by (rule in_step_diff [of ord c "ws_last st" cur out idx])
         (use ord inv key run False lr nf in \<open>auto simp: follows_def watch_round_def cur_def Let_def\<close>)
    then show ?thesis using inv nf by (simp add: follows_def sw_ready_run)
  qed
  then show ?thesis using st' follows_out inv by (simp add: follows_def)
qed

lemma follows_run:
  assumes ord: "\<And>m. range_order m (ord m)"
  shows "follows c st \<Longrightarrow> watch_run ord rounds st = (out, st') \<Longrightarrow> follows (fold sdk_recv out c) st'"
proof (induction rounds arbitrary: c st out)
  case (Cons r rounds)
  obtain idx res where r: "r = (idx, res)" by fastforce
  obtain o1 s1 where one: "watch_round ord idx res st = (o1, s1)" by fastforce
  obtain o2 where two: "watch_run ord rounds s1 = (o2, st')" and out: "out = o1 @ o2"
    using Cons.prems(2) r one by (auto split: prod.splits)
  from Cons.IH [OF follows_round [OF ord Cons.prems(1) one] two] show ?case by (simp add: out)
qed simp

text \<open>What the agent last showed is the answer of the last lookup that a change of the index led to.\<close>

definition shown :: "(uint64 \<times> (rpc_error list + LookupResult)) list \<Rightarrow> WatchState \<Rightarrow> (string, ServiceEntry) fmap" where
  "shown rounds st = fst (fold (\<lambda>(idx, res) (m, i, first).
     if idx = i \<and> \<not> first then (m, i, first)
     else case res of Inl _ \<Rightarrow> (m, idx, first) | Inr lr \<Rightarrow> (entries_map (lr_Entries lr), idx, False))
     rounds (ws_last st, ws_lastIdx st, ws_first st))"

lemma ws_last_run: "watch_run ord rounds st = (out, st') \<Longrightarrow> ws_last st' = shown rounds st"
proof (induction rounds arbitrary: st out)
  case (Cons r rounds)
  obtain idx res where r: "r = (idx, res)" by fastforce
  obtain o1 s1 where one: "watch_round ord idx res st = (o1, s1)" by fastforce
  obtain o2 where two: "watch_run ord rounds s1 = (o2, st')" using Cons.prems r one by (auto split: prod.splits)
  have "shown (r # rounds) st = shown rounds s1"
    using one by (auto simp: shown_def r watch_round_def Let_def split: if_splits sum.splits)
  then show ?case using Cons.IH [OF two] by simp
qed (simp add: shown_def)


definition ex_round1 :: LookupResult where
  "ex_round1 = \<lparr>lr_Entries = [ex_entry ''n'' ''s'' ''web'' 1 9, ex_entry ''n'' ''t'' ''web'' 1 9], lr_Index = 4\<rparr>"

definition ex_round2 :: LookupResult where
  "ex_round2 = \<lparr>lr_Entries = [ex_entry ''n'' ''s'' ''web'' 2 9], lr_Index = 5\<rparr>"

definition ex_rounds :: "(uint64 \<times> (rpc_error list + LookupResult)) list" where
  "ex_rounds = [(1, Inr ex_round1), (2, Inl [Unreachable]), (3, Inr ex_round2)]"

definition ex_stream :: "pb_WatchResponse list \<times> WatchState" where
  "ex_stream = watch_run range_keys ex_rounds watch_init"


text \<open>
  What the stream leaves out: a change of the node's address alone is no change of the endpoint, although an
  instance without an address of its own is dialled there; and neither is entering maintenance.
\<close>

lemma node_address_unnoticed:
  assumes "e = ex_entry ''n'' ''s'' ''web'' 1 9" "f = e\<lparr>e_Node := (e_Node e)\<lparr>n_Address := ''10.0.0.9''\<rparr>\<rparr>"
  shows "\<not> endpointChanged e f \<and> toAddress (EntryToProto e) \<noteq> toAddress (EntryToProto f)"
  unfolding assms
  by (simp add: endpointChanged_def toAddress_def EntryToProto_def NodeToProto_def ServiceToProto_def ex_entry_def ex_node_def ex_svc_def
      ServiceInstance_zero_def Node_zero_def JoinHostPort_def Let_def)

lemma maintenance_unnoticed:
  assumes "prev = \<lparr>ce_query = q, ce_merged = [e], ce_index = i, ce_fetchedAt = t\<rparr>"
    and "cur = \<lparr>ce_query = q, ce_merged = [e\<lparr>e_Maintenance := True\<rparr>], ce_index = j, ce_fetchedAt = u\<rparr>"
  shows "\<not> cache_changed (Some prev) cur" "Filter (ce_merged cur) passing_only = []"
  by (simp_all add: assms cache_changed_def endpointChanged_def Filter_def Visible_def)

end
