(* ===== verification/GoTime.thy ===== *)
theory GoTime
  imports GoStrings
begin

text \<open>
  \<^verbatim>\<open>time.ParseDuration\<close>, which the configuration, the Consul surface and the health checks use, and the
  printing of whole seconds it reads back. The accumulator is a natural number with the overflow
  checks of the library written out. A fraction of a unit is rounded down exactly, where the library
  multiplies in floating point.
\<close>

definition unit_value :: "string \<Rightarrow> nat option" where
  "unit_value u =
     (if u = ''ns'' then Some 1 else if u \<in> {''us'', [CHR 0xC2, CHR 0xB5, CHR ''s''], [CHR 0xCE, CHR 0xBC, CHR ''s'']} then Some 1000 else if u = ''ms'' then Some 1000000
      else if u = ''s'' then Some 1000000000 else if u = ''m'' then Some 60000000000
      else if u = ''h'' then Some 3600000000000 else None)"

definition unit_char :: "char \<Rightarrow> bool" where
  "unit_char c \<longleftrightarrow> c \<noteq> CHR ''.'' \<and> \<not> is_digit c"

text \<open>One number with its unit: its value in nanoseconds and the rest of the input.\<close>

definition parse_component :: "string \<Rightarrow> (nat \<times> string) option" where
  "parse_component s =
     (let int_digits = takeWhile is_digit s; s1 = dropWhile is_digit s;
          dot = (s1 \<noteq> [] \<and> hd s1 = CHR ''.'');
          frac_digits = (if dot then takeWhile is_digit (tl s1) else []);
          s2 = (if dot then dropWhile is_digit (tl s1) else s1);
          u = takeWhile unit_char s2; rest = dropWhile unit_char s2;
          v = digits_value int_digits; f = digits_value frac_digits in
      if int_digits = [] \<and> frac_digits = [] then None
      else if v > 2 ^ 63 then None
      else if u = [] then None
      else case unit_value u of
        None \<Rightarrow> None
      | Some unit \<Rightarrow>
          if v > 2 ^ 63 div unit then None
          else let total = v * unit + f * unit div 10 ^ length frac_digits in
            if total > 2 ^ 63 then None else Some (total, rest))"

lemma parse_component_less: "parse_component s = Some (v, rest) \<Longrightarrow> length rest < length s"
proof -
  assume a: "parse_component s = Some (v, rest)"
  define s1 where "s1 = dropWhile is_digit s"
  define s2 where "s2 = (if s1 \<noteq> [] \<and> hd s1 = CHR ''.'' then dropWhile is_digit (tl s1) else s1)"
  have r: "rest = dropWhile unit_char s2" "takeWhile unit_char s2 \<noteq> []"
    using a by (auto simp: parse_component_def s1_def s2_def Let_def split: if_splits option.splits)
  have "length s1 \<le> length s" by (simp add: s1_def length_dropWhile_le)
  moreover have "length s2 \<le> length s1"
    using length_dropWhile_le [of is_digit "tl s1"] by (auto simp: s2_def)
  moreover have "length rest < length s2"
    using r length_dropWhile_le [of unit_char "tl s2"] by (cases s2) (auto split: if_splits)
  ultimately show ?thesis by simp
qed

function parse_components :: "nat \<Rightarrow> string \<Rightarrow> nat option" where
  "parse_components d s =
     (if s = [] then Some d
      else case parse_component s of
        None \<Rightarrow> None
      | Some (v, rest) \<Rightarrow> if d + v > 2 ^ 63 then None else parse_components (d + v) rest)"
  by auto
termination
  by (relation "measure (\<lambda>(d, s). length s)") (auto dest: parse_component_less)

declare parse_components.simps [simp del]

definition ParseDuration :: "string \<Rightarrow> duration option" where
  "ParseDuration s =
     (let neg = (s \<noteq> [] \<and> hd s = CHR ''-'');
          s' = (if s \<noteq> [] \<and> (hd s = CHR ''-'' \<or> hd s = CHR ''+'') then tl s else s) in
      if s' = ''0'' then Some 0
      else if s' = [] then None
      else case parse_components 0 s' of
        None \<Rightarrow> None
      | Some d \<Rightarrow> if neg then Some (- int d) else if d > 2 ^ 63 - 1 then None else Some (int d))"

lemma parse_components_pos: "parse_components d s = Some n \<Longrightarrow> d \<le> 2 ^ 63 \<Longrightarrow> n \<le> 2 ^ 63"
proof (induction d s rule: parse_components.induct)
  case (1 d s)
  show ?case
  proof (cases "s = []")
    case True
    then show ?thesis using 1 by (simp add: parse_components.simps)
  next
    case False
    then obtain v rest where c: "parse_component s = Some (v, rest)"
      using "1.prems"(1) by (subst (asm) parse_components.simps) (auto split: option.splits)
    then have "\<not> d + v > 2 ^ 63" "parse_components (d + v) rest = Some n"
      using False "1.prems"(1) by (subst (asm) parse_components.simps, simp split: if_splits)+
    then show ?thesis using "1.IH" [OF False c refl] by simp
  qed
qed

lemma ParseDuration_int64: "ParseDuration s = Some d \<Longrightarrow> in_int64 d"
proof -
  assume "ParseDuration s = Some d"
  then consider "d = 0" | n s' where "parse_components 0 s' = Some n" "d = - int n \<or> n \<le> 2 ^ 63 - 1 \<and> d = int n"
    unfolding ParseDuration_def Let_def by (auto split: if_splits option.splits)
  then show ?thesis
  proof cases
    case (2 n s')
    have "n \<le> 2 ^ 63" using parse_components_pos [OF 2(1)] by simp
    then show ?thesis using 2(2) by (auto simp: in_int64_def min_duration_def max_duration_def)
  qed (simp add: in_int64_def min_duration_def max_duration_def)
qed

text \<open>A whole number of seconds is read back.\<close>

definition print_seconds :: "nat \<Rightarrow> string" where
  "print_seconds n = decimal n @ ''s''"

lemma digits_value_Nil [simp]: "digits_value [] = 0"
  by (simp add: digits_value_def)

lemma ParseDuration_seconds: "n \<le> 9223372036 \<Longrightarrow> ParseDuration (print_seconds n) = Some (int n * second)"
proof -
  assume n: "n \<le> 9223372036"
  have dig: "list_all is_digit (decimal n)" by (rule decimal_digits)
  then have tw: "takeWhile is_digit (decimal n @ ''s'') = decimal n" "dropWhile is_digit (decimal n @ ''s'') = ''s''"
    by (simp_all add: takeWhile_append list_all_iff takeWhile_eq_all_conv dropWhile_append is_digit_def)
  have hd: "is_digit (hd (decimal n @ ''s''))" using dig decimal_not_Nil [of n] by (cases "decimal n") auto
  have c: "parse_component (decimal n @ ''s'') = Some (n * 1000000000, [])"
    unfolding parse_component_def Let_def tw using n
    by (simp add: digits_value_decimal unit_char_def is_digit_def unit_value_def)
  have "parse_components 0 (decimal n @ ''s'') = Some (n * 1000000000)"
    using n by (subst parse_components.simps, subst c) (simp add: parse_components.simps)
  moreover have "hd (decimal n @ ''s'') \<noteq> CHR ''-''" "hd (decimal n @ ''s'') \<noteq> CHR ''+''" using hd by (auto simp: is_digit_def)
  moreover have "decimal n @ ''s'' \<noteq> ''0''" using decimal_not_Nil [of n] by (cases "decimal n") auto
  ultimately show ?thesis using n by (simp add: ParseDuration_def print_seconds_def)
qed

section \<open>Printing\<close>

text \<open>\<^verbatim>\<open>Duration.String\<close>: the fraction is printed without trailing zeros, the units from the largest that is not zero.\<close>

definition fmtFrac :: "nat \<Rightarrow> nat \<Rightarrow> string" where
  "fmtFrac v prec =
     (let ds = decimal (v mod 10 ^ prec);
          ds = replicate (prec - length ds) (CHR ''0'') @ ds;
          ds = rev (dropWhile (\<lambda>c. c = CHR ''0'') (rev ds))
      in if ds = [] then [] else CHR ''.'' # ds)"

definition Duration_String :: "duration \<Rightarrow> string" where
  "Duration_String d =
     (let u = nat \<bar>d\<bar>; sign = (if d < 0 then ''-'' else []) in
      if u = 0 then ''0s''
      else if u < 1000 then sign @ decimal u @ ''ns''
      else if u < 1000000 then sign @ decimal (u div 1000) @ fmtFrac u 3 @ [CHR 0xC2, CHR 0xB5, CHR ''s'']
      else if u < 1000000000 then sign @ decimal (u div 1000000) @ fmtFrac u 6 @ ''ms''
      else
        (let secs = u div 1000000000; mins = secs div 60; hours = mins div 60 in
         sign @ (if hours > 0 then decimal hours @ ''h'' else []) @
         (if mins > 0 then decimal (mins mod 60) @ ''m'' else []) @
         decimal (secs mod 60) @ fmtFrac u 9 @ ''s''))"

section \<open>What is printed is read back\<close>

lemma length_decimal: "n < 10 ^ Suc k \<Longrightarrow> length (decimal n) \<le> Suc k"
proof (induction k arbitrary: n)
  case 0
  then show ?case by (subst decimal.simps) simp
next
  case (Suc k)
  then have "n div 10 < 10 ^ Suc k" by (simp add: less_mult_imp_div_less mult.commute)
  then show ?case using Suc.IH [of "n div 10"] by (subst decimal.simps) auto
qed

lemma digits_value_zeros: "digits_value (ds @ replicate j (CHR ''0'')) = digits_value ds * 10 ^ j"
proof (induction j)
  case (Suc j)
  have "ds @ replicate (Suc j) (CHR ''0'') = (ds @ replicate j (CHR ''0'')) @ [CHR ''0'']"
    by (simp add: replicate_append_same)
  then show ?case using Suc by (simp add: digits_value_snoc del: append_assoc)
qed simp

lemma digits_value_padded: "digits_value (replicate j (CHR ''0'') @ ds) = digits_value ds"
  by (induction j) (simp_all add: digits_value_def)

lemma zeros_split: "\<exists>j. ds = rev (dropWhile (\<lambda>c. c = CHR ''0'') (rev ds)) @ replicate j (CHR ''0'')"
proof -
  let ?z = "takeWhile (\<lambda>c. c = CHR ''0'') (rev ds)"
  have "ds = rev (dropWhile (\<lambda>c. c = CHR ''0'') (rev ds)) @ rev ?z"
    by (metis rev_append rev_rev_ident takeWhile_dropWhile_id)
  moreover have "rev ?z = replicate (length ?z) (CHR ''0'')"
    by (rule replicate_eqI) (auto dest: set_takeWhileD)
  ultimately show ?thesis by metis
qed

definition frac_part :: "string \<Rightarrow> string" where
  "frac_part fs = (if fs = [] then [] else CHR ''.'' # fs)"

lemma fmtFrac_spec:
  "\<exists>fs. fmtFrac v (Suc k) = frac_part fs \<and> list_all is_digit fs \<and> length fs \<le> Suc k \<and>
     digits_value fs * 10 ^ (Suc k - length fs) = v mod 10 ^ Suc k"
proof -
  let ?d = "decimal (v mod 10 ^ Suc k)"
  define ds where "ds = replicate (Suc k - length ?d) (CHR ''0'') @ ?d"
  define fs where "fs = rev (dropWhile (\<lambda>c. c = CHR ''0'') (rev ds))"
  have len: "length ds = Suc k" using length_decimal [of "v mod 10 ^ Suc k" k] by (simp add: ds_def)
  have dig: "list_all is_digit ds" using decimal_digits by (auto simp: ds_def list_all_iff is_digit_def)
  obtain j where j: "ds = fs @ replicate j (CHR ''0'')" using zeros_split [of ds] unfolding fs_def by auto
  have "digits_value ds = v mod 10 ^ Suc k" by (simp add: ds_def digits_value_padded digits_value_decimal)
  then have "digits_value fs * 10 ^ j = v mod 10 ^ Suc k" using j by (simp add: digits_value_zeros)
  moreover have "j = Suc k - length fs" "length fs \<le> Suc k" using len j by auto
  moreover have "list_all is_digit fs" using dig j by (simp add: list_all_iff)
  moreover have "fmtFrac v (Suc k) = frac_part fs" unfolding fmtFrac_def Let_def frac_part_def fs_def ds_def by (rule refl)
  ultimately show ?thesis by blast
qed

lemma component_read:
  assumes fs: "list_all is_digit fs" and u: "u \<noteq> []" "list_all unit_char u" "unit_value u = Some m"
    and rest: "rest = [] \<or> is_digit (hd rest)"
    and b: "v \<le> 2 ^ 63 div m" "v * m + digits_value fs * m div 10 ^ length fs \<le> 2 ^ 63" "v \<le> 2 ^ 63"
  shows "parse_component (decimal v @ frac_part fs @ u @ rest) = Some (v * m + digits_value fs * m div 10 ^ length fs, rest)"
proof -
  let ?s1 = "frac_part fs @ u @ rest"
  have hu: "\<not> is_digit (hd u)" "hd u \<noteq> CHR ''.''" using u(1,2) by (cases u; simp add: unit_char_def)+
  have s1: "\<not> is_digit (hd ?s1)" "?s1 \<noteq> []" using u(1) hu by (auto simp: frac_part_def is_digit_def)
  have tw: "takeWhile is_digit (decimal v @ ?s1) = decimal v" "dropWhile is_digit (decimal v @ ?s1) = ?s1"
    using decimal_digits [of v] s1 by (cases ?s1; auto simp: list_all_iff takeWhile_append dropWhile_append takeWhile_eq_all_conv)+
  have dot: "(?s1 \<noteq> [] \<and> hd ?s1 = CHR ''.'') \<longleftrightarrow> fs \<noteq> []" using hu u(1) by (auto simp: frac_part_def)
  have fr: "takeWhile is_digit (fs @ u @ rest) = fs" "dropWhile is_digit (fs @ u @ rest) = u @ rest"
    using fs hu u(1) by (cases u; auto simp: list_all_iff takeWhile_append dropWhile_append takeWhile_eq_all_conv)+
  have s2: "(if fs \<noteq> [] then takeWhile is_digit (tl ?s1) else []) = fs"
    "(if fs \<noteq> [] then dropWhile is_digit (tl ?s1) else ?s1) = u @ rest"
    using fr by (simp_all add: frac_part_def)
  have un: "takeWhile unit_char (u @ rest) = u" "dropWhile unit_char (u @ rest) = rest"
    using u(2) rest by (cases rest; auto simp: list_all_iff takeWhile_append dropWhile_append takeWhile_eq_all_conv unit_char_def)+
  show ?thesis
    unfolding parse_component_def Let_def tw dot s2 un digits_value_decimal using u b by simp
qed

lemma components_read:
  assumes "list_all is_digit fs" "u \<noteq> []" "list_all unit_char u" "unit_value u = Some m" "rest = [] \<or> is_digit (hd rest)"
    and "m \<le> 2 ^ 63" "d + v * m + digits_value fs * m div 10 ^ length fs \<le> 2 ^ 63" "m > 0"
  shows "parse_components d (decimal v @ frac_part fs @ u @ rest) =
    parse_components (d + v * m + digits_value fs * m div 10 ^ length fs) rest"
proof -
  have "v * m \<le> 2 ^ 63" using assms(7) by linarith
  then have b: "v \<le> 2 ^ 63 div m" using assms(8) by (simp add: less_eq_div_iff_mult_less_eq)
  also have "\<dots> \<le> 2 ^ 63" by (rule div_le_dividend)
  finally have b': "v \<le> 2 ^ 63" .
  have "parse_component (decimal v @ frac_part fs @ u @ rest) = Some (v * m + digits_value fs * m div 10 ^ length fs, rest)"
    by (rule component_read) (use assms b b' in auto)
  then show ?thesis using assms(7) by (subst parse_components.simps) (simp add: add.assoc)
qed

lemma units_read [simp]: "unit_value ''h'' = Some 3600000000000" "unit_value ''m'' = Some 60000000000" "unit_value ''s'' = Some (10 ^ 9)"
  "unit_value ''ms'' = Some (10 ^ 6)" "unit_value [CHR 0xC2, CHR 0xB5, CHR ''s''] = Some (10 ^ 3)" "unit_value ''ns'' = Some 1"
  by (simp_all add: unit_value_def)

lemma unit_chars [simp]: "unit_char (CHR ''h'')" "unit_char (CHR ''m'')" "unit_char (CHR ''s'')" "unit_char (CHR ''n'')"
  "unit_char (CHR 0xC2)" "unit_char (CHR 0xB5)"
  by (simp_all add: unit_char_def is_digit_def)

lemma parse_components_Nil [simp]: "parse_components d [] = Some d"
  by (simp add: parse_components.simps)

lemma hd_decimal_digit: "is_digit (hd (decimal n @ s))"
  using decimal_digits [of n] decimal_not_Nil [of n] by (cases "decimal n") auto

lemma hd_decimal [simp]: "is_digit (hd (decimal n))"
  using hd_decimal_digit [of n "[]"] by simp

lemma clock_parts:
  fixes secs :: nat
  shows "secs = mins * 60 + s \<Longrightarrow> mins = hours * 60 + m \<Longrightarrow> secs * 1000000000 + r = u \<Longrightarrow>
    mins * 60000000000 + s * 1000000000 + r = u \<and> hours * 3600000000000 + m * 60000000000 + s * 1000000000 + r = u"
  by auto

text \<open>A number with a printed fraction, in a unit of \<open>10 ^ k\<close> nanoseconds, at the end of the input.\<close>

lemma last_component:
  assumes "u \<noteq> []" "list_all unit_char u" "unit_value u = Some (10 ^ Suc k)" "Suc k \<le> 9"
    and "d + v * 10 ^ Suc k + n mod 10 ^ Suc k \<le> 2 ^ 63"
  shows "parse_components d (decimal v @ fmtFrac n (Suc k) @ u) = Some (d + v * 10 ^ Suc k + n mod 10 ^ Suc k)"
proof -
  obtain fs where fs: "fmtFrac n (Suc k) = frac_part fs" "list_all is_digit fs" "length fs \<le> Suc k"
    "digits_value fs * 10 ^ (Suc k - length fs) = n mod 10 ^ Suc k"
    using fmtFrac_spec by blast
  have "(10 :: nat) ^ Suc k = 10 ^ (Suc k - length fs) * 10 ^ length fs" using fs(3) by (simp flip: power_add)
  then have "digits_value fs * 10 ^ Suc k div 10 ^ length fs = digits_value fs * 10 ^ (Suc k - length fs)"
    by (metis div_mult_self_is_m mult.assoc zero_less_numeral zero_less_power)
  then have f: "digits_value fs * 10 ^ Suc k div 10 ^ length fs = n mod 10 ^ Suc k" using fs(4) by simp
  have "(10 :: nat) ^ Suc k \<le> 10 ^ 9" using assms(4) by (rule power_increasing) simp
  then have "(10 :: nat) ^ Suc k \<le> 2 ^ 63" by simp
  then have "parse_components d (decimal v @ frac_part fs @ u @ []) =
      parse_components (d + v * 10 ^ Suc k + digits_value fs * 10 ^ Suc k div 10 ^ length fs) []"
    using assms fs(2) f by (intro components_read) auto
  then show ?thesis by (simp only: fs(1) f append_Nil2 parse_components_Nil)
qed

definition magnitude :: "nat \<Rightarrow> string" where
  "magnitude u =
     (if u < 1000 then decimal u @ ''ns''
      else if u < 1000000 then decimal (u div 1000) @ fmtFrac u 3 @ [CHR 0xC2, CHR 0xB5, CHR ''s'']
      else if u < 1000000000 then decimal (u div 1000000) @ fmtFrac u 6 @ ''ms''
      else
        (let secs = u div 1000000000; mins = secs div 60; hours = mins div 60 in
         (if hours > 0 then decimal hours @ ''h'' else []) @
         (if mins > 0 then decimal (mins mod 60) @ ''m'' else []) @
         decimal (secs mod 60) @ fmtFrac u 9 @ ''s''))"

lemma Duration_String_magnitude: "d \<noteq> 0 \<Longrightarrow> Duration_String d = (if d < 0 then ''-'' else []) @ magnitude (nat \<bar>d\<bar>)"
  by (simp add: Duration_String_def magnitude_def Let_def)

lemma read_seconds:
  "d + s * 10 ^ 9 + u mod 10 ^ 9 \<le> 2 ^ 63 \<Longrightarrow>
   parse_components d (decimal s @ fmtFrac u 9 @ ''s'') = Some (d + s * 10 ^ 9 + u mod 10 ^ 9)"
  using last_component [of "''s''" 8 d s u] by simp

lemma read_minutes:
  "d + m * 60000000000 + s * 10 ^ 9 + u mod 10 ^ 9 \<le> 2 ^ 63 \<Longrightarrow>
   parse_components d (decimal m @ ''m'' @ decimal s @ fmtFrac u 9 @ ''s'') = Some (d + m * 60000000000 + s * 10 ^ 9 + u mod 10 ^ 9)"
  using components_read [of "[]" "''m''" 60000000000 "decimal s @ fmtFrac u 9 @ ''s''" d m]
  by (simp add: frac_part_def read_seconds hd_decimal_digit)

lemma read_hours:
  "h * 3600000000000 + m * 60000000000 + s * 10 ^ 9 + u mod 10 ^ 9 \<le> 2 ^ 63 \<Longrightarrow>
   parse_components 0 (decimal h @ ''h'' @ decimal m @ ''m'' @ decimal s @ fmtFrac u 9 @ ''s'') =
     Some (h * 3600000000000 + m * 60000000000 + s * 10 ^ 9 + u mod 10 ^ 9)"
  using components_read [of "[]" "''h''" 3600000000000 "decimal m @ ''m'' @ decimal s @ fmtFrac u 9 @ ''s''" 0 h]
    read_minutes [of "h * 3600000000000" m s u]
  by (simp add: frac_part_def hd_decimal_digit)

lemma read_nanoseconds: "u \<le> 2 ^ 63 \<Longrightarrow> parse_components 0 (decimal u @ ''ns'') = Some u"
  using components_read [of "[]" "''ns''" 1 "[]" 0 u] by (simp add: frac_part_def)

lemma read_micros: "u \<le> 2 ^ 63 \<Longrightarrow> parse_components 0 (decimal (u div 1000) @ fmtFrac u 3 @ [CHR 0xC2, CHR 0xB5, CHR ''s'']) = Some u"
  using last_component [of "[CHR 0xC2, CHR 0xB5, CHR ''s'']" 2 0 "u div 1000" u] by simp

lemma read_millis: "u \<le> 2 ^ 63 \<Longrightarrow> parse_components 0 (decimal (u div 1000000) @ fmtFrac u 6 @ ''ms'') = Some u"
  using last_component [of "''ms''" 5 0 "u div 1000000" u] by simp

lemma read_magnitude: "u \<le> 2 ^ 63 \<Longrightarrow> parse_components 0 (magnitude u) = Some u"
proof -
  assume u: "u \<le> 2 ^ 63"
  define secs mins hours where h: "secs = u div 1000000000" "mins = secs div 60" "hours = mins div 60"
  have "secs * 1000000000 + u mod 10 ^ 9 = u" "secs = mins * 60 + secs mod 60" "mins = hours * 60 + mins mod 60"
    by (simp_all add: h)
  then have m: "mins * 60000000000 + (secs mod 60) * 1000000000 + u mod 10 ^ 9 = u"
    and hh: "hours * 3600000000000 + (mins mod 60) * 60000000000 + (secs mod 60) * 1000000000 + u mod 10 ^ 9 = u"
    using clock_parts by blast+
  have "u \<ge> 1000000000 \<Longrightarrow> parse_components 0 (magnitude u) = Some u"
    using read_seconds [of 0 "secs mod 60" u] read_minutes [of 0 "mins mod 60" "secs mod 60" u]
      read_hours [of hours "mins mod 60" "secs mod 60" u] m hh u
    unfolding magnitude_def Let_def h [symmetric] by (auto simp: h(3))
  then show ?thesis using u read_nanoseconds [OF u] read_micros [OF u] read_millis [OF u]
    by (cases "u < 1000000000") (auto simp: magnitude_def)
qed

text \<open>Every duration of 64 bits is printed so that it is read back.\<close>

theorem duration_roundtrip: "in_int64 d \<Longrightarrow> ParseDuration (Duration_String d) = Some d"
proof (cases "d = 0")
  case True
  have "print_seconds 0 = ''0s''" by code_simp
  then show ?thesis using True ParseDuration_seconds [of 0] by (simp add: Duration_String_def)
next
  case False
  assume d: "in_int64 d"
  let ?u = "nat \<bar>d\<bar>"
  have u: "?u \<le> 2 ^ 63" "d \<ge> 0 \<Longrightarrow> ?u \<le> 2 ^ 63 - 1" using d by (auto simp: in_int64_def min_duration_def max_duration_def)
  have hd: "is_digit (hd (magnitude ?u))" "magnitude ?u \<noteq> []" "last (magnitude ?u) = CHR ''s''"
    unfolding magnitude_def Let_def by (auto simp: hd_decimal_digit)
  then have "hd (magnitude ?u) \<noteq> CHR ''-''" "hd (magnitude ?u) \<noteq> CHR ''+''" "magnitude ?u \<noteq> ''0''" by (auto simp: is_digit_def)
  then show ?thesis using False hd(2) u read_magnitude [OF u(1)]
    by (auto simp: Duration_String_magnitude ParseDuration_def Let_def)
qed

end
