(* ===== verification/Healthcheck.thy ===== *)
theory Healthcheck
  imports Agent GoTime
begin

text \<open>
  \<^verbatim>\<open>internal/healthcheck\<close>: \<^verbatim>\<open>check.go\<close>, the definition and the outcome of a probe, and \<^verbatim>\<open>monitor.go\<close>, which
  keeps a service alive while its checks pass. What a probe meets on the network and what a script
  returns are arguments (\<open>Net\<close>). The goroutine of a service is one function per tick.
\<close>

section \<open>Checks\<close>

datatype Kind = KindHTTP | KindTCP | KindUDP | KindScript | KindOther string

definition defaultInterval :: duration where
  "defaultInterval = 10 * second"

definition defaultTimeout :: duration where
  "defaultTimeout = 5 * second"

record Definition =
  d_Kind :: Kind
  d_Target :: string
  d_Method :: string
  d_Header :: "(string, string list) fmap"
  d_Args :: "string list"
  d_Interval :: duration
  d_Timeout :: duration
  d_TLSSkipVerify :: bool

definition Definition_zero :: Definition where
  "Definition_zero = \<lparr>d_Kind = KindOther [], d_Target = [], d_Method = [], d_Header = fmempty, d_Args = [],
     d_Interval = 0, d_Timeout = 0, d_TLSSkipVerify = False\<rparr>"

definition check_interval :: "Definition \<Rightarrow> duration" where
  "check_interval d = (if d_Interval d > 0 then d_Interval d else defaultInterval)"

definition check_timeout :: "Definition \<Rightarrow> duration" where
  "check_timeout d =
     (if d_Timeout d > 0 then d_Timeout d
      else if d_Interval d > 0 \<and> d_Interval d < defaultTimeout then d_Interval d
      else defaultTimeout)"

text \<open>What reading from the socket of a UDP probe gives.\<close>

datatype udp_read = Reply | NoReply | ReadError

record Net =
  net_http :: "string \<Rightarrow> Definition \<Rightarrow> int option"
  net_tcp :: "string \<Rightarrow> bool"
  net_udp :: "string \<Rightarrow> udp_read option"
  net_exec :: "string list \<Rightarrow> bool"

datatype probe_error = Network | HttpStatus int | ScriptDisabled | ScriptNoArgs | ScriptNotAbsolute string | ScriptFailed | UnknownKind string

definition probeHTTP :: "Net \<Rightarrow> Definition \<Rightarrow> probe_error option" where
  "probeHTTP net d =
     (let verb = (if d_Method d = [] then ''GET'' else d_Method d) in
      case net_http net verb d of
        None \<Rightarrow> Some Network
      | Some code \<Rightarrow> if code < 200 \<or> code > 299 then Some (HttpStatus code) else None)"

definition probeTCP :: "Net \<Rightarrow> string \<Rightarrow> probe_error option" where
  "probeTCP net addr = (if net_tcp net addr then None else Some Network)"

definition probeUDP :: "Net \<Rightarrow> string \<Rightarrow> probe_error option" where
  "probeUDP net addr =
     (case net_udp net addr of
        None \<Rightarrow> Some Network
      | Some Reply \<Rightarrow> None
      | Some NoReply \<Rightarrow> None
      | Some ReadError \<Rightarrow> Some Network)"

definition IsAbs :: "string \<Rightarrow> bool" where
  "IsAbs path = HasPrefix path ''/''"

definition probeScript :: "Net \<Rightarrow> string list \<Rightarrow> probe_error option" where
  "probeScript net args =
     (case args of
        [] \<Rightarrow> Some ScriptNoArgs
      | cmd # _ \<Rightarrow> if \<not> IsAbs cmd then Some (ScriptNotAbsolute cmd)
                   else if net_exec net args then None else Some ScriptFailed)"

definition probe :: "Net \<Rightarrow> Definition \<Rightarrow> bool \<Rightarrow> probe_error option" where
  "probe net d enableScript =
     (case d_Kind d of
        KindHTTP \<Rightarrow> probeHTTP net d
      | KindTCP \<Rightarrow> probeTCP net (d_Target d)
      | KindUDP \<Rightarrow> probeUDP net (d_Target d)
      | KindScript \<Rightarrow> if \<not> enableScript then Some ScriptDisabled else probeScript net (d_Args d)
      | KindOther k \<Rightarrow> Some (UnknownKind k))"

section \<open>The monitor\<close>

text \<open>A service under check: the checks of its running loop and the health noted last.\<close>

record svcState =
  ss_defs :: "Definition list"
  ss_healthy :: bool

record Monitor =
  mo_enableScript :: bool
  mo_services :: "(string, svcState) fmap"

definition Monitor_New :: "bool \<Rightarrow> Monitor" where
  "Monitor_New enableScript = \<lparr>mo_enableScript = enableScript, mo_services = fmempty\<rparr>"

definition Monitor_Stop :: "Monitor \<Rightarrow> Monitor" where
  "Monitor_Stop m = m\<lparr>mo_services := fmempty\<rparr>"

definition Monitor_Remove :: "string \<Rightarrow> Monitor \<Rightarrow> Monitor" where
  "Monitor_Remove serviceID m =
     (case fmlookup (mo_services m) serviceID of
        None \<Rightarrow> m
      | Some _ \<Rightarrow> m\<lparr>mo_services := fmdrop serviceID (mo_services m)\<rparr>)"

definition Monitor_Set :: "string \<Rightarrow> Definition list \<Rightarrow> Monitor \<Rightarrow> Monitor" where
  "Monitor_Set serviceID defs m =
     (let m = Monitor_Remove serviceID m in
      if length defs = 0 then m
      else m\<lparr>mo_services := fmupd serviceID \<lparr>ss_defs = defs, ss_healthy = True\<rparr> (mo_services m)\<rparr>)"

definition Active :: "Monitor \<Rightarrow> string \<Rightarrow> bool" where
  "Active m serviceID \<longleftrightarrow> fmlookup (mo_services m) serviceID \<noteq> None"

definition minInterval :: "Definition list \<Rightarrow> duration" where
  "minInterval defs =
     fold (\<lambda>d lowest. if check_interval d < lowest then check_interval d else lowest) (tl defs) (check_interval (hd defs))"

definition note_health :: "string \<Rightarrow> bool \<Rightarrow> Monitor \<Rightarrow> Monitor" where
  "note_health serviceID healthy m =
     (case fmlookup (mo_services m) serviceID of
        None \<Rightarrow> m
      | Some s \<Rightarrow> if ss_healthy s = healthy then m
                  else m\<lparr>mo_services := fmupd serviceID (s\<lparr>ss_healthy := healthy\<rparr>) (mo_services m)\<rparr>)"

text \<open>The checks run in order up to the first that fails.\<close>

fun run_checks :: "Net \<Rightarrow> bool \<Rightarrow> Definition list \<Rightarrow> bool" where
  "run_checks net enableScript [] = True"
| "run_checks net enableScript (d # defs) =
     (case probe net d enableScript of None \<Rightarrow> run_checks net enableScript defs | Some _ \<Rightarrow> False)"

text \<open>One tick of the loop of a service; it ended when the service was removed.\<close>

definition monitor_tick :: "Net \<Rightarrow> world \<Rightarrow> string \<Rightarrow> Monitor \<times> agent \<Rightarrow> Monitor \<times> agent" where
  "monitor_tick net w serviceID st =
     (case st of (m, a) \<Rightarrow>
        case fmlookup (mo_services m) serviceID of
          None \<Rightarrow> (m, a)
        | Some s \<Rightarrow>
            (let healthy = run_checks net (mo_enableScript m) (ss_defs s);
                 a' = (if healthy then snd (KeepAlive w serviceID a) else a)
             in (note_health serviceID healthy m, a')))"

section \<open>Properties\<close>

lemma run_checks_iff: "run_checks net en defs \<longleftrightarrow> (\<forall>d\<in>set defs. probe net d en = None)"
  by (induction defs) (auto split: option.splits)

lemma check_interval_pos: "check_interval d > 0"
  by (simp add: check_interval_def defaultInterval_def)

lemma minInterval_Min: "defs \<noteq> [] \<Longrightarrow> minInterval defs = Min (check_interval ` set defs)"
proof -
  have f: "fold (\<lambda>d lowest. if check_interval d < lowest then check_interval d else lowest) xs x = Min (insert x (check_interval ` set xs))"
    for xs and x :: duration
  proof (induction xs arbitrary: x)
    case (Cons d xs)
    have "(if check_interval d < x then check_interval d else x) = min x (check_interval d)" by (simp add: min_def)
    then show ?case using Cons by (cases "xs = []") (simp_all add: min.assoc min.commute)
  qed simp
  assume "defs \<noteq> []"
  then show ?thesis by (cases defs) (simp_all add: minInterval_def f)
qed

lemma minInterval_pos: "defs \<noteq> [] \<Longrightarrow> minInterval defs > 0"
  by (simp add: minInterval_Min Min_gr_iff check_interval_pos)

lemma check_timeout_pos: "check_timeout d > 0"
  by (simp add: check_timeout_def defaultTimeout_def)

lemma renew_loop_other: "renew_loop now nid ids m = (err, m') \<Longrightarrow> sid \<notin> set ids \<Longrightarrow> svc_at m' nid' sid = svc_at m nid' sid"
proof (induction ids arbitrary: m)
  case (Cons i ids)
  then show ?case by (cases "svc_at m nid i") (auto simp: store_simps split: option.splits)
qed simp

text \<open>A registration leaves the services it does not name alone, whether it succeeds or not.\<close>

lemma register_loop_others:
  "register_loop now evclk meta gen svcs sz events m = (err, out, m') \<Longrightarrow> sid \<notin> svc_id ` set svcs \<Longrightarrow>
   svc_at m' nid sid = svc_at m nid sid \<and> m_opts m' = m_opts m"
proof (induction svcs arbitrary: sz events m)
  case (Cons s rest)
  have sid: "sid \<noteq> svc_id s" "sid \<notin> svc_id ` set rest" using Cons.prems(2) by auto
  define d where "d = normalise_def (m_opts m) now gen s"
  have d: "s_ID d = svc_id s" by (simp add: d_def)
  note run = Cons.prems(1) [unfolded register_loop.simps Let_def, folded d_def]
  show ?case
  proof (cases "svc_at m (n_ID meta) (s_ID d)")
    case None
    obtain ev m1 where c: "create_svc evclk meta d m = (ev, m1)" by fastforce
    have "svc_at m1 nid sid = svc_at m nid sid" using c sid(1) d
      by (auto simp: create_svc_def next_index_def Let_def store_simps)
    then show ?thesis using run None c Cons.IH [OF _ sid(2)]
      by (auto simp: m_opts_create_svc [OF c] split: if_splits)
  next
    case (Some svc)
    show ?thesis using run Some Cons.IH [OF _ sid(2)] sid(1) d
      by (auto simp: store_simps next_index_def split: if_splits)
  qed
qed simp

lemma Memory_Register_others:
  "Memory_Register now evclk reg m = (err, out, m') \<Longrightarrow> sid \<notin> svc_id ` set (r_Services reg) \<Longrightarrow>
   svc_at m' nid sid = svc_at m nid sid"
  using register_loop_others [of now evclk "r_Node reg" "r_Generation reg" "r_Services reg" "Memory_Size m" "[]" "touch_node (r_Node reg) m" err out m' sid nid]
  by (auto simp: Memory_Register_def store_simps split: if_splits)

lemma KeepAlive_others:
  assumes "distinct (sc_conns (ag_client p))" "hosting (ag_hosted p)" "i \<noteq> sid"
    and "KeepAlive (seeds_run now evclk ord lk) i (p, cl) = (err, p', cl')"
  shows "p' = p \<and> svc_at (cl' a) nid sid = svc_at (cl a) nid sid"
proof (cases "fmlookup (ag_hosted p) i")
  case None
  then show ?thesis using assms(4) by (simp add: KeepAlive_def)
next
  case (Some svc)
  let ?w = "seeds_run now evclk ord lk"
  let ?reg = "\<lparr>r_Node = ag_node p, r_Services = [svc], r_Generation = s_Generation svc\<rparr>"
  have id: "svc_id svc = i" "i \<noteq> []" using assms(2) Some by (auto simp: hosting_def svc_id_def)
  obtain res where run: "fanOut ?w (RegisterRequest (Some (RegistrationToProto ?reg))) (ag_client p) cl = (res, cl')" and p': "p' = p"
    using assms(4) Some by (auto simp: KeepAlive_def SeedClient_Register_def split: prod.splits)
  obtain err1 out m' where m': "Memory_Register (now a) evclk (wire_reg ?reg) (cl a) = (err1, out, m')" by (metis prod_cases3)
  have "svc_id ` set (r_Services (wire_reg ?reg)) = {i}" using id(1) by (auto simp: wire_reg_def svc_id_def)
  then have same: "svc_at m' nid sid = svc_at (cl a) nid sid" using Memory_Register_others [OF m', of sid nid] assms(3) by simp
  have "snd (call_seed (?w a) (RegisterRequest (Some (RegistrationToProto ?reg))) (cl a)) \<in> {cl a, m'}"
    using m' by (auto simp: call_seed_def seeds_run_def Service_Register_def Registration_wire reply_of_def
        split: link.splits option.splits)
  then show ?thesis using fanOut_effect(3) [OF run assms(1), of a] same p' by auto
qed

text \<open>
  The two loops that keep leases alive while a check of \<open>sid\<close> fails: ticks of the renew loop, gated by the
  monitor, and ticks of the monitor for any service, among whose checks those of \<open>sid\<close> fail.
\<close>

inductive failing_step :: "string \<Rightarrow> Monitor \<times> agent \<Rightarrow> Monitor \<times> agent \<Rightarrow> bool" for sid where
  renew [step_intros]: "renewOnce (seeds_run now evclk ord lk) order (SetCheckGate (Some (Active m)) p, cl) = (p', cl') \<Longrightarrow>
    failing_step sid (m, p, cl) (m, p', cl')"
| check [step_intros]: "monitor_tick net (seeds_run now evclk ord lk) i (m, p, cl) = (m', p', cl') \<Longrightarrow>
    (\<And>s. i = sid \<Longrightarrow> fmlookup (mo_services m) sid = Some s \<Longrightarrow> \<not> run_checks net (mo_enableScript m) (ss_defs s)) \<Longrightarrow>
    failing_step sid (m, p, cl) (m', p', cl')"

definition watched :: "string \<Rightarrow> Monitor \<times> agent \<Rightarrow> bool" where
  "watched sid st \<longleftrightarrow> (case st of (m, p, cl) \<Rightarrow> Active m sid \<and> distinct (sc_conns (ag_client p)) \<and> hosting (ag_hosted p))"

lemma Memory_Renew_other: "ids \<noteq> [] \<Longrightarrow> sid \<notin> set ids \<Longrightarrow> svc_at (snd (Memory_Renew now nid ids m)) nid' sid = svc_at m nid' sid"
  using renew_loop_other [of now nid ids m _ _ sid nid']
  by (auto simp: Memory_Renew_def split: option.splits prod.splits) (metis prod.collapse)

lemma failing_step_keeps:
  assumes "failing_step sid st st'" "watched sid st"
  shows "watched sid st' \<and> svc_at (snd (snd st') a) nid sid = svc_at (snd (snd st) a) nid sid"
  using assms
proof (induction rule: failing_step.induct)
  case (renew now evclk ord lk order m p cl p' cl')
  have d: "distinct (sc_conns (ag_client (SetCheckGate (Some (Active m)) p)))" using renew(2) by (simp add: watched_def SetCheckGate_def)
  have no: "sid \<notin> set (filter (\<lambda>i. \<not> Active m i) order)" using renew(2) by (simp add: watched_def)
  from renewOnce_effect [OF d, of now evclk ord lk order cl] renew(1)
  have p': "p' = SetCheckGate (Some (Active m)) p" and "cl' a = cl a \<or> filter (\<lambda>i. \<not> Active m i) order \<noteq> [] \<and>
      cl' a = snd (Memory_Renew (now a) (n_ID (ag_node p)) (filter (\<lambda>i. \<not> Active m i) order) (cl a))"
    by (auto simp: SetCheckGate_def)
  then have "svc_at (cl' a) nid sid = svc_at (cl a) nid sid" using Memory_Renew_other [OF _ no] by auto
  then show ?case using renew(2) p' by (simp add: watched_def SetCheckGate_def)
next
  case (check net now evclk ord lk i m p cl m' p' cl')
  show ?case
  proof (cases "fmlookup (mo_services m) i")
    case None
    then show ?thesis using check by (simp add: monitor_tick_def)
  next
    case (Some s)
    define healthy where "healthy = run_checks net (mo_enableScript m) (ss_defs s)"
    have out: "m' = note_health i healthy m" "(p', cl') = (if healthy then snd (KeepAlive (seeds_run now evclk ord lk) i (p, cl)) else (p, cl))"
      using check(1) Some by (auto simp: monitor_tick_def healthy_def Let_def)
    have "i \<noteq> sid" if healthy using that check(2) Some healthy_def by blast
    then have "p' = p \<and> svc_at (cl' a) nid sid = svc_at (cl a) nid sid"
      using out(2) check(3) KeepAlive_others [of p i sid now evclk ord lk cl "fst (KeepAlive (seeds_run now evclk ord lk) i (p, cl))" p' cl' a nid]
      by (cases healthy) (simp_all add: watched_def prod_eq_iff)
    moreover have "Active m' sid" using check(3) out(1)
      by (auto simp: watched_def Active_def note_health_def split: option.splits if_splits)
    ultimately show ?thesis using check(3) by (simp add: watched_def)
  qed
qed

text \<open>
  C26 (safety). A failing check lets the lease lapse: while a check of a service fails, no tick of the renew loop or of the
  monitor, whatever the other services do and however often they run, touches it on any seed. Once
  its lease has run out a seed therefore answers it as critical, or past the grace period not at all,
  and a healthy-only lookup does not return it.
\<close>

theorem failing_check_lapses:
  "(failing_step sid)\<^sup>*\<^sup>* st st' \<Longrightarrow> watched sid st \<Longrightarrow>
   svc_at (snd (snd st) a) nid sid = Some svc \<Longrightarrow> time_Sub now (s_LastSeen (sv_def svc)) > s_TTL (sv_def svc) \<Longrightarrow>
   svc_at (snd (snd st') a) nid sid = Some svc \<and>
   fst (lease (m_opts (snd (snd st') a)) svc now) = HealthCritical \<and>
   (registry_ok (snd (snd st') a) \<longrightarrow>
      (\<forall>e\<in>set (Filter (lr_Entries (Memory_Lookup now q (snd (snd st') a))) passing_only). entry_id e \<noteq> (nid, sid)))"
proof -
  assume run: "(failing_step sid)\<^sup>*\<^sup>* st st'" and w: "watched sid st" and svc: "svc_at (snd (snd st) a) nid sid = Some svc"
    and late: "time_Sub now (s_LastSeen (sv_def svc)) > s_TTL (sv_def svc)"
  let ?m = "snd (snd st') a"
  have "watched sid st' \<and> svc_at ?m nid sid = Some svc"
    using run w svc by (induction rule: rtranclp_induct) (use failing_step_keeps in metis)+
  then have at: "svc_at ?m nid sid = Some svc" ..
  have crit: "fst (lease opts svc now) = HealthCritical" for opts using late by (simp add: lease_def Let_def)
  have "entry_id e \<noteq> (nid, sid)" if ok: "registry_ok ?m" and e: "e \<in> set (Filter (lr_Entries (Memory_Lookup now q ?m)) passing_only)" for e
  proof
    assume id: "entry_id e = (nid, sid)"
    have names: "names_ok ?m" and ids: "ids_ok ?m" using ok by (simp_all add: registry_ok_def)
    have "e \<in> set (lr_Entries (Memory_Lookup now q ?m))" "e_Health e \<noteq> HealthCritical"
      using e by (auto simp: Filter_def Visible_def split: if_splits)
    then obtain nid' sid' meta svc' where s': "svc_at ?m nid' sid' = Some svc'" "meta_at ?m nid' = Some meta" "e = answer ?m now meta svc'"
      "e_Health e \<noteq> HealthCritical"
      by (auto simp: set_Lookup [OF names])
    then have "nid' = nid" "sid' = sid" using id ids_okD [OF ids] by (auto simp: answer_def entry_def)
    then show False using s' at crit by (simp add: answer_def entry_def)
  qed
  then show ?thesis using at crit by blast
qed

definition ex_checked :: "Monitor \<times> agent" where
  "ex_checked = (Monitor_Set ''s1'' [Definition_zero\<lparr>d_Kind := KindTCP, d_Target := ''10.0.0.1:80''\<rparr>] (Monitor_New False), snd ex_registered)"

definition ex_net :: Net where
  "ex_net = \<lparr>net_http = (\<lambda>_ _. None), net_tcp = (\<lambda>_. False), net_udp = (\<lambda>_. None), net_exec = (\<lambda>_. False)\<rparr>"

definition ex_failing :: "Monitor \<times> agent" where
  "ex_failing = monitor_tick ex_net (seeds_run (\<lambda>_. 500) (\<lambda>_. 500) (\<lambda>_. []) (\<lambda>_. Up)) ''s1'' ex_checked"

theorem failing_check_lapses_witness:
  "\<exists>svc. svc_at (snd (snd ex_failing) ''b'') ''n1'' ''s1'' = Some svc \<and>
     fst (lease (m_opts (snd (snd ex_failing) ''b'')) svc (100 * second)) = HealthCritical"
proof -
  have "failing_step ''s1'' (fst ex_checked, fst (snd ex_checked), snd (snd ex_checked)) (fst ex_failing, fst (snd ex_failing), snd (snd ex_failing))"
  proof (rule failing_step.check [of ex_net "\<lambda>_. 500" "\<lambda>_. 500" "\<lambda>_. []" "\<lambda>_. Up" "''s1''"])
    show "\<not> run_checks ex_net (mo_enableScript (fst ex_checked)) (ss_defs s)"
      if "fmlookup (mo_services (fst ex_checked)) ''s1'' = Some s" for s
      using that by (auto simp: ex_checked_def Monitor_Set_def Monitor_Remove_def Monitor_New_def ex_net_def probe_def probeTCP_def Let_def)
  qed (simp add: ex_failing_def)
  then have run: "(failing_step ''s1'')\<^sup>*\<^sup>* ex_checked ex_failing" by simp
  have "Active (fst ex_checked) ''s1'' \<and> distinct (sc_conns (ag_client (fst (snd ex_registered))))" by code_simp
  moreover have "hosting (ag_hosted (fst (snd ex_registered)))"
    using agent_step_ok [OF agent_step.register [OF ex_registered_run]] by (simp add: ex_proxy_def NewProxy_def hosting_empty)
  ultimately have w: "watched ''s1'' ex_checked" by (auto simp: watched_def ex_checked_def split: prod.splits)
  have "map_option (\<lambda>svc. (s_LastSeen (sv_def svc), s_TTL (sv_def svc))) (svc_at (snd (snd ex_checked) ''b'') ''n1'' ''s1'') = Some (100, 30 * second)"
    by code_simp
  then obtain svc where svc: "svc_at (snd (snd ex_checked) ''b'') ''n1'' ''s1'' = Some svc" "s_LastSeen (sv_def svc) = 100" "s_TTL (sv_def svc) = 30 * second"
    by auto
  then have "time_Sub (100 * second) (s_LastSeen (sv_def svc)) > s_TTL (sv_def svc)"
    by (simp add: time_Sub_def max_duration_def min_duration_def)
  from failing_check_lapses [OF run w svc(1) this] show ?thesis by blast
qed

end
