(* ===== verification/ConsulFilter.thy ===== *)
theory ConsulFilter
  imports GoStrings
begin

text \<open>
  \<^verbatim>\<open>internal/consul/filter.go\<close>: the tokenizer and the recursive-descent parser of the \<^verbatim>\<open>?filter\<close> language
  and the predicates it builds. A compiled filter is a function on views, as in the source. The
  parser keeps the position in the token list; each of its procedures takes fuel, and
  \<open>parse_total\<close> shows how much is always enough.
\<close>

section \<open>Views and predicates\<close>

record view =
  v_tags :: "string list"
  v_meta :: smap
  v_statuses :: "string list"

type_synonym filterExpr = "view \<Rightarrow> bool"

definition list_contains :: "string list \<Rightarrow> string \<Rightarrow> bool" where
  "list_contains list v = list_ex (\<lambda>x. x = v) list"

definition hasPrefixFold :: "string \<Rightarrow> string \<Rightarrow> bool" where
  "hasPrefixFold s prefix \<longleftrightarrow> length s \<ge> length prefix \<and> EqualFold (take (length prefix) s) prefix"

definition scalarEq :: "view \<Rightarrow> string \<Rightarrow> string \<Rightarrow> bool" where
  "scalarEq v selector val =
     (if EqualFold selector ''Checks.Status'' then list_contains (v_statuses v) val
      else if hasPrefixFold selector ''ServiceMeta.''
      then (case fmlookup (v_meta v) (drop (length ''ServiceMeta.'') selector) of None \<Rightarrow> [] | Some x \<Rightarrow> x) = val
      else False)"

definition listHas :: "view \<Rightarrow> string \<Rightarrow> string \<Rightarrow> bool" where
  "listHas v selector val =
     (if EqualFold selector ''ServiceTags'' then list_contains (v_tags v) val
      else if EqualFold selector ''Checks.Status'' then list_contains (v_statuses v) val
      else False)"

definition unquote :: "string \<Rightarrow> string" where
  "unquote s =
     (if length s \<ge> 2 \<and> hd s = CHR 0x22 \<and> last s = CHR 0x22 then butlast (tl s) else s)"

section \<open>The tokenizer\<close>

definition word_char :: "char \<Rightarrow> bool" where
  "word_char c \<longleftrightarrow> c \<notin> {CHR '' '', CHR 0x09, CHR ''('', CHR '')'', CHR 0x22}"

function tokenizeFilter :: "string \<Rightarrow> string list" where
  "tokenizeFilter [] = []"
| "tokenizeFilter (c # s) =
     (if c = CHR '' '' \<or> c = CHR 0x09 then tokenizeFilter s
      else if c = CHR ''('' \<or> c = CHR '')'' then [c] # tokenizeFilter s
      else if c = CHR 0x22
      then let body = takeWhile (\<lambda>x. x \<noteq> CHR 0x22) s; rest = dropWhile (\<lambda>x. x \<noteq> CHR 0x22) s in
        (c # body @ take 1 rest) # tokenizeFilter (drop 1 rest)
      else if c = CHR ''='' \<or> c = CHR ''!''
      then (if s \<noteq> [] \<and> hd s = CHR ''='' then [c, CHR ''=''] # tokenizeFilter (tl s) else [c] # tokenizeFilter s)
      else (c # takeWhile word_char s) # tokenizeFilter (dropWhile word_char s))"
  by pat_completeness auto
termination
  by (relation "measure length")
     (auto simp: le_imp_less_Suc [OF length_dropWhile_le] less_Suc_eq_le intro: le_trans [OF diff_le_self] length_dropWhile_le)

declare tokenizeFilter.simps(2) [simp del]

section \<open>The parser\<close>

datatype filter_error = TrailingToken string | MissingParen | IncompletePredicate | UnsupportedOperator string

text \<open>Out of fuel, an error, or a value and the position reached.\<close>

datatype 'a presult = Timeout | Error filter_error | Parsed 'a nat

definition peek :: "string list \<Rightarrow> nat \<Rightarrow> string" where
  "peek tokens pos = (if pos < length tokens then tokens ! pos else [])"

definition parsePredicate :: "string list \<Rightarrow> nat \<Rightarrow> filterExpr presult" where
  "parsePredicate tokens pos =
     (let left = peek tokens pos; op = peek tokens (pos + 1); right = peek tokens (pos + 2); pos' = pos + 3 in
      if left = [] \<or> op = [] then Error IncompletePredicate
      else let o' = ToLower op in
        if o' = ''=='' then Parsed (\<lambda>v. scalarEq v left (unquote right)) pos'
        else if o' = ''!='' then Parsed (\<lambda>v. \<not> scalarEq v left (unquote right)) pos'
        else if o' = ''contains'' then Parsed (\<lambda>v. listHas v left (unquote right)) pos'
        else if o' = ''in'' then Parsed (\<lambda>v. listHas v right (unquote left)) pos'
        else Error (UnsupportedOperator op))"

function (sequential) parseOr :: "nat \<Rightarrow> string list \<Rightarrow> nat \<Rightarrow> filterExpr presult"
  and or_loop :: "nat \<Rightarrow> string list \<Rightarrow> filterExpr \<Rightarrow> nat \<Rightarrow> filterExpr presult"
  and parseAnd :: "nat \<Rightarrow> string list \<Rightarrow> nat \<Rightarrow> filterExpr presult"
  and and_loop :: "nat \<Rightarrow> string list \<Rightarrow> filterExpr \<Rightarrow> nat \<Rightarrow> filterExpr presult"
  and parseNot :: "nat \<Rightarrow> string list \<Rightarrow> nat \<Rightarrow> filterExpr presult"
  and parsePrimary :: "nat \<Rightarrow> string list \<Rightarrow> nat \<Rightarrow> filterExpr presult" where
  "parseOr 0 tokens pos = Timeout"
| "parseOr (Suc n) tokens pos =
     (case parseAnd n tokens pos of Parsed left pos' \<Rightarrow> or_loop n tokens left pos' | r \<Rightarrow> r)"
| "or_loop 0 tokens left pos = Timeout"
| "or_loop (Suc n) tokens left pos =
     (if EqualFold (peek tokens pos) ''or''
      then (case parseAnd n tokens (pos + 1) of
              Parsed right pos' \<Rightarrow> or_loop n tokens (\<lambda>v. left v \<or> right v) pos' | r \<Rightarrow> r)
      else Parsed left pos)"
| "parseAnd 0 tokens pos = Timeout"
| "parseAnd (Suc n) tokens pos =
     (case parseNot n tokens pos of Parsed left pos' \<Rightarrow> and_loop n tokens left pos' | r \<Rightarrow> r)"
| "and_loop 0 tokens left pos = Timeout"
| "and_loop (Suc n) tokens left pos =
     (if EqualFold (peek tokens pos) ''and''
      then (case parseNot n tokens (pos + 1) of
              Parsed right pos' \<Rightarrow> and_loop n tokens (\<lambda>v. left v \<and> right v) pos' | r \<Rightarrow> r)
      else Parsed left pos)"
| "parseNot 0 tokens pos = Timeout"
| "parseNot (Suc n) tokens pos =
     (if EqualFold (peek tokens pos) ''not''
      then (case parseNot n tokens (pos + 1) of Parsed inner pos' \<Rightarrow> Parsed (\<lambda>v. \<not> inner v) pos' | r \<Rightarrow> r)
      else parsePrimary n tokens pos)"
| "parsePrimary 0 tokens pos = Timeout"
| "parsePrimary (Suc n) tokens pos =
     (if peek tokens pos = ''(''
      then (case parseOr n tokens (pos + 1) of
              Parsed inner pos' \<Rightarrow> if peek tokens pos' \<noteq> '')'' then Error MissingParen else Parsed inner (pos' + 1)
            | r \<Rightarrow> r)
      else parsePredicate tokens pos)"
  by pat_completeness auto
termination
  by (relation "measure (\<lambda>x. case x of
        Inl (Inl (n, _)) \<Rightarrow> n | Inl (Inr (Inl (n, _))) \<Rightarrow> n | Inl (Inr (Inr (n, _))) \<Rightarrow> n
      | Inr (Inl (n, _)) \<Rightarrow> n | Inr (Inr (Inl (n, _))) \<Rightarrow> n | Inr (Inr (Inr (n, _))) \<Rightarrow> n)") auto

definition filter_fuel :: "string list \<Rightarrow> nat" where
  "filter_fuel tokens = 4 * length tokens + 4"

definition parseFilter_fuel :: "nat \<Rightarrow> string \<Rightarrow> filterExpr presult" where
  "parseFilter_fuel n s =
     (let tokens = tokenizeFilter s in
      case parseOr n tokens 0 of
        Parsed expr pos \<Rightarrow> if pos \<noteq> length tokens then Error (TrailingToken (peek tokens pos)) else Parsed expr pos
      | r \<Rightarrow> r)"

definition parseFilter :: "string \<Rightarrow> filter_error + filterExpr" where
  "parseFilter s =
     (case parseFilter_fuel (filter_fuel (tokenizeFilter s)) s of
        Parsed expr _ \<Rightarrow> Inr expr | Error err \<Rightarrow> Inl err | Timeout \<Rightarrow> Inl IncompletePredicate)"

section \<open>The parser returns\<close>

lemma peek_nonempty: "peek tokens pos \<noteq> [] \<Longrightarrow> pos < length tokens"
  by (auto simp: peek_def split: if_splits)

lemma EqualFold_nonempty: "EqualFold (peek tokens pos) w \<Longrightarrow> w \<noteq> [] \<Longrightarrow> pos < length tokens"
  by (rule peek_nonempty) (auto simp: EqualFold_def ToLower_def)

lemma parsePredicate_total: "parsePredicate tokens pos \<noteq> Timeout"
  "parsePredicate tokens pos = Parsed f pos' \<Longrightarrow> pos < pos' \<and> pos < length tokens"
  by (auto simp: parsePredicate_def Let_def dest: peek_nonempty split: if_splits)

abbreviation ahead :: "string list \<Rightarrow> nat \<Rightarrow> nat" where
  "ahead tokens pos \<equiv> length tokens - pos"

lemma parse_total:
  "4 * ahead tokens pos + 4 \<le> n \<Longrightarrow> parseOr n tokens pos \<noteq> Timeout \<and> (\<forall>f p. parseOr n tokens pos = Parsed f p \<longrightarrow> pos < p)"
  "4 * ahead tokens pos + 1 \<le> n \<Longrightarrow> or_loop n tokens left pos \<noteq> Timeout \<and> (\<forall>f p. or_loop n tokens left pos = Parsed f p \<longrightarrow> pos \<le> p)"
  "4 * ahead tokens pos + 3 \<le> n \<Longrightarrow> parseAnd n tokens pos \<noteq> Timeout \<and> (\<forall>f p. parseAnd n tokens pos = Parsed f p \<longrightarrow> pos < p)"
  "4 * ahead tokens pos + 1 \<le> n \<Longrightarrow> and_loop n tokens left pos \<noteq> Timeout \<and> (\<forall>f p. and_loop n tokens left pos = Parsed f p \<longrightarrow> pos \<le> p)"
  "4 * ahead tokens pos + 2 \<le> n \<Longrightarrow> parseNot n tokens pos \<noteq> Timeout \<and> (\<forall>f p. parseNot n tokens pos = Parsed f p \<longrightarrow> pos < p)"
  "4 * ahead tokens pos + 1 \<le> n \<Longrightarrow> parsePrimary n tokens pos \<noteq> Timeout \<and> (\<forall>f p. parsePrimary n tokens pos = Parsed f p \<longrightarrow> pos < p)"
proof (induction n tokens pos and n tokens left pos and n tokens pos and n tokens left pos and n tokens pos and n tokens pos
    rule: parseOr_or_loop_parseAnd_and_loop_parseNot_parsePrimary.induct)
  case (2 n tokens pos)
  show ?case
  proof (cases "parseAnd n tokens pos")
    case (Parsed f p)
    have "pos < p" using 2(1) 2(3) Parsed by auto
    moreover have "4 * ahead tokens p + 1 \<le> n" using \<open>pos < p\<close> 2(3) by linarith
    ultimately show ?thesis using 2(2) [OF Parsed] Parsed by auto
  qed (use 2 in auto)
next
  case (4 n tokens left pos)
  show ?case
  proof (cases "EqualFold (peek tokens pos) ''or''")
    case True
    have lt: "pos < length tokens" using True EqualFold_nonempty by blast
    then have fuel: "4 * ahead tokens (pos + 1) + 3 \<le> n" using 4(3) by arith
    show ?thesis
    proof (cases "parseAnd n tokens (pos + 1)")
      case (Parsed f p)
      have "pos + 1 < p" using 4(1) [OF True fuel] Parsed by auto
      moreover have "4 * ahead tokens p + 1 \<le> n" using \<open>pos + 1 < p\<close> 4(3) lt by linarith
      ultimately show ?thesis using 4(2) [OF True Parsed] True Parsed by auto
    qed (use 4(1) [OF True fuel] True in auto)
  qed auto
next
  case (6 n tokens pos)
  show ?case
  proof (cases "parseNot n tokens pos")
    case (Parsed f p)
    have "pos < p" using 6(1) 6(3) Parsed by auto
    moreover have "4 * ahead tokens p + 1 \<le> n" using \<open>pos < p\<close> 6(3) by linarith
    ultimately show ?thesis using 6(2) [OF Parsed] Parsed by auto
  qed (use 6 in auto)
next
  case (8 n tokens left pos)
  show ?case
  proof (cases "EqualFold (peek tokens pos) ''and''")
    case True
    have lt: "pos < length tokens" using True EqualFold_nonempty by blast
    then have fuel: "4 * ahead tokens (pos + 1) + 2 \<le> n" using 8(3) by arith
    show ?thesis
    proof (cases "parseNot n tokens (pos + 1)")
      case (Parsed f p)
      have "pos + 1 < p" using 8(1) [OF True fuel] Parsed by auto
      moreover have "4 * ahead tokens p + 1 \<le> n" using \<open>pos + 1 < p\<close> 8(3) lt by linarith
      ultimately show ?thesis using 8(2) [OF True Parsed] True Parsed by auto
    qed (use 8(1) [OF True fuel] True in auto)
  qed auto
next
  case (10 n tokens pos)
  show ?case
  proof (cases "EqualFold (peek tokens pos) ''not''")
    case True
    have "pos < length tokens" using True EqualFold_nonempty by blast
    then have "4 * ahead tokens (pos + 1) + 2 \<le> n" using 10(3) by arith
    from 10(1) [OF True this] show ?thesis using True by (auto split: presult.splits)
  qed (use 10 in auto)
next
  case (12 n tokens pos)
  show ?case
  proof (cases "peek tokens pos = ''(''")
    case True
    have "pos < length tokens" using True peek_nonempty [of tokens pos] by simp
    then have "4 * ahead tokens (pos + 1) + 4 \<le> n" using 12(2) by arith
    from 12(1) [OF True this] show ?thesis using True by (auto split: presult.splits if_splits)
  qed (use parsePredicate_total [of tokens pos] in auto)
qed auto

text \<open>More fuel does not change an answer.\<close>

lemma parse_more:
  "parseOr n tokens pos \<noteq> Timeout \<Longrightarrow> parseOr (Suc n) tokens pos = parseOr n tokens pos"
  "or_loop n tokens left pos \<noteq> Timeout \<Longrightarrow> or_loop (Suc n) tokens left pos = or_loop n tokens left pos"
  "parseAnd n tokens pos \<noteq> Timeout \<Longrightarrow> parseAnd (Suc n) tokens pos = parseAnd n tokens pos"
  "and_loop n tokens left pos \<noteq> Timeout \<Longrightarrow> and_loop (Suc n) tokens left pos = and_loop n tokens left pos"
  "parseNot n tokens pos \<noteq> Timeout \<Longrightarrow> parseNot (Suc n) tokens pos = parseNot n tokens pos"
  "parsePrimary n tokens pos \<noteq> Timeout \<Longrightarrow> parsePrimary (Suc n) tokens pos = parsePrimary n tokens pos"
proof (induction n tokens pos and n tokens left pos and n tokens pos and n tokens left pos and n tokens pos and n tokens pos
    rule: parseOr_or_loop_parseAnd_and_loop_parseNot_parsePrimary.induct)
  case (2 n tokens pos)
  then show ?case by (cases "parseAnd n tokens pos") (simp_all del: parseAnd.simps or_loop.simps)
next
  case (4 n tokens left pos)
  then show ?case
    by (cases "EqualFold (peek tokens pos) ''or''"; cases "parseAnd n tokens (pos + 1)")
      (simp_all add: or_loop.simps(2) [of "Suc n"] del: parseAnd.simps)
next
  case (6 n tokens pos)
  then show ?case by (cases "parseNot n tokens pos") (simp_all del: parseNot.simps and_loop.simps)
next
  case (8 n tokens left pos)
  then show ?case
    by (cases "EqualFold (peek tokens pos) ''and''"; cases "parseNot n tokens (pos + 1)")
      (simp_all add: and_loop.simps(2) [of "Suc n"] del: parseNot.simps)
next
  case (10 n tokens pos)
  then show ?case
    by (cases "EqualFold (peek tokens pos) ''not''"; cases "parseNot n tokens (pos + 1)")
      (simp_all add: parseNot.simps(2) [of "Suc n"] del: parsePrimary.simps)
next
  case (12 n tokens pos)
  then show ?case
    by (cases "peek tokens pos = ''(''"; cases "parseOr n tokens (pos + 1)") (simp_all del: parseOr.simps)
qed simp_all

lemma parse_mono:
  assumes "n \<le> n'"
  shows "parseOr n tokens pos \<noteq> Timeout \<Longrightarrow> parseOr n' tokens pos = parseOr n tokens pos"
    "parseAnd n tokens pos \<noteq> Timeout \<Longrightarrow> parseAnd n' tokens pos = parseAnd n tokens pos"
    "parseNot n tokens pos \<noteq> Timeout \<Longrightarrow> parseNot n' tokens pos = parseNot n tokens pos"
  using assms by (induction n' rule: dec_induct) (simp_all add: parse_more del: parseOr.simps parseAnd.simps parseNot.simps)

text \<open>
  C27 (termination). The parser returns on every filter: with fuel of four for each token and four more, and with any fuel beyond, it
  does not run out, it answers the same, and the answer is the one \<^const>\<open>parseFilter\<close> gives.
\<close>

theorem filter_terminates:
  "n \<ge> filter_fuel (tokenizeFilter s) \<Longrightarrow>
   parseFilter_fuel n s \<noteq> Timeout \<and>
   parseFilter s = (case parseFilter_fuel n s of Parsed expr _ \<Rightarrow> Inr expr | Error err \<Rightarrow> Inl err | Timeout \<Rightarrow> Inl IncompletePredicate)"
proof -
  assume n: "n \<ge> filter_fuel (tokenizeFilter s)"
  let ?t = "tokenizeFilter s"
  have ok: "parseOr (filter_fuel ?t) ?t 0 \<noteq> Timeout" using parse_total(1) [of ?t 0 "filter_fuel ?t"] by (simp add: filter_fuel_def)
  have "parseFilter_fuel n s = parseFilter_fuel (filter_fuel ?t) s"
    by (simp add: parseFilter_fuel_def parse_mono(1) [OF n ok] Let_def)
  moreover have "parseFilter_fuel (filter_fuel ?t) s \<noteq> Timeout"
    using ok by (auto simp: parseFilter_fuel_def Let_def split: presult.splits)
  ultimately show ?thesis by (auto simp: parseFilter_def split: presult.splits)
qed

theorem filter_terminates_witness:
  "parseFilter_fuel 100 ''not ServiceTags contains blue'' \<noteq> Timeout \<and>
   filter_fuel (tokenizeFilter ''not ServiceTags contains blue'') = 20"
proof -
  have "filter_fuel (tokenizeFilter ''not ServiceTags contains blue'') = 20" by code_simp
  then show ?thesis using filter_terminates [of "''not ServiceTags contains blue''" 100] by simp
qed

section \<open>Printing and parsing\<close>

text \<open>Filters as expressions, what they mean, and how they are written.\<close>

datatype fexpr =
    FEq string string | FNe string string | FContains string string | FIn string string
  | FNot fexpr | FAnd fexpr fexpr | FOr fexpr fexpr

primrec eval_filter :: "fexpr \<Rightarrow> filterExpr" where
  "eval_filter (FEq sel val) = (\<lambda>v. scalarEq v sel val)"
| "eval_filter (FNe sel val) = (\<lambda>v. \<not> scalarEq v sel val)"
| "eval_filter (FContains sel val) = (\<lambda>v. listHas v sel val)"
| "eval_filter (FIn val sel) = (\<lambda>v. listHas v sel val)"
| "eval_filter (FNot f) = (\<lambda>v. \<not> eval_filter f v)"
| "eval_filter (FAnd f g) = (\<lambda>v. eval_filter f v \<and> eval_filter g v)"
| "eval_filter (FOr f g) = (\<lambda>v. eval_filter f v \<or> eval_filter g v)"

definition quoted :: "string \<Rightarrow> string" where
  "quoted val = CHR 0x22 # val @ [CHR 0x22]"

primrec filter_tokens :: "fexpr \<Rightarrow> string list" where
  "filter_tokens (FEq sel val) = [sel, ''=='', quoted val]"
| "filter_tokens (FNe sel val) = [sel, ''!='', quoted val]"
| "filter_tokens (FContains sel val) = [sel, ''contains'', quoted val]"
| "filter_tokens (FIn val sel) = [quoted val, ''in'', sel]"
| "filter_tokens (FNot f) = ''not'' # filter_tokens f"
| "filter_tokens (FAnd f g) = ''('' # filter_tokens f @ ''and'' # filter_tokens g @ ['')'']"
| "filter_tokens (FOr f g) = ''('' # filter_tokens f @ ''or'' # filter_tokens g @ ['')'']"

definition print_filter :: "fexpr \<Rightarrow> string" where
  "print_filter f = Join '' '' (filter_tokens f)"

definition selector_ok :: "string \<Rightarrow> bool" where
  "selector_ok s \<longleftrightarrow> s \<noteq> [] \<and> list_all word_char s \<and> hd s \<notin> {CHR ''='', CHR ''!''} \<and> \<not> EqualFold s ''not''"

primrec filter_ok :: "fexpr \<Rightarrow> bool" where
  "filter_ok (FEq sel val) \<longleftrightarrow> selector_ok sel \<and> CHR 0x22 \<notin> set val"
| "filter_ok (FNe sel val) \<longleftrightarrow> selector_ok sel \<and> CHR 0x22 \<notin> set val"
| "filter_ok (FContains sel val) \<longleftrightarrow> selector_ok sel \<and> CHR 0x22 \<notin> set val"
| "filter_ok (FIn val sel) \<longleftrightarrow> selector_ok sel \<and> CHR 0x22 \<notin> set val"
| "filter_ok (FNot f) \<longleftrightarrow> filter_ok f"
| "filter_ok (FAnd f g) \<longleftrightarrow> filter_ok f \<and> filter_ok g"
| "filter_ok (FOr f g) \<longleftrightarrow> filter_ok f \<and> filter_ok g"

lemma unquote_quoted [simp]: "unquote (quoted val) = val"
  by (simp add: unquote_def quoted_def)

lemma peek_append: "pos = length pre \<Longrightarrow> i < length mid \<Longrightarrow> peek (pre @ mid @ post) (pos + i) = mid ! i"
  by (simp add: peek_def nth_append)

lemma fold_words: "EqualFold ''and'' ''and''" "EqualFold ''or'' ''or''" "EqualFold ''not'' ''not''" "\<not> EqualFold '')'' ''and''"
    "\<not> EqualFold '')'' ''or''" "\<not> EqualFold ''or'' ''and''" "\<not> EqualFold [] ''and''" "\<not> EqualFold [] ''or''" "\<not> EqualFold ''('' ''not''"
  by code_simp+

lemma lower_ops: "ToLower ''=='' = ''==''" "ToLower ''!='' = ''!=''" "ToLower ''contains'' = ''contains''" "ToLower ''in'' = ''in''"
  by code_simp+

lemma quoted_not_word: "\<not> EqualFold (quoted val) ''not''" "quoted val \<noteq> ''(''" "quoted val \<noteq> []"
  by (simp_all add: EqualFold_def ToLower_def quoted_def lower_char_def less_eq_char_def)

lemma selector_not_paren: "selector_ok s \<Longrightarrow> s \<noteq> ''('' \<and> s \<noteq> [] \<and> \<not> EqualFold s ''not''"
  by (auto simp: selector_ok_def word_char_def)

lemma parse_leaf:
  assumes "l \<noteq> []" "l \<noteq> ''(''" "\<not> EqualFold l ''not''" "op \<noteq> []"
  shows "parseNot 2 (pre @ [l, op, r] @ post) (length pre) =
    (if ToLower op = ''=='' then Parsed (\<lambda>v. scalarEq v l (unquote r)) (length pre + 3)
     else if ToLower op = ''!='' then Parsed (\<lambda>v. \<not> scalarEq v l (unquote r)) (length pre + 3)
     else if ToLower op = ''contains'' then Parsed (\<lambda>v. listHas v l (unquote r)) (length pre + 3)
     else if ToLower op = ''in'' then Parsed (\<lambda>v. listHas v r (unquote l)) (length pre + 3)
     else Error (UnsupportedOperator op))"
proof -
  let ?t = "pre @ [l, op, r] @ post"
  have p: "peek ?t (length pre) = l" "peek ?t (length pre + 1) = op" "peek ?t (length pre + 2) = r"
    using peek_append [of "length pre" pre 0 "[l, op, r]" post] peek_append [of "length pre" pre 1 "[l, op, r]" post]
      peek_append [of "length pre" pre 2 "[l, op, r]" post] by simp_all
  have "parseNot 2 ?t (length pre) = parsePredicate ?t (length pre)"
    using assms(1-3) p(1) by (simp add: numeral_2_eq_2)
  then show ?thesis using assms(1,4) by (simp only: parsePredicate_def p Let_def) simp
qed

lemma parse_binary:
  assumes "peek t p0 = ''(''" "\<And>n. N \<le> n \<Longrightarrow> parseNot n t (p0 + 1) = Parsed f p2"
    and "\<And>n. N \<le> n \<Longrightarrow> parseNot n t (p2 + 1) = Parsed g p4" "peek t p4 = '')''"
  shows "peek t p2 = ''and'' \<Longrightarrow> parseNot (N + 6) t p0 = Parsed (\<lambda>v. f v \<and> g v) (p4 + 1)"
    and "peek t p2 = ''or'' \<Longrightarrow> parseNot (N + 6) t p0 = Parsed (\<lambda>v. f v \<or> g v) (p4 + 1)"
proof -
  have n6: "N + 6 = Suc (Suc (Suc (Suc (Suc (Suc N)))))" by simp
  note par = parseNot.simps(2) [of "Suc (Suc (Suc (Suc (Suc N))))" t p0] parsePrimary.simps(2) [of "Suc (Suc (Suc (Suc N)))" t p0]
  have sub: "parseNot (Suc (Suc N)) t (p0 + 1) = Parsed f p2" "parseNot (Suc N) t (p2 + 1) = Parsed g p4"
    using assms(2,3) by (simp_all del: parseNot.simps)
  show "parseNot (N + 6) t p0 = Parsed (\<lambda>v. f v \<and> g v) (p4 + 1)" if "peek t p2 = ''and''"
    unfolding n6 par parseOr.simps parseAnd.simps sub presult.case and_loop.simps or_loop.simps
    using that assms(1,4) sub by (simp add: fold_words del: parseNot.simps)
  show "parseNot (N + 6) t p0 = Parsed (\<lambda>v. f v \<or> g v) (p4 + 1)" if "peek t p2 = ''or''"
    unfolding n6 par parseOr.simps parseAnd.simps sub presult.case and_loop.simps or_loop.simps
    using that assms(1,4) sub by (simp add: fold_words del: parseNot.simps)
qed

lemma parse_pair:
  assumes f: "\<And>pre post. \<exists>n. parseNot n (pre @ tf @ post) (length pre) = Parsed f (length pre + length tf)"
    and g: "\<And>pre post. \<exists>n. parseNot n (pre @ tg @ post) (length pre) = Parsed g (length pre + length tg)"
    and t: "t = pre @ (''('' # tf @ op # tg @ ['')'']) @ post"
  obtains N p2 p4 where "peek t (length pre) = ''(''" "\<And>n. N \<le> n \<Longrightarrow> parseNot n t (length pre + 1) = Parsed f p2" "peek t p2 = op"
    "\<And>n. N \<le> n \<Longrightarrow> parseNot n t (p2 + 1) = Parsed g p4" "peek t p4 = '')''" "p4 = length pre + length tf + length tg + 2"
proof -
  define p2 where "p2 = length pre + 1 + length tf"
  define p4 where "p4 = p2 + 1 + length tg"
  obtain n1 where n1: "parseNot n1 t (length pre + 1) = Parsed f p2"
    using f [of "pre @ [''('']" "op # tg @ ['')''] @ post"] by (auto simp: t p2_def simp del: parseNot.simps)
  obtain n2 where n2: "parseNot n2 t (p2 + 1) = Parsed g p4"
    using g [of "pre @ ''('' # tf @ [op]" "['')''] @ post"] by (auto simp: t p2_def p4_def simp del: parseNot.simps)
  have "parseNot n t (length pre + 1) = Parsed f p2" "parseNot n t (p2 + 1) = Parsed g p4" if "max n1 n2 \<le> n" for n
    using that parse_mono(3) [of n1 n t "length pre + 1"] parse_mono(3) [of n2 n t "p2 + 1"] n1 n2 by simp_all
  moreover have "peek t (length pre) = ''(''" "peek t p2 = op" "peek t p4 = '')''"
    by (simp_all add: t p2_def p4_def peek_def nth_append nth_Cons')
  ultimately show thesis using that [of "max n1 n2" p2 p4] by (simp add: p2_def p4_def)
qed

text \<open>What the parser makes of the tokens of a filter, wherever they stand.\<close>

lemma parse_filter_tokens:
  "filter_ok f \<Longrightarrow> \<exists>n. parseNot n (pre @ filter_tokens f @ post) (length pre) =
     Parsed (eval_filter f) (length pre + length (filter_tokens f))"
proof (induction f arbitrary: pre post)
  case (FEq sel val)
  then show ?case using parse_leaf [of sel "''==''" pre "quoted val" post] selector_not_paren [of sel]
    by (intro exI [of _ 2]) (simp add: lower_ops)
next
  case (FNe sel val)
  then show ?case using parse_leaf [of sel "''!=''" pre "quoted val" post] selector_not_paren [of sel]
    by (intro exI [of _ 2]) (simp add: lower_ops)
next
  case (FContains sel val)
  then show ?case using parse_leaf [of sel "''contains''" pre "quoted val" post] selector_not_paren [of sel]
    by (intro exI [of _ 2]) (simp add: lower_ops)
next
  case (FIn val sel)
  then show ?case using parse_leaf [of "quoted val" "''in''" pre sel post] quoted_not_word [of val]
    by (intro exI [of _ 2]) (simp add: lower_ops)
next
  case (FNot f)
  obtain n where n: "parseNot n ((pre @ [''not'']) @ filter_tokens f @ post) (length (pre @ [''not''])) =
      Parsed (eval_filter f) (length (pre @ [''not'']) + length (filter_tokens f))"
    using FNot.IH [of "pre @ [''not'']" post] FNot.prems by auto
  have "peek (pre @ filter_tokens (FNot f) @ post) (length pre) = ''not''"
    using peek_append [of "length pre" pre 0 "filter_tokens (FNot f)" post] by simp
  then show ?case using n by (intro exI [of _ "Suc n"]) (simp add: fold_words)
next
  case (FAnd f g)
  let ?t = "pre @ (''('' # filter_tokens f @ ''and'' # filter_tokens g @ ['')'']) @ post"
  obtain N p2 p4 where b: "peek ?t (length pre) = ''(''" "\<And>n. N \<le> n \<Longrightarrow> parseNot n ?t (length pre + 1) = Parsed (eval_filter f) p2"
      "peek ?t p2 = ''and''" "\<And>n. N \<le> n \<Longrightarrow> parseNot n ?t (p2 + 1) = Parsed (eval_filter g) p4" "peek ?t p4 = '')''"
      "p4 = length pre + length (filter_tokens f) + length (filter_tokens g) + 2"
    by (rule parse_pair [of "filter_tokens f" "eval_filter f" "filter_tokens g" "eval_filter g" ?t pre "''and''" post])
       (use FAnd in \<open>auto simp del: parseNot.simps\<close>)
  then show ?case using parse_binary(1) [OF b(1,2,4,5,3)] by (intro exI [of _ "N + 6"]) (simp del: parseNot.simps)
next
  case (FOr f g)
  let ?t = "pre @ (''('' # filter_tokens f @ ''or'' # filter_tokens g @ ['')'']) @ post"
  obtain N p2 p4 where b: "peek ?t (length pre) = ''(''" "\<And>n. N \<le> n \<Longrightarrow> parseNot n ?t (length pre + 1) = Parsed (eval_filter f) p2"
      "peek ?t p2 = ''or''" "\<And>n. N \<le> n \<Longrightarrow> parseNot n ?t (p2 + 1) = Parsed (eval_filter g) p4" "peek ?t p4 = '')''"
      "p4 = length pre + length (filter_tokens f) + length (filter_tokens g) + 2"
    by (rule parse_pair [of "filter_tokens f" "eval_filter f" "filter_tokens g" "eval_filter g" ?t pre "''or''" post])
       (use FOr in \<open>auto simp del: parseNot.simps\<close>)
  then show ?case using parse_binary(2) [OF b(1,2,4,5,3)] by (intro exI [of _ "N + 6"]) (simp del: parseNot.simps)
qed

definition is_word :: "string \<Rightarrow> bool" where
  "is_word t \<longleftrightarrow> t \<noteq> [] \<and> list_all word_char t \<and> hd t \<notin> {CHR ''='', CHR ''!''}"

definition token_ok :: "string \<Rightarrow> bool" where
  "token_ok t \<longleftrightarrow> t \<in> {''('', '')'', ''=='', ''!=''} \<or> is_word t \<or> (\<exists>val. t = quoted val \<and> CHR 0x22 \<notin> set val)"

lemma tokenize_token:
  assumes "token_ok t" "rest = [] \<or> hd rest = CHR '' ''"
  shows "tokenizeFilter (t @ rest) = t # tokenizeFilter rest"
proof -
  consider "t \<in> {''('', '')'', ''=='', ''!=''}" | "is_word t" | val where "t = quoted val" "CHR 0x22 \<notin> set val"
    using assms(1) by (auto simp: token_ok_def)
  then show ?thesis
  proof cases
    case 1
    then show ?thesis by (auto simp: tokenizeFilter.simps(2))
  next
    case 2
    then obtain c w where t: "t = c # w" and w: "list_all word_char w" "word_char c" "c \<noteq> CHR ''=''" "c \<noteq> CHR ''!''"
      by (cases t) (auto simp: is_word_def)
    have "\<not> word_char (CHR '' '')" by (simp add: word_char_def)
    then have "takeWhile word_char (w @ rest) = w" "dropWhile word_char (w @ rest) = rest"
      using w(1) assms(2) by (cases rest; auto simp: takeWhile_append dropWhile_append list_all_iff takeWhile_eq_all_conv)+
    then show ?thesis using t w(2-4) by (simp add: tokenizeFilter.simps(2) word_char_def)
  next
    case (3 val)
    have "takeWhile (\<lambda>x. x \<noteq> CHR 0x22) (val @ CHR 0x22 # rest) = val" "dropWhile (\<lambda>x. x \<noteq> CHR 0x22) (val @ CHR 0x22 # rest) = CHR 0x22 # rest"
      using 3(2) by (auto simp: takeWhile_append dropWhile_append)
    then show ?thesis using 3(1) by (simp add: tokenizeFilter.simps(2) quoted_def)
  qed
qed

lemma tokenize_Join: "list_all token_ok ts \<Longrightarrow> tokenizeFilter (Join '' '' ts) = ts"
proof (induction "'' ''" ts rule: Join.induct)
  case (2 t)
  then show ?case using tokenize_token [of t "[]"] by simp
next
  case (3 t u ts)
  have "tokenizeFilter ('' '' @ Join '' '' (u # ts)) = tokenizeFilter (Join '' '' (u # ts))"
    by (simp add: tokenizeFilter.simps(2))
  then show ?case using 3 tokenize_token [of t "'' '' @ Join '' '' (u # ts)"] by simp
qed simp

lemma words_ok: "token_ok ''and''" "token_ok ''or''" "token_ok ''not''" "token_ok ''contains''" "token_ok ''in''" "token_ok ''(''" "token_ok '')''"
    "token_ok ''==''" "token_ok ''!=''"
  by (simp_all add: token_ok_def is_word_def word_char_def)

lemma filter_tokens_ok: "filter_ok f \<Longrightarrow> list_all token_ok (filter_tokens f)"
  by (induction f) (auto simp: words_ok, auto simp: token_ok_def selector_ok_def is_word_def)

text \<open>
  C27 (roundtrip). A filter whose selectors are plain words and whose values contain no quote, written
  with quoted values and parentheses around every conjunction and disjunction, is tokenized and
  parsed to the predicate it denotes.
\<close>

theorem filter_roundtrip:
  "filter_ok f \<Longrightarrow> parseFilter (print_filter f) = Inr (eval_filter f)"
proof -
  assume ok: "filter_ok f"
  let ?t = "filter_tokens f"
  have toks: "tokenizeFilter (print_filter f) = ?t" unfolding print_filter_def by (rule tokenize_Join [OF filter_tokens_ok [OF ok]])
  obtain n where n: "parseNot n ?t 0 = Parsed (eval_filter f) (length ?t)"
    using parse_filter_tokens [OF ok, of "[]" "[]"] by (auto simp del: parseNot.simps)
  have stop: "peek ?t (length ?t) = []" by (simp add: peek_def)
  have "parseNot (Suc n) ?t 0 = Parsed (eval_filter f) (length ?t)" using parse_more(5) [of n ?t 0] n by (simp del: parseNot.simps)
  then have "parseOr (Suc (Suc (Suc n))) ?t 0 = Parsed (eval_filter f) (length ?t)"
    by (simp add: stop fold_words del: parseNot.simps)
  moreover have "parseOr (filter_fuel ?t) ?t 0 \<noteq> Timeout" using parse_total(1) [of ?t 0 "filter_fuel ?t"] by (simp add: filter_fuel_def)
  ultimately have "parseOr (filter_fuel ?t) ?t 0 = Parsed (eval_filter f) (length ?t)"
    using parse_mono(1) [of "Suc (Suc (Suc n))" "filter_fuel ?t" ?t 0] parse_mono(1) [of "filter_fuel ?t" "Suc (Suc (Suc n))" ?t 0]
    by (cases "Suc (Suc (Suc n)) \<le> filter_fuel ?t") (simp_all del: parseOr.simps)
  then show ?thesis by (simp add: parseFilter_def parseFilter_fuel_def toks Let_def del: parseOr.simps)
qed

definition ex_filter :: fexpr where
  "ex_filter = FAnd (FNot (FContains ''ServiceTags'' ''canary'')) (FOr (FEq ''ServiceMeta.env'' ''a b'') (FIn ''critical'' ''Checks.Status''))"

theorem filter_roundtrip_witness:
  "length (print_filter ex_filter) = 101 \<and> parseFilter (print_filter ex_filter) = Inr (eval_filter ex_filter)"
proof -
  have "filter_ok ex_filter" by code_simp
  moreover have "length (print_filter ex_filter) = 101" by code_simp
  ultimately show ?thesis using filter_roundtrip by blast
qed

end
