(* ===== verification/ConsulTypes.thy ===== *)
theory ConsulTypes
  imports Healthcheck ConsulFilter
begin

text \<open>
  The wire shapes of the Consul surface and the functions between them and the domain model:
  \<^verbatim>\<open>internal/consul/types.go\<close>, \<^verbatim>\<open>activechecks.go\<close>, the inputs of \<^verbatim>\<open>catalog.go\<close> and \<^verbatim>\<open>servicedef.go\<close>, and the
  render and parse helpers of \<^verbatim>\<open>handler.go\<close> and \<^verbatim>\<open>checks.go\<close>. A field is named as the JSON names it. A
  body that was decoded is a value; one that does not decode is \<^const>\<open>None\<close> at the handler.
\<close>

section \<open>Answers\<close>

record weights =
  cw_Passing :: uint32
  cw_Warning :: uint32

record catalogService =
  cs_ID :: string
  cs_Node :: string
  cs_Address :: string
  cs_Datacenter :: string
  cs_NodeMeta :: smap
  cs_TaggedAddresses :: smap
  cs_ServiceID :: string
  cs_ServiceName :: string
  cs_ServiceAddress :: string
  cs_ServicePort :: int
  cs_ServiceTags :: "string list"
  cs_ServiceMeta :: smap
  cs_ServiceWeights :: weights
  cs_CreateIndex :: uint64
  cs_ModifyIndex :: uint64

record consul_node =
  cn_ID :: string
  cn_Node :: string
  cn_Address :: string
  cn_Datacenter :: string
  cn_Meta :: smap
  cn_TaggedAddresses :: smap

record healthService =
  hs_ID :: string
  hs_Service :: string
  hs_Tags :: "string list"
  hs_Address :: string
  hs_Meta :: smap
  hs_Port :: int
  hs_Weights :: weights

record healthCheck =
  hc_Node :: string
  hc_CheckID :: string
  hc_Name :: string
  hc_Status :: string
  hc_ServiceID :: string
  hc_ServiceName :: string

record healthServiceEntry =
  he_Node :: consul_node
  he_Service :: healthService
  he_Checks :: "healthCheck list"

record agentService =
  as_ID :: string
  as_Service :: string
  as_Tags :: "string list"
  as_Meta :: smap
  as_Port :: int
  as_Address :: string
  as_Weights :: weights

record agentSelf =
  sf_Datacenter :: string
  sf_NodeName :: string
  sf_Version :: string
  sf_MemberName :: string
  sf_MemberAddr :: string
  sf_MemberPort :: int

section \<open>Inputs\<close>

record checkInput =
  ci_TTL :: string
  ci_HTTP :: string
  ci_Method :: string
  ci_Header :: "(string, string list) fmap"
  ci_TCP :: string
  ci_UDP :: string
  ci_Args :: "string list"
  ci_Interval :: string
  ci_Timeout :: string
  ci_TLSSkipVerify :: bool

record registerInput =
  ri_ID :: string
  ri_Name :: string
  ri_Tags :: "string list"
  ri_Address :: string
  ri_Port :: int
  ri_Meta :: smap
  ri_Weights :: "weights option"
  ri_Check :: "checkInput option"
  ri_Checks :: "checkInput list"

record catalogServiceInput =
  si_ID :: string
  si_Service :: string
  si_Address :: string
  si_Port :: int
  si_Tags :: "string list"
  si_Meta :: smap

record catalogRegisterInput =
  cr_Node :: string
  cr_Address :: string
  cr_Datacenter :: string
  cr_NodeMeta :: smap
  cr_Service :: "catalogServiceInput option"

section \<open>Rendering\<close>

definition healthStatus :: "HealthState \<Rightarrow> string" where
  "healthStatus s =
     (case s of HealthWarning \<Rightarrow> ''warning'' | HealthCritical \<Rightarrow> ''critical'' | _ \<Rightarrow> ''passing'')"

definition modelWeights :: "Weights \<Rightarrow> weights" where
  "modelWeights w = (let w = OrDefault w in \<lparr>cw_Passing = w_Passing w, cw_Warning = w_Warning w\<rparr>)"

definition toNode :: "Node \<Rightarrow> consul_node" where
  "toNode n = \<lparr>cn_ID = n_ID n, cn_Node = DisplayName n, cn_Address = n_Address n, cn_Datacenter = n_Datacenter n,
     cn_Meta = n_Meta n, cn_TaggedAddresses = n_TaggedAddresses n\<rparr>"

definition toCatalog :: "ServiceEntry \<Rightarrow> catalogService" where
  "toCatalog e =
     \<lparr>cs_ID = n_ID (e_Node e), cs_Node = DisplayName (e_Node e), cs_Address = n_Address (e_Node e),
      cs_Datacenter = n_Datacenter (e_Node e), cs_NodeMeta = n_Meta (e_Node e),
      cs_TaggedAddresses = n_TaggedAddresses (e_Node e), cs_ServiceID = s_ID (e_Service e),
      cs_ServiceName = s_Name (e_Service e), cs_ServiceAddress = ReachableAddress e,
      cs_ServicePort = uint (s_Port (e_Service e)), cs_ServiceTags = s_Tags (e_Service e),
      cs_ServiceMeta = s_Meta (e_Service e), cs_ServiceWeights = modelWeights (s_Weights (e_Service e)),
      cs_CreateIndex = e_CreateIndex e, cs_ModifyIndex = e_ModifyIndex e\<rparr>"

definition synthChecks :: "ServiceEntry \<Rightarrow> healthCheck list" where
  "synthChecks e =
     (let nodeStatus = (if e_Health e = HealthCritical then ''critical'' else ''passing'');
          checks = [\<lparr>hc_Node = DisplayName (e_Node e), hc_CheckID = ''serfHealth'', hc_Name = ''Serf Health Status'',
                     hc_Status = nodeStatus, hc_ServiceID = [], hc_ServiceName = []\<rparr>,
                    \<lparr>hc_Node = DisplayName (e_Node e), hc_CheckID = ''service:'' @ s_ID (e_Service e),
                     hc_Name = ''Service '' @ [CHR 0x27] @ s_Name (e_Service e) @ [CHR 0x27] @ '' check'',
                     hc_Status = healthStatus (e_Health e), hc_ServiceID = s_ID (e_Service e),
                     hc_ServiceName = s_Name (e_Service e)\<rparr>]
      in if e_Maintenance e
         then checks @ [\<lparr>hc_Node = DisplayName (e_Node e), hc_CheckID = ''_service_maintenance:'' @ s_ID (e_Service e),
                         hc_Name = ''Service Maintenance Mode'', hc_Status = ''critical'',
                         hc_ServiceID = s_ID (e_Service e), hc_ServiceName = s_Name (e_Service e)\<rparr>]
         else checks)"

definition toHealth :: "ServiceEntry \<Rightarrow> healthServiceEntry" where
  "toHealth e =
     \<lparr>he_Node = toNode (e_Node e),
      he_Service = \<lparr>hs_ID = s_ID (e_Service e), hs_Service = s_Name (e_Service e), hs_Tags = s_Tags (e_Service e),
        hs_Address = ReachableAddress e, hs_Meta = s_Meta (e_Service e), hs_Port = uint (s_Port (e_Service e)),
        hs_Weights = modelWeights (s_Weights (e_Service e))\<rparr>,
      he_Checks = synthChecks e\<rparr>"

definition serviceCheck :: "ServiceEntry \<Rightarrow> healthCheck" where
  "serviceCheck e =
     (let status = (if e_Maintenance e then ''critical'' else healthStatus (e_Health e)) in
      \<lparr>hc_Node = DisplayName (e_Node e), hc_CheckID = ''service:'' @ s_ID (e_Service e),
       hc_Name = ''Service '' @ [CHR 0x27] @ s_Name (e_Service e) @ [CHR 0x27] @ '' check'',
       hc_Status = status, hc_ServiceID = s_ID (e_Service e), hc_ServiceName = s_Name (e_Service e)\<rparr>)"

fun aggregate_loop :: "ServiceEntry list \<Rightarrow> string \<Rightarrow> string" where
  "aggregate_loop [] status = status"
| "aggregate_loop (e # es) status =
     (let s = healthStatus (e_Health e) in
      if e_Maintenance e \<or> s = ''critical'' then ''critical''
      else aggregate_loop es (if s = ''warning'' then ''warning'' else status))"

definition aggregateStatus :: "ServiceEntry list \<Rightarrow> string" where
  "aggregateStatus entries = aggregate_loop entries ''passing''"

fun merge_tags_loop :: "string list \<Rightarrow> string set \<Rightarrow> string list \<Rightarrow> string list" where
  "merge_tags_loop [] seen into = into"
| "merge_tags_loop (t # ts) seen into =
     (if t \<notin> seen then merge_tags_loop ts (insert t seen) (into @ [t]) else merge_tags_loop ts seen into)"

definition mergeTags :: "string list \<Rightarrow> string list \<Rightarrow> string list" where
  "mergeTags into add = sort (merge_tags_loop add (set into) into)"

definition viewOf :: "ServiceEntry \<Rightarrow> view" where
  "viewOf e = \<lparr>v_tags = s_Tags (e_Service e), v_meta = s_Meta (e_Service e), v_statuses = map hc_Status (synthChecks e)\<rparr>"

definition applyFilter :: "ServiceEntry list \<Rightarrow> filterExpr \<Rightarrow> ServiceEntry list" where
  "applyFilter entries f = filter (\<lambda>e. f (viewOf e)) entries"

section \<open>Parsing inputs\<close>

definition clampPort :: "int \<Rightarrow> uint16" where
  "clampPort p = (if p < 0 then 0 else if p > 65535 then 65535 else of_int p)"

definition weightsToModel :: "weights option \<Rightarrow> Weights" where
  "weightsToModel w =
     (case w of None \<Rightarrow> Weights_zero | Some w \<Rightarrow> \<lparr>w_Passing = cw_Passing w, w_Warning = cw_Warning w\<rparr>)"

definition ttlFromCheck :: "checkInput option \<Rightarrow> duration" where
  "ttlFromCheck c =
     (case c of
        None \<Rightarrow> 0
      | Some c \<Rightarrow> if ci_TTL c = [] then 0
                  else case ParseDuration (ci_TTL c) of Some d \<Rightarrow> if d \<ge> 0 then d else 0 | None \<Rightarrow> 0)"

fun first_ttl_loop :: "checkInput list \<Rightarrow> duration" where
  "first_ttl_loop [] = 0"
| "first_ttl_loop (c # cs) = (if ttlFromCheck (Some c) > 0 then ttlFromCheck (Some c) else first_ttl_loop cs)"

definition firstTTL :: "registerInput \<Rightarrow> duration" where
  "firstTTL i = (if ttlFromCheck (ri_Check i) > 0 then ttlFromCheck (ri_Check i) else first_ttl_loop (ri_Checks i))"

definition inputToService :: "registerInput \<Rightarrow> ServiceInstance" where
  "inputToService i =
     ServiceInstance_zero\<lparr>s_ID := (if ri_ID i = [] then ri_Name i else ri_ID i), s_Name := ri_Name i,
       s_Address := ri_Address i, s_Port := clampPort (ri_Port i), s_Tags := ri_Tags i, s_Meta := ri_Meta i,
       s_Weights := weightsToModel (ri_Weights i), s_TTL := firstTTL i\<rparr>"

definition parseDur :: "string \<Rightarrow> duration" where
  "parseDur s = (case ParseDuration s of Some d \<Rightarrow> if d > 0 then d else 0 | None \<Rightarrow> 0)"

definition toDefinition :: "checkInput option \<Rightarrow> Definition option" where
  "toDefinition co =
     (case co of
        None \<Rightarrow> None
      | Some c \<Rightarrow>
          (let d = Definition_zero\<lparr>d_Method := ci_Method c, d_Header := ci_Header c, d_TLSSkipVerify := ci_TLSSkipVerify c,
                 d_Interval := parseDur (ci_Interval c), d_Timeout := parseDur (ci_Timeout c)\<rparr> in
           if ci_HTTP c \<noteq> [] then Some (d\<lparr>d_Kind := KindHTTP, d_Target := ci_HTTP c\<rparr>)
           else if ci_TCP c \<noteq> [] then Some (d\<lparr>d_Kind := KindTCP, d_Target := ci_TCP c\<rparr>)
           else if ci_UDP c \<noteq> [] then Some (d\<lparr>d_Kind := KindUDP, d_Target := ci_UDP c\<rparr>)
           else if length (ci_Args c) > 0 then Some (d\<lparr>d_Kind := KindScript, d_Args := ci_Args c\<rparr>)
           else None))"

definition activeChecks :: "registerInput \<Rightarrow> Definition list" where
  "activeChecks i =
     (case toDefinition (ri_Check i) of None \<Rightarrow> [] | Some d \<Rightarrow> [d]) @
     List.map_filter (\<lambda>c. toDefinition (Some c)) (ri_Checks i)"

section \<open>Facts\<close>

lemma merge_tags_loop_set: "set into \<subseteq> seen \<Longrightarrow> seen \<subseteq> set into \<Longrightarrow> distinct into \<Longrightarrow>
    set (merge_tags_loop ts seen into) = set into \<union> set ts \<and> distinct (merge_tags_loop ts seen into)"
proof (induction ts arbitrary: seen into)
  case (Cons t ts)
  show ?case
  proof (cases "t \<in> seen")
    case True
    then show ?thesis using Cons by auto
  next
    case False
    then show ?thesis using Cons.IH [of "into @ [t]" "insert t seen"] Cons.prems by auto
  qed
qed simp

lemma mergeTags_spec: "distinct into \<Longrightarrow>
    set (mergeTags into add) = set into \<union> set add \<and> distinct (mergeTags into add) \<and> sorted (mergeTags into add)"
  using merge_tags_loop_set [of into "set into" add] by (simp add: mergeTags_def)

lemma uint_clampPort: "uint (clampPort p) = max 0 (min 65535 p)"
proof -
  have "uint (of_int p :: uint16) = p" if "0 \<le> p" "p \<le> 65535" using that by (simp add: unsigned_of_int take_bit_int_eq_self)
  then show ?thesis by (simp add: clampPort_def max_def min_def)
qed

lemma aggregate_loop_spec: "status \<in> {''passing'', ''warning''} \<Longrightarrow> aggregate_loop es status =
    (if \<exists>e\<in>set es. e_Maintenance e \<or> e_Health e = HealthCritical then ''critical''
     else if status = ''warning'' \<or> (\<exists>e\<in>set es. e_Health e = HealthWarning) then ''warning'' else ''passing'')"
proof (induction es arbitrary: status)
  case (Cons e es)
  show ?case
  proof (cases "e_Maintenance e \<or> e_Health e = HealthCritical")
    case True
    then show ?thesis by (auto simp: healthStatus_def)
  next
    case False
    have "(if healthStatus (e_Health e) = ''warning'' then ''warning'' else status) = (if e_Health e = HealthWarning then ''warning'' else status)"
      by (simp add: healthStatus_def split: HealthState.splits)
    moreover have "healthStatus (e_Health e) \<noteq> ''critical''" using False by (simp add: healthStatus_def split: HealthState.splits)
    ultimately show ?thesis using Cons.IH [of "if e_Health e = HealthWarning then ''warning'' else status"] Cons.prems False by simp
  qed
qed auto

lemma firstTTL_nonneg: "firstTTL i \<ge> 0"
proof -
  have "first_ttl_loop cs \<ge> 0" for cs by (induction cs) auto
  then show ?thesis unfolding firstTTL_def by (metis less_imp_le)
qed

end
