(* ===== verification/RateLimit.thy ===== *)
theory RateLimit
  imports Prelude
begin

text \<open>
  \<^verbatim>\<open>internal/ratelimit/ratelimit.go\<close>: the fixed-window limiter the Consul HTTP, DNS and bootstrap
  surfaces share. \<open>Limiter_Allow\<close> takes the clock reading and returns the verdict with the new state;
  a nil limiter is \<^const>\<open>None\<close>.
\<close>

record Limiter =
  rl_limit :: int
  rl_counts :: "(string, nat) fmap"
  rl_resetAt :: time

definition Limiter_New :: "int \<Rightarrow> Limiter" where
  "Limiter_New perSecond = \<lparr>rl_limit = perSecond, rl_counts = fmempty, rl_resetAt = zeroTime\<rparr>"

definition count_of :: "Limiter \<Rightarrow> string \<Rightarrow> nat" where
  "count_of l key = (case fmlookup (rl_counts l) key of None \<Rightarrow> 0 | Some n \<Rightarrow> n)"

definition Limiter_Allow :: "time \<Rightarrow> string \<Rightarrow> Limiter option \<Rightarrow> bool \<times> Limiter option" where
  "Limiter_Allow now key lo =
     (case lo of
        None \<Rightarrow> (True, None)
      | Some l \<Rightarrow>
          if rl_limit l \<le> 0 then (True, Some l)
          else
            (let l = (if now > rl_resetAt l then l\<lparr>rl_counts := fmempty, rl_resetAt := now + second\<rparr> else l);
                 l = l\<lparr>rl_counts := fmupd key (count_of l key + 1) (rl_counts l)\<rparr>
             in (int (count_of l key) \<le> rl_limit l, Some l)))"

section \<open>The limit\<close>

text \<open>A run of requests, each with its instant and key; the verdicts, and how many of a key passed.\<close>

fun allow_run :: "(time \<times> string) list \<Rightarrow> Limiter option \<Rightarrow> bool list \<times> Limiter option" where
  "allow_run [] l = ([], l)"
| "allow_run ((now, key) # rs) l =
     (case Limiter_Allow now key l of (ok, l1) \<Rightarrow>
        case allow_run rs l1 of (oks, l2) \<Rightarrow> (ok # oks, l2))"

definition passed :: "string \<Rightarrow> (time \<times> string) list \<Rightarrow> Limiter \<Rightarrow> nat" where
  "passed key rs l =
     length (filter (\<lambda>((now, k), ok). k = key \<and> ok) (zip rs (fst (allow_run rs (Some l)))))"

definition window_reset :: "time \<Rightarrow> Limiter \<Rightarrow> Limiter" where
  "window_reset now l = (if now > rl_resetAt l then l\<lparr>rl_counts := fmempty, rl_resetAt := now + second\<rparr> else l)"

definition counted :: "time \<Rightarrow> string \<Rightarrow> Limiter \<Rightarrow> Limiter" where
  "counted now key l = (let l = window_reset now l in l\<lparr>rl_counts := fmupd key (count_of l key + 1) (rl_counts l)\<rparr>)"

lemma Limiter_Allow_counted:
  "rl_limit l > 0 \<Longrightarrow> Limiter_Allow now key (Some l) =
     (int (count_of (counted now key l) key) \<le> rl_limit l, Some (counted now key l))"
  by (simp add: Limiter_Allow_def counted_def window_reset_def Let_def)

lemma rl_limit_counted [simp]: "rl_limit (counted now key l) = rl_limit l"
  by (simp add: counted_def window_reset_def Let_def)

lemma rl_resetAt_counted: "rl_resetAt (counted now key l) = (if now > rl_resetAt l then now + second else rl_resetAt l)"
  by (simp add: counted_def window_reset_def Let_def)

lemma count_of_counted:
  "count_of (counted now key l) k =
     (if now > rl_resetAt l then 0 else count_of l k) + (if k = key then 1 else 0)"
  by (simp add: counted_def window_reset_def Let_def count_of_def)

lemma passed_Nil [simp]: "passed key [] l = 0"
  by (simp add: passed_def)

lemma passed_Cons: "rl_limit l > 0 \<Longrightarrow> passed key ((now, k) # rs) l =
    (if k = key \<and> int (count_of (counted now k l) k) \<le> rl_limit l then 1 else 0) + passed key rs (counted now k l)"
  by (auto simp: passed_def Limiter_Allow_counted split: prod.splits)

text \<open>Inside one window a key passes at most what is left of the limit.\<close>

lemma passed_window:
  "rl_limit l > 0 \<Longrightarrow> \<forall>(now, k)\<in>set rs. now \<le> rl_resetAt l \<Longrightarrow>
   int (passed key rs l) \<le> max 0 (rl_limit l - int (count_of l key))"
proof (induction rs arbitrary: l)
  case (Cons r rs)
  obtain now k where r: "r = (now, k)" by fastforce
  have w: "\<not> now > rl_resetAt l" using Cons.prems r by auto
  have "int (passed key rs (counted now k l)) \<le> max 0 (rl_limit l - int (count_of (counted now k l) key))"
    using Cons.IH [of "counted now k l"] Cons.prems w by (simp add: rl_resetAt_counted)
  then show ?case
    using w Cons.prems(1) by (auto simp: r passed_Cons count_of_counted split: if_splits)
qed simp

lemma passed_second:
  assumes "rl_limit l > 0" "sorted (map fst rs)" "\<forall>(now, k)\<in>set rs. now \<le> start + second"
    and "\<forall>(now, k)\<in>set rs. start \<le> now"
  shows "int (passed key rs l) \<le> max 0 (rl_limit l - int (count_of l key)) + rl_limit l"
  using assms
proof (induction rs arbitrary: l)
  case (Cons r rs)
  obtain now k where r: "r = (now, k)" by fastforce
  let ?l = "counted now k l"
  show ?case
  proof (cases "now > rl_resetAt l")
    case True
    have "\<forall>(t, k)\<in>set rs. t \<le> rl_resetAt ?l"
      using Cons.prems(3,4) r True by (fastforce simp: rl_resetAt_counted)
    from passed_window [OF _ this, of key] have "int (passed key rs ?l) \<le> max 0 (rl_limit l - int (count_of ?l key))"
      using Cons.prems(1) by simp
    then show ?thesis
      using True Cons.prems(1) by (auto simp: r passed_Cons count_of_counted split: if_splits)
  next
    case False
    have "int (passed key rs ?l) \<le> max 0 (rl_limit l - int (count_of ?l key)) + rl_limit l"
      using Cons.IH [of ?l] Cons.prems by simp
    then show ?thesis
      using False Cons.prems(1) by (auto simp: r passed_Cons count_of_counted split: if_splits)
  qed
qed simp

text \<open>
  C17 (bounds). A positive limit bounds every client: over any second of requests on a clock that
  does not go back, a key passes at most twice the limit, and at most the limit while no window is
  opened; what other keys do does not enter. A nil limiter or a limit that is not positive lets
  everything pass.
\<close>

theorem limit_bounds:
  "(rl_limit l > 0 \<and> sorted (map fst rs) \<and> (\<forall>(now, k)\<in>set rs. start \<le> now \<and> now \<le> start + second) \<longrightarrow>
      int (passed key rs l) \<le> 2 * rl_limit l \<and>
      ((\<forall>(now, k)\<in>set rs. now \<le> rl_resetAt l) \<longrightarrow> int (passed key rs l) \<le> rl_limit l)) \<and>
   (rl_limit l \<le> 0 \<longrightarrow> Limiter_Allow now key (Some l) = (True, Some l)) \<and>
   Limiter_Allow now key None = (True, None)"
proof -
  have "int (passed key rs l) \<le> 2 * rl_limit l \<and>
      ((\<forall>(now, k)\<in>set rs. now \<le> rl_resetAt l) \<longrightarrow> int (passed key rs l) \<le> rl_limit l)"
    if a: "rl_limit l > 0" "sorted (map fst rs)" "\<forall>(now, k)\<in>set rs. start \<le> now \<and> now \<le> start + second"
  proof -
    have "\<forall>(now, k)\<in>set rs. now \<le> start + second" "\<forall>(now, k)\<in>set rs. start \<le> now" using a(3) by auto
    from passed_second [OF a(1,2) this, of key] show ?thesis
      using passed_window [OF a(1), of rs key] a(1) by fastforce
  qed
  then show ?thesis by (auto simp: Limiter_Allow_def)
qed

theorem limit_bounds_witness:
  "int (passed ''a'' [(0, ''a''), (5, ''a''), (6, ''b''), (7, ''a'')] (Limiter_New 2)) \<le> 2 * 2 \<and>
   fst (allow_run [(0, ''a''), (5, ''a''), (6, ''b''), (7, ''a'')] (Some (Limiter_New 2))) = [True, True, True, False]"
proof -
  have "fst (allow_run [(0, ''a''), (5, ''a''), (6, ''b''), (7, ''a'')] (Some (Limiter_New 2))) = [True, True, True, False]"
    by code_simp
  then show ?thesis
    using limit_bounds [of "Limiter_New 2" "[(0, ''a''), (5, ''a''), (6, ''b''), (7, ''a'')]" 0 "''a''"]
    by (simp add: Limiter_New_def)
qed

end
