(* ===== verification/GoNet.thy ===== *)
theory GoNet
  imports GoStrings
begin

text \<open>
  \<^verbatim>\<open>net.ParseIP\<close>, \<^verbatim>\<open>IP.To4\<close>, \<^verbatim>\<open>net.SplitHostPort\<close> and \<^verbatim>\<open>hex.EncodeToString\<close> of Go's standard library. An address is its 16
  bytes, an IPv4 address in the mapped form that \<^verbatim>\<open>ParseIP\<close> returns.
\<close>

section \<open>Parsing addresses\<close>

type_synonym ip = "nat list"

definition parse_v4_field :: "string \<Rightarrow> nat option" where
  "parse_v4_field s =
     (if s = [] \<or> \<not> list_all is_digit s \<or> (length s > 1 \<and> hd s = CHR ''0'') \<or> digits_value s > 255 then None
      else Some (digits_value s))"

definition parse_v4 :: "string \<Rightarrow> nat list option" where
  "parse_v4 s =
     (case map parse_v4_field (Split (CHR ''.'') s) of
        [Some a, Some b, Some c, Some d] \<Rightarrow> Some [a, b, c, d]
      | _ \<Rightarrow> None)"

definition hex_value :: "char \<Rightarrow> nat" where
  "hex_value c =
     (if is_digit c then of_char c - 48
      else if CHR ''a'' \<le> c \<and> c \<le> CHR ''f'' then of_char c - 87
      else of_char c - 55)"

definition is_hex :: "char \<Rightarrow> bool" where
  "is_hex c \<longleftrightarrow> is_digit c \<or> CHR ''a'' \<le> c \<and> c \<le> CHR ''f'' \<or> CHR ''A'' \<le> c \<and> c \<le> CHR ''F''"

text \<open>
  The groups of an IPv6 address: at most as many as the first argument says, then the rest of the
  string, the bytes so far and the place of the ellipsis.
\<close>

primrec v6_groups :: "nat \<Rightarrow> string \<Rightarrow> nat list \<Rightarrow> nat option \<Rightarrow> (string \<times> nat list \<times> nat option) option" where
  "v6_groups 0 s bytes ell = Some (s, bytes, ell)"
| "v6_groups (Suc k) s bytes ell =
     (let h = takeWhile is_hex s; rest = dropWhile is_hex s; v = foldl (\<lambda>n c. 16 * n + hex_value c) 0 h in
      if h = [] \<or> length h > 4 then None
      else if rest \<noteq> [] \<and> hd rest = CHR ''.''
      then (if ell = None \<and> length bytes \<noteq> 12 \<or> length bytes + 4 > 16 then None
            else map_option (\<lambda>q. ([], bytes @ q, ell)) (parse_v4 s))
      else
        (let bytes = bytes @ [v div 256, v mod 256] in
         if rest = [] then Some ([], bytes, ell)
         else if hd rest \<noteq> CHR '':'' \<or> length rest = 1 then None
         else
           (let s = tl rest in
            if hd s = CHR '':''
            then (if ell \<noteq> None then None
                  else if tl s = [] then Some ([], bytes, Some (length bytes))
                  else v6_groups k (tl s) bytes (Some (length bytes)))
            else v6_groups k s bytes ell)))"

definition expand_ellipsis :: "string \<times> nat list \<times> nat option \<Rightarrow> ip option" where
  "expand_ellipsis r =
     (case r of (s, bytes, ell) \<Rightarrow>
        if s \<noteq> [] then None
        else if length bytes < 16
        then (case ell of
                None \<Rightarrow> None
              | Some e \<Rightarrow> Some (take e bytes @ replicate (16 - length bytes) 0 @ drop e bytes))
        else if ell \<noteq> None then None else Some bytes)"

definition parse_v6 :: "string \<Rightarrow> ip option" where
  "parse_v6 s =
     (let lead = HasPrefix s ''::''; s = (if lead then drop 2 s else s) in
      if lead \<and> s = [] then Some (replicate 16 0)
      else case v6_groups 8 s [] (if lead then Some 0 else None) of
        None \<Rightarrow> None
      | Some r \<Rightarrow> expand_ellipsis r)"

definition v4_mapped :: "nat list \<Rightarrow> ip" where
  "v4_mapped q = replicate 10 0 @ [255, 255] @ q"

text \<open>The first dot or colon decides the family; an address with a zone is refused.\<close>

definition ParseIP :: "string \<Rightarrow> ip option" where
  "ParseIP s =
     (if CHR ''%'' \<in> set s then None
      else case find (\<lambda>c. c = CHR ''.'' \<or> c = CHR '':'') s of
        None \<Rightarrow> None
      | Some c \<Rightarrow> if c = CHR ''.'' then map_option v4_mapped (parse_v4 s) else parse_v6 s)"

definition To4 :: "ip \<Rightarrow> nat list option" where
  "To4 a = (if take 12 a = replicate 10 0 @ [255, 255] then Some (drop 12 a) else None)"

definition hex_char :: "nat \<Rightarrow> char" where
  "hex_char d = (if d < 10 then char_of (48 + d) else char_of (87 + d))"

definition EncodeToString :: "nat list \<Rightarrow> string" where
  "EncodeToString bs = concat (map (\<lambda>b. [hex_char (b div 16), hex_char (b mod 16)]) bs)"

section \<open>Hosts and ports\<close>

definition LastIndexByte :: "char \<Rightarrow> string \<Rightarrow> nat option" where
  "LastIndexByte c s =
     (if c \<in> set s then Some (length s - 1 - length (takeWhile (\<lambda>x. x \<noteq> c) (rev s))) else None)"

definition IndexByte :: "char \<Rightarrow> string \<Rightarrow> nat option" where
  "IndexByte c s = (if c \<in> set s then Some (length (takeWhile (\<lambda>x. x \<noteq> c) s)) else None)"

text \<open>\<^verbatim>\<open>net.SplitHostPort\<close>: the host, or \<^const>\<open>None\<close> for an error.\<close>

definition SplitHostPort :: "string \<Rightarrow> (string \<times> string) option" where
  "SplitHostPort hp =
     (case LastIndexByte (CHR '':'') hp of
        None \<Rightarrow> None
      | Some i \<Rightarrow>
          if hd hp = CHR ''[''
          then (case IndexByte (CHR '']'') hp of
                  None \<Rightarrow> None
                | Some j \<Rightarrow>
                    if j + 1 \<noteq> i then None
                    else if CHR ''['' \<in> set (tl hp) \<or> CHR '']'' \<in> set (drop (j + 1) hp) then None
                    else Some (take (j - 1) (tl hp), drop (i + 1) hp))
          else if CHR '':'' \<in> set (take i hp) \<or> CHR ''['' \<in> set hp \<or> CHR '']'' \<in> set hp then None
          else Some (take i hp, drop (i + 1) hp))"

section \<open>Shape and round trip\<close>

lemma parse_v4_length: "parse_v4 s = Some q \<Longrightarrow> length q = 4"
  by (auto simp: parse_v4_def split: list.splits option.splits)

lemma v6_groups_length:
  "v6_groups k s bytes ell = Some (s', bytes', ell') \<Longrightarrow> length bytes + 2 * k \<le> 16 \<Longrightarrow> (\<forall>e. ell = Some e \<longrightarrow> e \<le> length bytes) \<Longrightarrow>
     length bytes' \<le> 16 \<and> (\<forall>e. ell' = Some e \<longrightarrow> e \<le> length bytes')"
proof (induction k arbitrary: s bytes ell)
  case (Suc k)
  let ?v = "foldl (\<lambda>n c. 16 * n + hex_value c) 0 (takeWhile is_hex s)" and ?rest = "dropWhile is_hex s"
  let ?b = "bytes @ [?v div 256, ?v mod 256]"
  have room: "length ?b + 2 * k \<le> 16" using Suc.prems(2) by simp
  have le: "\<forall>e. ell = Some e \<longrightarrow> e \<le> length ?b" "\<forall>e. Some (length ?b) = Some e \<longrightarrow> e \<le> length ?b" using Suc.prems(3) by auto
  show ?case
    using Suc.prems Suc.IH [OF _ room le(1)] Suc.IH [OF _ room le(2)]
    by (auto simp: Let_def dest: parse_v4_length split: if_splits)
qed simp

lemma ParseIP_length: "ParseIP s = Some a \<Longrightarrow> length a = 16"
proof -
  have grp: "length a = 16" if "v6_groups 8 s' [] ell = Some r" "expand_ellipsis r = Some a" "ell = None \<or> ell = Some 0" for s' ell r
    using that v6_groups_length [of 8 s' "[]" ell "fst r" "fst (snd r)" "snd (snd r)"]
    by (auto simp: expand_ellipsis_def split: prod.splits if_splits option.splits)
  assume "ParseIP s = Some a"
  then show ?thesis
    using grp by (auto simp: ParseIP_def parse_v6_def v4_mapped_def Let_def dest: parse_v4_length split: if_splits option.splits)
qed

definition print_v4 :: "nat list \<Rightarrow> string" where
  "print_v4 q = Join ''.'' (map decimal q)"

lemma decimal_leading: "length (decimal n) > 1 \<Longrightarrow> hd (decimal n) \<noteq> CHR ''0''"
proof (induction n rule: decimal.induct)
  case (1 n)
  show ?case
  proof (cases "n < 10")
    case True
    then show ?thesis using "1.prems" by (subst (asm) decimal.simps) simp
  next
    case False
    have h: "hd (decimal n) = hd (decimal (n div 10))" using False by (subst decimal.simps) simp
    show ?thesis
    proof (cases "length (decimal (n div 10)) > 1")
      case True
      then show ?thesis using "1.IH" False h by simp
    next
      case short: False
      then have "n div 10 < 10" by (subst (asm) decimal.simps) (auto split: if_splits)
      moreover have "digit_char d \<noteq> CHR ''0''" if "0 < d" "d < 10" for d
        using of_char_digit_char [OF that(2)] that(1) by auto
      ultimately show ?thesis using h False by (subst (asm) (2) decimal.simps) simp
    qed
  qed
qed

lemma parse_v4_field_decimal: "n \<le> 255 \<Longrightarrow> parse_v4_field (decimal n) = Some n"
  using decimal_leading [of n] by (auto simp: parse_v4_field_def decimal_digits digits_value_decimal)

lemma decimal_no_dot: "CHR ''.'' \<notin> set (decimal n)"
  using decimal_digits [of n] by (auto simp: list_all_iff is_digit_def less_eq_char_def)

lemma parse_v4_print:
  assumes "length q = 4" "\<forall>b\<in>set q. b \<le> 255"
  shows "parse_v4 (print_v4 q) = Some q"
proof -
  have "Split (CHR ''.'') (print_v4 q) = map decimal q"
    unfolding print_v4_def by (rule Split_Join) (use assms decimal_no_dot in auto)
  moreover have "map parse_v4_field (map decimal q) = map Some q" using assms(2) by (simp add: parse_v4_field_decimal)
  moreover obtain a b c d where "q = [a, b, c, d]" using assms(1) by (auto simp: length_Suc_conv numeral_eq_Suc)
  ultimately show ?thesis by (simp add: parse_v4_def)
qed

lemma find_skip: "\<forall>x\<in>set xs. \<not> P x \<Longrightarrow> P y \<Longrightarrow> find P (xs @ y # s) = Some y"
  by (induction xs) auto

lemma ParseIP_print_v4:
  assumes "length q = 4" "\<forall>b\<in>set q. b \<le> 255"
  shows "ParseIP (print_v4 q) = Some (v4_mapped q)" "To4 (v4_mapped q) = Some q"
proof -
  obtain a b c d where q: "q = [a, b, c, d]" using assms(1) by (auto simp: length_Suc_conv numeral_eq_Suc)
  have digits: "x \<in> set (decimal n) \<Longrightarrow> is_digit x" for x n using decimal_digits [of n] by (auto simp: list_all_iff)
  have nd: "\<not> is_digit CHR ''%''" "\<not> is_digit CHR '':''" by (simp_all add: is_digit_def less_eq_char_def)
  have "find (\<lambda>c. c = CHR ''.'' \<or> c = CHR '':'') (decimal a @ CHR ''.'' # s) = Some (CHR ''.'')" for s
    using digits [of _ a] nd decimal_no_dot [of a] by (intro find_skip) auto
  then show "ParseIP (print_v4 q) = Some (v4_mapped q)"
    using parse_v4_print [OF assms] nd digits by (auto simp: ParseIP_def print_v4_def q)
  show "To4 (v4_mapped q) = Some q" by (simp add: To4_def v4_mapped_def)
qed

end
