(* ===== verification/ConsulHttp.thy ===== *)
theory ConsulHttp
  imports ConsulTypes RateLimit GoNet
begin

text \<open>
  The Consul HTTP surface: \<^verbatim>\<open>internal/consul/handler.go\<close>, \<^verbatim>\<open>checks.go\<close>, \<^verbatim>\<open>catalog.go\<close>, \<^verbatim>\<open>servicedef.go\<close> and
  \<^verbatim>\<open>ratelimit.go\<close> over the interface \<open>Registry\<close>, and its implementation by a seed, \<^verbatim>\<open>storeregistry.go\<close>; the agent's is
  that of \<open>Proxy\<close>. The interface is a record of operations on a state of any type, as in Go. A
  request carries its path values, query and headers; its body is what the JSON decoder made of it.
  A blocking query takes, as the argument \<open>during\<close>, what happens to the surface while it waits.
\<close>

section \<open>The registry interface\<close>

datatype reg_error = RegStore StoreError | RegAgent AgentError | RegSeeds "rpc_error list"

datatype resolved = ResolvePanic | ResolveError reg_error | Resolved LookupResult duration

record 's Registry =
  rg_RegisterServices :: "Registration \<Rightarrow> 's \<Rightarrow> reg_error option \<times> 's"
  rg_RemoveService :: "string \<Rightarrow> 's \<Rightarrow> reg_error option \<times> 's"
  rg_Resolve :: "Query \<Rightarrow> Consistency \<Rightarrow> 's \<Rightarrow> resolved \<times> 's"
  rg_Hosted :: "'s \<Rightarrow> ServiceInstance list"
  rg_RenewService :: "string \<Rightarrow> 's \<Rightarrow> reg_error option \<times> 's"
  rg_FailService :: "string \<Rightarrow> 's \<Rightarrow> reg_error option \<times> 's"
  rg_SetMaintenance :: "string \<Rightarrow> bool \<Rightarrow> 's \<Rightarrow> reg_error option \<times> 's"
  rg_RegisterExternal :: "Registration \<Rightarrow> 's \<Rightarrow> reg_error option \<times> 's"
  rg_RemoveNode :: "string \<Rightarrow> 's \<Rightarrow> reg_error option \<times> 's"
  rg_Dump :: "Query \<Rightarrow> 's \<Rightarrow> (string, ServiceEntry list) fmap"

text \<open>A seed: the operations of \<^verbatim>\<open>StoreRegistry\<close> on its registry, at the instant of the request.\<close>

definition of_outcome :: "outcome \<Rightarrow> reg_error option \<times> Memory" where
  "of_outcome r = (case r of (err, _, m) \<Rightarrow> (map_option RegStore err, m))"

definition StoreRegistry_RegisterServices :: "time \<Rightarrow> clock \<Rightarrow> Node \<Rightarrow> Registration \<Rightarrow> Memory \<Rightarrow> reg_error option \<times> Memory" where
  "StoreRegistry_RegisterServices now evclk node reg m = of_outcome (Memory_Register now evclk (reg\<lparr>r_Node := node\<rparr>) m)"

definition StoreRegistry_RegisterExternal :: "time \<Rightarrow> clock \<Rightarrow> Registration \<Rightarrow> Memory \<Rightarrow> reg_error option \<times> Memory" where
  "StoreRegistry_RegisterExternal now evclk reg m = of_outcome (Memory_Register now evclk reg m)"

definition StoreRegistry_RemoveService :: "Node \<Rightarrow> string \<Rightarrow> Memory \<Rightarrow> reg_error option \<times> Memory" where
  "StoreRegistry_RemoveService node serviceID m = of_outcome (Memory_DeregisterService (n_ID node) serviceID m)"

definition StoreRegistry_RemoveNode :: "string list \<Rightarrow> string \<Rightarrow> Memory \<Rightarrow> reg_error option \<times> Memory" where
  "StoreRegistry_RemoveNode order nodeID m =
     (case Memory_Deregister order nodeID m of (err, _, m') \<Rightarrow>
        if err \<noteq> None \<and> err \<noteq> Some ErrNotFound then (map_option RegStore err, m') else (None, m'))"

definition StoreRegistry_Resolve :: "time \<Rightarrow> Query \<Rightarrow> Consistency \<Rightarrow> Memory \<Rightarrow> resolved \<times> Memory" where
  "StoreRegistry_Resolve now q mode m = (Resolved (Memory_Lookup now q m) 0, m)"

definition StoreRegistry_RenewService :: "time \<Rightarrow> Node \<Rightarrow> string \<Rightarrow> Memory \<Rightarrow> reg_error option \<times> Memory" where
  "StoreRegistry_RenewService now node serviceID m =
     (case Memory_Renew now (n_ID node) [serviceID] m of (err, m') \<Rightarrow> (map_option RegStore err, m'))"

definition StoreRegistry_FailService :: "clock \<Rightarrow> Node \<Rightarrow> string \<Rightarrow> Memory \<Rightarrow> reg_error option \<times> Memory" where
  "StoreRegistry_FailService evclk node serviceID m = of_outcome (Memory_Fail evclk (n_ID node) serviceID m)"

definition StoreRegistry_SetMaintenance :: "clock \<Rightarrow> Node \<Rightarrow> string \<Rightarrow> bool \<Rightarrow> Memory \<Rightarrow> reg_error option \<times> Memory" where
  "StoreRegistry_SetMaintenance evclk node serviceID enabled m =
     of_outcome (Memory_SetMaintenance evclk (n_ID node) serviceID enabled m)"

definition StoreRegistry_Hosted :: "Memory \<Rightarrow> ServiceInstance list" where
  "StoreRegistry_Hosted m = []"

definition StoreRegistry_Dump :: "time \<Rightarrow> Query \<Rightarrow> Memory \<Rightarrow> (string, ServiceEntry list) fmap" where
  "StoreRegistry_Dump now q m = fmupd ''local'' (lr_Entries (Memory_Lookup now q m)) fmempty"

definition NewStoreRegistry :: "time \<Rightarrow> clock \<Rightarrow> string list \<Rightarrow> Node \<Rightarrow> Memory Registry" where
  "NewStoreRegistry now evclk order node =
     \<lparr>rg_RegisterServices = StoreRegistry_RegisterServices now evclk node,
      rg_RemoveService = StoreRegistry_RemoveService node,
      rg_Resolve = StoreRegistry_Resolve now,
      rg_Hosted = StoreRegistry_Hosted,
      rg_RenewService = StoreRegistry_RenewService now node,
      rg_FailService = StoreRegistry_FailService evclk node,
      rg_SetMaintenance = StoreRegistry_SetMaintenance evclk node,
      rg_RegisterExternal = StoreRegistry_RegisterExternal now evclk,
      rg_RemoveNode = StoreRegistry_RemoveNode order,
      rg_Dump = StoreRegistry_Dump now\<rparr>"

text \<open>The agent: the operations of \<^verbatim>\<open>Proxy\<close>.\<close>

definition of_agent :: "AgentError option \<times> agent \<Rightarrow> reg_error option \<times> agent" where
  "of_agent r = (map_option RegAgent (fst r), snd r)"

definition of_served :: "served \<Rightarrow> resolved" where
  "of_served s = (case s of Panic \<Rightarrow> ResolvePanic | Failed e \<Rightarrow> ResolveError (RegSeeds e) | Served lr age \<Rightarrow> Resolved lr age)"

definition agent_registry :: "world \<Rightarrow> (string list \<Rightarrow> string list) \<Rightarrow> time \<Rightarrow> time \<Rightarrow> time \<Rightarrow> agent Registry" where
  "agent_registry w perm t1 t2 t3 =
     \<lparr>rg_RegisterServices = (\<lambda>reg a. of_agent (RegisterServices w reg a)),
      rg_RemoveService = (\<lambda>sid a. of_agent (RemoveService w sid a)),
      rg_Resolve = (\<lambda>q mode a. case Proxy_Resolve w perm t1 t2 t3 q mode a of (out, _, a') \<Rightarrow> (of_served out, a')),
      rg_Hosted = (\<lambda>a. Hosted (fst a)),
      rg_RenewService = (\<lambda>sid a. of_agent (RenewService w sid a)),
      rg_FailService = (\<lambda>sid a. of_agent (FailService sid a)),
      rg_SetMaintenance = (\<lambda>sid on a. of_agent (Proxy_SetMaintenance sid on a)),
      rg_RegisterExternal = (\<lambda>reg a. of_agent (RegisterExternal w reg a)),
      rg_RemoveNode = (\<lambda>nid a. of_agent (RemoveNode w nid a)),
      rg_Dump = Proxy_Dump w\<rparr>"

section \<open>Requests and responses\<close>

datatype body = BadBody | RegisterBody registerInput | CatalogRegisterBody catalogRegisterInput | CatalogDeregisterBody string string

record HttpRequest =
  hq_path :: smap
  hq_url :: string
  hq_query :: "(string, string list) fmap"
  hq_header :: smap
  hq_remote :: string
  hq_body :: body

definition PathValue :: "HttpRequest \<Rightarrow> string \<Rightarrow> string" where
  "PathValue r k = (case fmlookup (hq_path r) k of None \<Rightarrow> [] | Some v \<Rightarrow> v)"

definition query_Get :: "HttpRequest \<Rightarrow> string \<Rightarrow> string" where
  "query_Get r k = (case fmlookup (hq_query r) k of Some (v # _) \<Rightarrow> v | _ \<Rightarrow> [])"

definition query_Has :: "HttpRequest \<Rightarrow> string \<Rightarrow> bool" where
  "query_Has r k \<longleftrightarrow> fmlookup (hq_query r) k \<noteq> None"

definition header_Get :: "HttpRequest \<Rightarrow> string \<Rightarrow> string" where
  "header_Get r k = (case fmlookup (hq_header r) k of None \<Rightarrow> [] | Some v \<Rightarrow> v)"

datatype payload =
    PCatalog "catalogService list" | PHealth "healthServiceEntry list" | PServices "(string, string list) fmap"
  | PNodes "consul_node list" | PChecks "healthCheck list" | PCheckMap "(string, healthCheck) fmap"
  | PAgentServices "(string, agentService) fmap" | PSelf agentSelf | PStrings "string list" | PString string
  | PMembers "(string \<times> string \<times> string) list" | PAggregated string | PDump "(string, ServiceEntry list) fmap"

datatype httpResponse =
    Json uint64 string payload
  | PlainText string
  | OKStatus
  | HttpError nat
  | Aborted

record NodeInfo =
  ni_ID :: string
  ni_Name :: string
  ni_Datacenter :: string
  ni_Address :: string
  ni_Version :: string
  ni_Seeds :: "string list"
  ni_Federated :: "string list"

text \<open>The fixed part of the handler, and the part requests change.\<close>

record Handler =
  ha_info :: NodeInfo
  ha_identity :: Identity
  ha_authz :: "Authorizer option"
  ha_dumper :: bool
  ha_members :: "(string \<times> string \<times> string) list option"
  ha_maxWaiters :: int

record 's surface =
  su_reg :: 's
  su_watcher :: "Watcher option"
  su_checks :: "Monitor option"
  su_rrl :: "Limiter option"
  su_waiters :: nat

definition serverPort :: string where
  "serverPort = ''8300''"

definition defaultWait :: duration where
  "defaultWait = 5 * 60 * second"

definition maxWait :: duration where
  "maxWait = 10 * 60 * second"

definition defaultMaxWaiters :: int where
  "defaultMaxWaiters = 256"

definition NewHandler_maxWaiters :: "int \<Rightarrow> int" where
  "NewHandler_maxWaiters n = (if n \<le> 0 then defaultMaxWaiters else n)"

section \<open>Helpers\<close>

definition tokenFromHTTP :: "HttpRequest \<Rightarrow> string" where
  "tokenFromHTTP r =
     (let a = header_Get r ''Authorization'' in
      if HasPrefix a ''Bearer '' then TrimSpace (TrimPrefix a ''Bearer '')
      else if header_Get r ''X-Consul-Token'' \<noteq> [] then header_Get r ''X-Consul-Token''
      else query_Get r ''token'')"

definition authorizeWrite :: "Handler \<Rightarrow> HttpRequest \<Rightarrow> bool" where
  "authorizeWrite h r =
     (case ha_authz h of
        None \<Rightarrow> True
      | Some authz \<Rightarrow>
          if \<not> Enforcing authz then True
          else let p = Identity_PrincipalForToken (ha_identity h) (tokenFromHTTP r) in
            Authorize authz p (ni_ID (ha_info h)) = None)"

definition indexFor :: "'s surface \<Rightarrow> Query \<Rightarrow> uint64" where
  "indexFor su q = (case su_watcher su of Some w \<Rightarrow> Watcher_CurrentIndex w q | None \<Rightarrow> 1)"

definition request_query :: "HttpRequest \<Rightarrow> Query" where
  "request_query r =
     (let q = Query_zero\<lparr>q_Name := PathValue r ''service'', q_Datacenter := query_Get r ''dc''\<rparr> in
      case fmlookup (hq_query r) ''tag'' of Some tags \<Rightarrow> q\<lparr>q_Tags := tags\<rparr> | None \<Rightarrow> q)"

definition handler_node :: "Handler \<Rightarrow> Node" where
  "handler_node h = Node_zero\<lparr>n_ID := ni_ID (ha_info h), n_Name := ni_Name (ha_info h), n_Address := ni_Address (ha_info h),
     n_Datacenter := ni_Datacenter (ha_info h)\<rparr>"

definition leaderAddr :: "Handler \<Rightarrow> string" where
  "leaderAddr h =
     (let addr = (if ni_Address (ha_info h) = [] then ''127.0.0.1'' else ni_Address (ha_info h)) in addr @ '':'' @ serverPort)"

definition Milliseconds :: "duration \<Rightarrow> int" where
  "Milliseconds d = (if d < 0 then - ((- d) div 1000000) else d div 1000000)"

definition FormatInt :: "int \<Rightarrow> string" where
  "FormatInt n = (if n < 0 then CHR ''-'' # decimal (nat (- n)) else decimal (nat n))"

definition writeJSON :: "uint64 \<Rightarrow> Consistency \<Rightarrow> duration \<Rightarrow> payload \<Rightarrow> httpResponse" where
  "writeJSON index mode age v =
     Json (if index < 1 then 1 else index)
       (if mode = ConsistencyStale then FormatInt (Milliseconds age) else ''0'') v"

definition fail_response :: "reg_error \<Rightarrow> httpResponse" where
  "fail_response err = HttpError 500"

definition readMode :: "HttpRequest \<Rightarrow> Consistency" where
  "readMode r =
     (if query_Has r ''consistent'' then ConsistencyConsistent
      else if query_Has r ''stale'' then ConsistencyStale
      else ConsistencyDefault)"

definition blockParams :: "HttpRequest \<Rightarrow> uint64 \<times> duration" where
  "blockParams r =
     (let minIndex = (if query_Get r ''index'' \<noteq> []
                      then (case ParseUint (query_Get r ''index'') of Inr n \<Rightarrow> n | Inl ErrSyntax \<Rightarrow> 0 | Inl ErrRange \<Rightarrow> - 1)
                      else 0);
          wait = (if query_Get r ''wait'' \<noteq> []
                  then (case ParseDuration (query_Get r ''wait'') of Some d \<Rightarrow> if d > 0 then d else defaultWait | None \<Rightarrow> defaultWait)
                  else defaultWait)
      in (minIndex, if wait > maxWait then maxWait else wait))"

definition compileFilter :: "HttpRequest \<Rightarrow> filter_error + filterExpr option" where
  "compileFilter r =
     (let f = query_Get r ''filter'' in
      if TrimSpace f = [] then Inr None
      else case parseFilter f of Inl err \<Rightarrow> Inl err | Inr e \<Rightarrow> Inr (Some e))"

definition acquireWaiter :: "Handler \<Rightarrow> 's surface \<Rightarrow> 's surface option" where
  "acquireWaiter h su = (if int (su_waiters su) < ha_maxWaiters h then Some (su\<lparr>su_waiters := Suc (su_waiters su)\<rparr>) else None)"

definition releaseWaiter :: "'s surface \<Rightarrow> 's surface" where
  "releaseWaiter su = su\<lparr>su_waiters := su_waiters su - 1\<rparr>"

definition hostPortWithServerPort :: "string \<Rightarrow> string" where
  "hostPortWithServerPort seed =
     (case LastIndexByte (CHR '':'') seed of Some i \<Rightarrow> take i seed | None \<Rightarrow> seed) @ '':'' @ serverPort"

definition serviceFromCheckID :: "string \<Rightarrow> string" where
  "serviceFromCheckID checkID = TrimPrefix checkID ''service:''"

fun verb_loop :: "string list \<Rightarrow> string" where
  "verb_loop [] = []"
| "verb_loop [p] = []"
| "verb_loop (p # q # ps) = (if p = ''check'' then q else verb_loop (q # ps))"

definition trim_slashes :: "string \<Rightarrow> string" where
  "trim_slashes s = rev (dropWhile (\<lambda>c. c = CHR ''/'') (rev (dropWhile (\<lambda>c. c = CHR ''/'') s)))"

definition pathVerb :: "string \<Rightarrow> string" where
  "pathVerb path = verb_loop (Split (CHR ''/'') (trim_slashes path))"

definition remoteIP :: "HttpRequest \<Rightarrow> string" where
  "remoteIP r = (case SplitHostPort (hq_remote r) of Some (host, _) \<Rightarrow> host | None \<Rightarrow> hq_remote r)"

section \<open>Writes\<close>

definition of_write :: "(reg_error option \<times> 's) \<Rightarrow> 's surface \<Rightarrow> httpResponse \<times> 's surface" where
  "of_write w su =
     (case w of
        (Some err, s') \<Rightarrow> (fail_response err, su\<lparr>su_reg := s'\<rparr>)
      | (None, s') \<Rightarrow> (OKStatus, su\<lparr>su_reg := s'\<rparr>))"

definition registerService :: "'s Registry \<Rightarrow> Handler \<Rightarrow> HttpRequest \<Rightarrow> 's surface \<Rightarrow> httpResponse \<times> 's surface" where
  "registerService rg h r su =
     (if \<not> authorizeWrite h r then (HttpError 403, su)
      else case hq_body r of
        RegisterBody i \<Rightarrow>
          if ri_Name i = [] then (HttpError 400, su)
          else let svc = inputToService i;
                   reg = \<lparr>r_Node = handler_node h, r_Services = [svc], r_Generation = 1\<rparr> in
            (case rg_RegisterServices rg reg (su_reg su) of
               (Some err, s') \<Rightarrow> (fail_response err, su\<lparr>su_reg := s'\<rparr>)
             | (None, s') \<Rightarrow> (OKStatus, su\<lparr>su_reg := s',
                   su_checks := map_option (Monitor_Set (s_ID svc) (activeChecks i)) (su_checks su)\<rparr>))
      | _ \<Rightarrow> (HttpError 400, su))"

definition deregisterService :: "'s Registry \<Rightarrow> Handler \<Rightarrow> HttpRequest \<Rightarrow> 's surface \<Rightarrow> httpResponse \<times> 's surface" where
  "deregisterService rg h r su =
     (if \<not> authorizeWrite h r then (HttpError 403, su)
      else let serviceID = PathValue r ''serviceID'' in
        case rg_RemoveService rg serviceID (su_reg su) of
          (Some err, s') \<Rightarrow> (fail_response err, su\<lparr>su_reg := s'\<rparr>)
        | (None, s') \<Rightarrow> (OKStatus, su\<lparr>su_reg := s', su_checks := map_option (Monitor_Remove serviceID) (su_checks su)\<rparr>))"

definition checkAccept :: "'s surface \<Rightarrow> httpResponse \<times> 's surface" where
  "checkAccept su = (OKStatus, su)"

definition checkUpdate :: "'s Registry \<Rightarrow> Handler \<Rightarrow> HttpRequest \<Rightarrow> 's surface \<Rightarrow> httpResponse \<times> 's surface" where
  "checkUpdate rg h r su =
     (if \<not> authorizeWrite h r then (HttpError 403, su)
      else let serviceID = serviceFromCheckID (PathValue r ''checkID''); verb = pathVerb (hq_url r) in
        of_write (if verb = ''fail'' then rg_FailService rg serviceID (su_reg su)
                  else rg_RenewService rg serviceID (su_reg su)) su)"

definition serviceMaintenance :: "'s Registry \<Rightarrow> Handler \<Rightarrow> HttpRequest \<Rightarrow> 's surface \<Rightarrow> httpResponse \<times> 's surface" where
  "serviceMaintenance rg h r su =
     (if \<not> authorizeWrite h r then (HttpError 403, su)
      else of_write (rg_SetMaintenance rg (PathValue r ''serviceID'') (query_Get r ''enable'' = ''true'') (su_reg su)) su)"

definition catalog_registration :: "Handler \<Rightarrow> catalogRegisterInput \<Rightarrow> Registration" where
  "catalog_registration h i =
     (let dc = (if cr_Datacenter i = [] then ni_Datacenter (ha_info h) else cr_Datacenter i) in
      \<lparr>r_Node = Node_zero\<lparr>n_ID := cr_Node i, n_Name := cr_Node i, n_Address := cr_Address i, n_Datacenter := dc, n_Meta := cr_NodeMeta i\<rparr>,
       r_Services = (case cr_Service i of
           None \<Rightarrow> []
         | Some sv \<Rightarrow>
             if si_Service sv = [] then []
             else [ServiceInstance_zero\<lparr>s_ID := (if si_ID sv = [] then si_Service sv else si_ID sv), s_Name := si_Service sv,
                     s_Address := si_Address sv, s_Port := clampPort (si_Port sv), s_Tags := si_Tags sv, s_Meta := si_Meta sv\<rparr>]),
       r_Generation = 1\<rparr>)"

definition catalogRegister :: "'s Registry \<Rightarrow> Handler \<Rightarrow> HttpRequest \<Rightarrow> 's surface \<Rightarrow> httpResponse \<times> 's surface" where
  "catalogRegister rg h r su =
     (if \<not> authorizeWrite h r then (HttpError 403, su)
      else case hq_body r of
        CatalogRegisterBody i \<Rightarrow>
          if cr_Node i = [] then (HttpError 400, su)
          else of_write (rg_RegisterExternal rg (catalog_registration h i) (su_reg su)) su
      | _ \<Rightarrow> (HttpError 400, su))"

definition catalogDeregister :: "'s Registry \<Rightarrow> Handler \<Rightarrow> HttpRequest \<Rightarrow> 's surface \<Rightarrow> httpResponse \<times> 's surface" where
  "catalogDeregister rg h r su =
     (if \<not> authorizeWrite h r then (HttpError 403, su)
      else case hq_body r of
        CatalogDeregisterBody nodeID _ \<Rightarrow>
          if nodeID = [] then (HttpError 400, su) else of_write (rg_RemoveNode rg nodeID (su_reg su)) su
      | _ \<Rightarrow> (HttpError 400, su))"

section \<open>Reads\<close>

record answered =
  an_entries :: "ServiceEntry list"
  an_index :: uint64
  an_mode :: Consistency
  an_age :: duration

definition read_entries :: "'s Registry \<Rightarrow> Handler \<Rightarrow> ('s surface \<Rightarrow> 's surface) \<Rightarrow> HttpRequest \<Rightarrow> 's surface
    \<Rightarrow> (httpResponse + answered) \<times> 's surface" where
  "read_entries rg h during r su =
     (let q = request_query r; mode = readMode r in
      case compileFilter r of
        Inl err \<Rightarrow> (Inl (HttpError 400), su)
      | Inr fo \<Rightarrow>
          (let (minIndex, wait) = blockParams r;
               waited = (if minIndex > 0 \<and> su_watcher su \<noteq> None
                         then map_option (\<lambda>su'. releaseWaiter (during su')) (acquireWaiter h su) else Some su) in
           case waited of
             None \<Rightarrow> (Inl (HttpError 429), su)
           | Some su1 \<Rightarrow>
               (case rg_Resolve rg q mode (su_reg su1) of
                  (ResolvePanic, s') \<Rightarrow> (Inl Aborted, su1\<lparr>su_reg := s'\<rparr>)
                | (ResolveError err, s') \<Rightarrow> (Inl (fail_response err), su1\<lparr>su_reg := s'\<rparr>)
                | (Resolved res age, s') \<Rightarrow>
                    (let su2 = su1\<lparr>su_reg := s'\<rparr>;
                         entries = (case fo of None \<Rightarrow> lr_Entries res | Some f \<Rightarrow> applyFilter (lr_Entries res) f)
                     in (Inr \<lparr>an_entries = entries, an_index = indexFor su2 q, an_mode = mode, an_age = age\<rparr>, su2)))))"

definition render :: "(answered \<Rightarrow> payload) \<Rightarrow> (httpResponse + answered) \<times> 's surface \<Rightarrow> httpResponse \<times> 's surface" where
  "render f r = (case r of (Inl resp, su) \<Rightarrow> (resp, su) | (Inr a, su) \<Rightarrow> (writeJSON (an_index a) (an_mode a) (an_age a) (f a), su))"

definition handle_catalogService :: "'s Registry \<Rightarrow> Handler \<Rightarrow> ('s surface \<Rightarrow> 's surface) \<Rightarrow> HttpRequest \<Rightarrow> 's surface \<Rightarrow> httpResponse \<times> 's surface" where
  "handle_catalogService rg h during r su =
     render (\<lambda>a. PCatalog (map toCatalog (an_entries a))) (read_entries rg h during r su)"

definition handle_healthService :: "'s Registry \<Rightarrow> Handler \<Rightarrow> ('s surface \<Rightarrow> 's surface) \<Rightarrow> HttpRequest \<Rightarrow> 's surface \<Rightarrow> httpResponse \<times> 's surface" where
  "handle_healthService rg h during r su =
     render (\<lambda>a. PHealth (map toHealth
         (if query_Has r ''passing'' then Filter (an_entries a) passing_only else an_entries a)))
       (read_entries rg h during r su)"

definition service_tags :: "ServiceEntry list \<Rightarrow> (string, string list) fmap" where
  "service_tags entries =
     fold (\<lambda>e out. fmupd (s_Name (e_Service e))
         (mergeTags (case fmlookup out (s_Name (e_Service e)) of None \<Rightarrow> [] | Some ts \<Rightarrow> ts) (s_Tags (e_Service e))) out)
       entries fmempty"

definition handle_catalogServices :: "'s Registry \<Rightarrow> Handler \<Rightarrow> ('s surface \<Rightarrow> 's surface) \<Rightarrow> HttpRequest \<Rightarrow> 's surface \<Rightarrow> httpResponse \<times> 's surface" where
  "handle_catalogServices rg h during r su = render (\<lambda>a. PServices (service_tags (an_entries a))) (read_entries rg h during r su)"

fun nodes_loop :: "ServiceEntry list \<Rightarrow> string set \<Rightarrow> consul_node list" where
  "nodes_loop [] seen = []"
| "nodes_loop (e # es) seen =
     (if n_ID (e_Node e) \<in> seen then nodes_loop es seen
      else toNode (e_Node e) # nodes_loop es (insert (n_ID (e_Node e)) seen))"

definition handle_catalogNodes :: "'s Registry \<Rightarrow> Handler \<Rightarrow> ('s surface \<Rightarrow> 's surface) \<Rightarrow> HttpRequest \<Rightarrow> 's surface \<Rightarrow> httpResponse \<times> 's surface" where
  "handle_catalogNodes rg h during r su = render (\<lambda>a. PNodes (nodes_loop (an_entries a) {})) (read_entries rg h during r su)"

definition handle_healthChecks :: "'s Registry \<Rightarrow> Handler \<Rightarrow> ('s surface \<Rightarrow> 's surface) \<Rightarrow> HttpRequest \<Rightarrow> 's surface \<Rightarrow> httpResponse \<times> 's surface" where
  "handle_healthChecks rg h during r su = render (\<lambda>a. PChecks (map serviceCheck (an_entries a))) (read_entries rg h during r su)"

definition handle_healthState :: "'s Registry \<Rightarrow> HttpRequest \<Rightarrow> 's surface \<Rightarrow> httpResponse \<times> 's surface" where
  "handle_healthState rg r su =
     (let state = PathValue r ''state'' in
      case rg_Resolve rg (Query_zero\<lparr>q_Datacenter := query_Get r ''dc''\<rparr>) (readMode r) (su_reg su) of
        (ResolvePanic, s') \<Rightarrow> (Aborted, su\<lparr>su_reg := s'\<rparr>)
      | (ResolveError err, s') \<Rightarrow> (fail_response err, su\<lparr>su_reg := s'\<rparr>)
      | (Resolved res _, s') \<Rightarrow>
          (let su' = su\<lparr>su_reg := s'\<rparr> in
           (writeJSON (indexFor su' Query_zero) (readMode r) 0
              (PChecks (filter (\<lambda>c. state = ''any'' \<or> hc_Status c = state) (map serviceCheck (lr_Entries res)))), su')))"

definition localEntries :: "'s Registry \<Rightarrow> Handler \<Rightarrow> 's surface \<Rightarrow> ServiceEntry list option \<times> 's surface" where
  "localEntries rg h su =
     (case rg_Resolve rg Query_zero ConsistencyDefault (su_reg su) of
        (ResolvePanic, s') \<Rightarrow> (None, su\<lparr>su_reg := s'\<rparr>)
      | (ResolveError _, s') \<Rightarrow> (Some [], su\<lparr>su_reg := s'\<rparr>)
      | (Resolved res _, s') \<Rightarrow> (Some (filter (\<lambda>e. n_ID (e_Node e) = ni_ID (ha_info h)) (lr_Entries res)), su\<lparr>su_reg := s'\<rparr>))"

definition agentChecks :: "'s Registry \<Rightarrow> Handler \<Rightarrow> 's surface \<Rightarrow> httpResponse \<times> 's surface" where
  "agentChecks rg h su =
     (case localEntries rg h su of
        (None, su') \<Rightarrow> (Aborted, su')
      | (Some es, su') \<Rightarrow>
          (writeJSON (indexFor su' Query_zero) ConsistencyDefault 0
             (PCheckMap (fold (\<lambda>c. fmupd (hc_CheckID c) c) (concat (map synthChecks es)) fmempty)), su'))"

definition agentHealthByName :: "'s Registry \<Rightarrow> Handler \<Rightarrow> HttpRequest \<Rightarrow> 's surface \<Rightarrow> httpResponse \<times> 's surface" where
  "agentHealthByName rg h r su =
     (let name = PathValue r ''name'' in
      case localEntries rg h su of
        (None, su') \<Rightarrow> (Aborted, su')
      | (Some es, su') \<Rightarrow>
          (let matched = filter (\<lambda>e. s_Name (e_Service e) = name) es in
           if length matched = 0 then (HttpError 404, su')
           else let status = aggregateStatus matched in
             if query_Get r ''format'' = ''text'' then (PlainText status, su')
             else (writeJSON (indexFor su' (Query_zero\<lparr>q_Name := name\<rparr>)) ConsistencyDefault 0 (PAggregated status), su')))"

definition agentServices :: "'s Registry \<Rightarrow> 's surface \<Rightarrow> httpResponse \<times> 's surface" where
  "agentServices rg su =
     (writeJSON (indexFor su Query_zero) ConsistencyDefault 0
        (PAgentServices (fold (\<lambda>s. fmupd (s_ID s)
           \<lparr>as_ID = s_ID s, as_Service = s_Name s, as_Tags = s_Tags s, as_Meta = s_Meta s, as_Port = uint (s_Port s),
            as_Address = s_Address s, as_Weights = modelWeights (s_Weights s)\<rparr>) (rg_Hosted rg (su_reg su)) fmempty)), su)"

definition handle_agentSelf :: "Handler \<Rightarrow> 's surface \<Rightarrow> httpResponse \<times> 's surface" where
  "handle_agentSelf h su =
     (writeJSON (indexFor su Query_zero) ConsistencyDefault 0
        (PSelf \<lparr>sf_Datacenter = ni_Datacenter (ha_info h), sf_NodeName = ni_Name (ha_info h), sf_Version = ni_Version (ha_info h),
          sf_MemberName = ni_Name (ha_info h), sf_MemberAddr = ni_Address (ha_info h), sf_MemberPort = int (digits_value serverPort)\<rparr>), su)"

definition catalogDatacenters :: "Handler \<Rightarrow> 's surface \<Rightarrow> httpResponse \<times> 's surface" where
  "catalogDatacenters h su =
     (writeJSON (indexFor su Query_zero) ConsistencyDefault 0 (PStrings (ni_Datacenter (ha_info h) # ni_Federated (ha_info h))), su)"

definition agentMembers :: "Handler \<Rightarrow> 's surface \<Rightarrow> httpResponse \<times> 's surface" where
  "agentMembers h su =
     (writeJSON (indexFor su Query_zero) ConsistencyDefault 0
        (PMembers (case ha_members h of
            Some ms \<Rightarrow> ms
          | None \<Rightarrow> (ni_Name (ha_info h), ni_Address (ha_info h), ''alive'') # map (\<lambda>s. (s, s, ''alive'')) (ni_Seeds (ha_info h)))), su)"

definition statusLeader :: "Handler \<Rightarrow> 's surface \<Rightarrow> httpResponse \<times> 's surface" where
  "statusLeader h su = (writeJSON (indexFor su Query_zero) ConsistencyDefault 0 (PString (leaderAddr h)), su)"

definition statusPeers :: "Handler \<Rightarrow> 's surface \<Rightarrow> httpResponse \<times> 's surface" where
  "statusPeers h su =
     (let peers = map hostPortWithServerPort (ni_Seeds (ha_info h));
          peers = (if length peers = 0 then [leaderAddr h] else peers)
      in (writeJSON (indexFor su Query_zero) ConsistencyDefault 0 (PStrings peers), su))"

definition registryDump :: "'s Registry \<Rightarrow> Handler \<Rightarrow> HttpRequest \<Rightarrow> 's surface \<Rightarrow> httpResponse \<times> 's surface" where
  "registryDump rg h r su =
     (let q = Query_zero\<lparr>q_Name := query_Get r ''service'', q_Datacenter := query_Get r ''dc''\<rparr> in
      if ha_dumper h then (writeJSON (indexFor su q) ConsistencyDefault 0 (PDump (rg_Dump rg q (su_reg su))), su)
      else case rg_Resolve rg q ConsistencyConsistent (su_reg su) of
        (ResolvePanic, s') \<Rightarrow> (Aborted, su\<lparr>su_reg := s'\<rparr>)
      | (ResolveError err, s') \<Rightarrow> (fail_response err, su\<lparr>su_reg := s'\<rparr>)
      | (Resolved res _, s') \<Rightarrow>
          (let su' = su\<lparr>su_reg := s'\<rparr> in
           (writeJSON (indexFor su' q) ConsistencyDefault 0 (PDump (fmupd ''local'' (lr_Entries res) fmempty)), su')))"

section \<open>Routing\<close>

datatype Endpoint =
    RegisterService | DeregisterServiceE | AgentServices | AgentSelfE | CatalogServices | CatalogServiceE | CatalogNodes
  | CatalogDatacentersE | HealthServiceE | HealthChecksE | HealthStateE | StatusLeader | StatusPeers | CheckAccept | CheckUpdate
  | AgentChecksE | ServiceMaintenanceE | AgentHealthByNameE | AgentMembersE | CatalogRegisterE | CatalogDeregisterE | RegistryDumpE

datatype seg = Lit string | Var string

definition routes :: "(string \<times> seg list \<times> Endpoint) list" where
  "routes =
    [(''PUT'', [Lit ''v1'', Lit ''agent'', Lit ''service'', Lit ''register''], RegisterService),
     (''PUT'', [Lit ''v1'', Lit ''agent'', Lit ''service'', Lit ''deregister'', Var ''serviceID''], DeregisterServiceE),
     (''GET'', [Lit ''v1'', Lit ''agent'', Lit ''services''], AgentServices),
     (''GET'', [Lit ''v1'', Lit ''agent'', Lit ''self''], AgentSelfE),
     (''GET'', [Lit ''v1'', Lit ''catalog'', Lit ''services''], CatalogServices),
     (''GET'', [Lit ''v1'', Lit ''catalog'', Lit ''service'', Var ''service''], CatalogServiceE),
     (''GET'', [Lit ''v1'', Lit ''catalog'', Lit ''nodes''], CatalogNodes),
     (''GET'', [Lit ''v1'', Lit ''catalog'', Lit ''datacenters''], CatalogDatacentersE),
     (''GET'', [Lit ''v1'', Lit ''health'', Lit ''service'', Var ''service''], HealthServiceE),
     (''GET'', [Lit ''v1'', Lit ''health'', Lit ''checks'', Var ''service''], HealthChecksE),
     (''GET'', [Lit ''v1'', Lit ''health'', Lit ''state'', Var ''state''], HealthStateE),
     (''GET'', [Lit ''v1'', Lit ''status'', Lit ''leader''], StatusLeader),
     (''GET'', [Lit ''v1'', Lit ''status'', Lit ''peers''], StatusPeers),
     (''PUT'', [Lit ''v1'', Lit ''agent'', Lit ''check'', Lit ''register''], CheckAccept),
     (''PUT'', [Lit ''v1'', Lit ''agent'', Lit ''check'', Lit ''deregister'', Var ''checkID''], CheckAccept),
     (''PUT'', [Lit ''v1'', Lit ''agent'', Lit ''check'', Lit ''pass'', Var ''checkID''], CheckUpdate),
     (''PUT'', [Lit ''v1'', Lit ''agent'', Lit ''check'', Lit ''warn'', Var ''checkID''], CheckUpdate),
     (''PUT'', [Lit ''v1'', Lit ''agent'', Lit ''check'', Lit ''fail'', Var ''checkID''], CheckUpdate),
     (''PUT'', [Lit ''v1'', Lit ''agent'', Lit ''check'', Lit ''update'', Var ''checkID''], CheckUpdate),
     (''GET'', [Lit ''v1'', Lit ''agent'', Lit ''checks''], AgentChecksE),
     (''PUT'', [Lit ''v1'', Lit ''agent'', Lit ''service'', Lit ''maintenance'', Var ''serviceID''], ServiceMaintenanceE),
     (''GET'', [Lit ''v1'', Lit ''agent'', Lit ''health'', Lit ''service'', Lit ''name'', Var ''name''], AgentHealthByNameE),
     (''GET'', [Lit ''v1'', Lit ''agent'', Lit ''members''], AgentMembersE),
     (''PUT'', [Lit ''v1'', Lit ''catalog'', Lit ''register''], CatalogRegisterE),
     (''PUT'', [Lit ''v1'', Lit ''catalog'', Lit ''deregister''], CatalogDeregisterE),
     (''GET'', [Lit ''v1'', Lit ''internal'', Lit ''registry-dump''], RegistryDumpE)]"

fun match_path :: "seg list \<Rightarrow> string list \<Rightarrow> smap option" where
  "match_path [] [] = Some fmempty"
| "match_path (Lit l # pat) (p # ps) = (if l = p then match_path pat ps else None)"
| "match_path (Var x # pat) (p # ps) =
     (if p = [] then None else case match_path pat ps of None \<Rightarrow> None | Some m \<Rightarrow> Some (fmupd x p m))"
| "match_path _ _ = None"

text \<open>A pattern for \<^verbatim>\<open>GET\<close> also serves \<^verbatim>\<open>HEAD\<close>.\<close>

definition verb_matches :: "string \<Rightarrow> string \<Rightarrow> bool" where
  "verb_matches pat verb \<longleftrightarrow> verb = pat \<or> pat = ''GET'' \<and> verb = ''HEAD''"

definition path_segments :: "string \<Rightarrow> string list" where
  "path_segments url = tl (Split (CHR ''/'') url)"

fun route_in :: "(string \<times> seg list \<times> Endpoint) list \<Rightarrow> string \<Rightarrow> string list \<Rightarrow> (Endpoint \<times> smap) option" where
  "route_in [] verb ps = None"
| "route_in ((v, pat, ep) # rs) verb ps =
     (case match_path pat ps of
        Some vars \<Rightarrow> if verb_matches v verb then Some (ep, vars) else route_in rs verb ps
      | None \<Rightarrow> route_in rs verb ps)"

definition path_known :: "string list \<Rightarrow> bool" where
  "path_known ps = list_ex (\<lambda>(v, pat, ep). match_path pat ps \<noteq> None) routes"

definition dispatch :: "'s Registry \<Rightarrow> Handler \<Rightarrow> ('s surface \<Rightarrow> 's surface) \<Rightarrow> Endpoint \<Rightarrow> HttpRequest \<Rightarrow> 's surface
    \<Rightarrow> httpResponse \<times> 's surface" where
  "dispatch rg h during ep r su =
     (case ep of
        RegisterService \<Rightarrow> registerService rg h r su
      | DeregisterServiceE \<Rightarrow> deregisterService rg h r su
      | AgentServices \<Rightarrow> agentServices rg su
      | AgentSelfE \<Rightarrow> handle_agentSelf h su
      | CatalogServices \<Rightarrow> handle_catalogServices rg h during r su
      | CatalogServiceE \<Rightarrow> handle_catalogService rg h during r su
      | CatalogNodes \<Rightarrow> handle_catalogNodes rg h during r su
      | CatalogDatacentersE \<Rightarrow> catalogDatacenters h su
      | HealthServiceE \<Rightarrow> handle_healthService rg h during r su
      | HealthChecksE \<Rightarrow> handle_healthChecks rg h during r su
      | HealthStateE \<Rightarrow> handle_healthState rg r su
      | StatusLeader \<Rightarrow> statusLeader h su
      | StatusPeers \<Rightarrow> statusPeers h su
      | CheckAccept \<Rightarrow> checkAccept su
      | CheckUpdate \<Rightarrow> checkUpdate rg h r su
      | AgentChecksE \<Rightarrow> agentChecks rg h su
      | ServiceMaintenanceE \<Rightarrow> serviceMaintenance rg h r su
      | AgentHealthByNameE \<Rightarrow> agentHealthByName rg h r su
      | AgentMembersE \<Rightarrow> agentMembers h su
      | CatalogRegisterE \<Rightarrow> catalogRegister rg h r su
      | CatalogDeregisterE \<Rightarrow> catalogDeregister rg h r su
      | RegistryDumpE \<Rightarrow> registryDump rg h r su)"

definition serve_http :: "'s Registry \<Rightarrow> Handler \<Rightarrow> time \<Rightarrow> ('s surface \<Rightarrow> 's surface) \<Rightarrow> string \<Rightarrow> HttpRequest \<Rightarrow> 's surface
    \<Rightarrow> httpResponse \<times> 's surface" where
  "serve_http rg h now during verb r su =
     (case Limiter_Allow now (remoteIP r) (su_rrl su) of (ok, rrl) \<Rightarrow>
        let su = su\<lparr>su_rrl := rrl\<rparr>; ps = path_segments (hq_url r) in
        if \<not> ok then (HttpError 429, su)
        else case route_in routes verb ps of
          Some (ep, vars) \<Rightarrow> dispatch rg h during ep (r\<lparr>hq_path := vars\<rparr>) su
        | None \<Rightarrow> (HttpError (if path_known ps then 405 else 404), su))"

section \<open>Service-definition files\<close>

record serviceDefFile =
  sd_Service :: "registerInput option"
  sd_Services :: "registerInput list"

definition parseServiceDef :: "serviceDefFile option \<Rightarrow> registerInput list option" where
  "parseServiceDef f =
     (case f of None \<Rightarrow> None | Some f \<Rightarrow> Some ((case sd_Service f of None \<Rightarrow> [] | Some i \<Rightarrow> [i]) @ sd_Services f))"

fun load_inputs :: "'s Registry \<Rightarrow> registerInput list \<Rightarrow> nat \<Rightarrow> 's surface \<Rightarrow> nat \<times> 's surface" where
  "load_inputs rg [] cnt su = (cnt, su)"
| "load_inputs rg (i # ins) cnt su =
     (if ri_Name i = [] then load_inputs rg ins cnt su
      else let svc = inputToService i; reg = \<lparr>r_Node = Node_zero, r_Services = [svc], r_Generation = 1\<rparr> in
        case rg_RegisterServices rg reg (su_reg su) of
          (Some err, s') \<Rightarrow> load_inputs rg ins cnt (su\<lparr>su_reg := s'\<rparr>)
        | (None, s') \<Rightarrow> load_inputs rg ins (Suc cnt) (su\<lparr>su_reg := s',
              su_checks := map_option (Monitor_Set (s_ID svc) (activeChecks i)) (su_checks su)\<rparr>))"

text \<open>The entries of the directory in its order: name, whether it is a directory, and the decoded file.\<close>

fun load_files :: "'s Registry \<Rightarrow> (string \<times> bool \<times> serviceDefFile option) list \<Rightarrow> nat \<Rightarrow> 's surface \<Rightarrow> nat \<times> 's surface" where
  "load_files rg [] cnt su = (cnt, su)"
| "load_files rg ((name, isDir, f) # files) cnt su =
     (if isDir \<or> \<not> HasSuffix name ''.json'' then load_files rg files cnt su
      else case parseServiceDef f of
        None \<Rightarrow> load_files rg files cnt su
      | Some inputs \<Rightarrow> (case load_inputs rg inputs cnt su of (cnt', su') \<Rightarrow> load_files rg files cnt' su'))"

definition LoadServiceDefs :: "'s Registry \<Rightarrow> string \<Rightarrow> (string \<times> bool \<times> serviceDefFile option) list option \<Rightarrow> 's surface
    \<Rightarrow> nat option \<times> 's surface" where
  "LoadServiceDefs rg dir listing su =
     (if dir = [] then (Some 0, su)
      else case listing of
        None \<Rightarrow> (None, su)
      | Some files \<Rightarrow> (case load_files rg files 0 su of (n, su') \<Rightarrow> (Some n, su')))"

end
