(* ===== verification/Consul.thy ===== *)
theory Consul
  imports ConsulHttp
begin

text \<open>
  Properties of the Consul surface. What the handlers rely on of a registry when they read is the
  locale \<open>registry_reads\<close>; it is interpreted on a seed's registry and on the agent's. The seed's surface is
  then shown to project the registry and to enforce ownership.
\<close>

section \<open>What a read relies on\<close>

definition sorted_entries :: "ServiceEntry list \<Rightarrow> bool" where
  "sorted_entries es \<longleftrightarrow> sorted_wrt (<) (map entry_id es)"

lemma sorted_entries_filter: "sorted_entries es \<Longrightarrow> sorted_entries (filter P es)"
  by (simp add: sorted_entries_def sorted_wrt_map sorted_wrt_filter)

lemma sorted_entries_distinct: "sorted_entries es \<Longrightarrow> distinct (map entry_id es)"
  by (simp add: sorted_entries_def strict_sorted_iff)

lemma nodes_loop_set: "cn_ID ` set (nodes_loop es seen) = (n_ID \<circ> e_Node) ` set es - seen"
  by (induction es arbitrary: seen) (auto simp: toNode_def)

lemma nodes_loop_distinct: "distinct (map cn_ID (nodes_loop es seen))"
proof (induction es arbitrary: seen)
  case (Cons e es)
  have "n_ID (e_Node e) \<notin> cn_ID ` set (nodes_loop es (insert (n_ID (e_Node e)) seen))" by (auto simp: nodes_loop_set)
  then show ?case using Cons by (simp add: toNode_def)
qed simp

definition writing :: "Endpoint \<Rightarrow> bool" where
  "writing ep \<longleftrightarrow> ep \<in> {RegisterService, DeregisterServiceE, CheckUpdate, ServiceMaintenanceE, CatalogRegisterE, CatalogDeregisterE}"

lemma authorizeWrite_path [simp]: "authorizeWrite h (r\<lparr>hq_path := vars\<rparr>) = authorizeWrite h r"
proof -
  have "tokenFromHTTP (r\<lparr>hq_path := vars\<rparr>) = tokenFromHTTP r" by (simp add: tokenFromHTTP_def header_Get_def query_Get_def Let_def)
  then show ?thesis by (auto simp: authorizeWrite_def Let_def split: option.splits)
qed

locale registry_reads =
  fixes rg :: "'s Registry" and inv :: "'s \<Rightarrow> bool" and facts :: "'s \<Rightarrow> 'f"
  assumes resolve_keeps: "inv s \<Longrightarrow> rg_Resolve rg q mode s = (out, s') \<Longrightarrow> inv s' \<and> facts s' = facts s"
    and resolve_sorted: "inv s \<Longrightarrow> rg_Resolve rg q mode s = (Resolved res age, s') \<Longrightarrow> sorted_entries (lr_Entries res)"
begin

lemma read_keeps:
  assumes "inv (su_reg su)" "\<And>su'. su_reg (during su') = su_reg su'" "read_entries rg h during r su = (out, su')"
  shows "inv (su_reg su') \<and> facts (su_reg su') = facts (su_reg su)"
proof -
  have w: "su_reg (releaseWaiter (during x)) = su_reg x" for x using assms(2) by (simp add: releaseWaiter_def)
  show ?thesis
    using assms(1,3) resolve_keeps
    by (auto simp: read_entries_def acquireWaiter_def w Let_def split: sum.splits option.splits prod.splits if_splits resolved.splits)
qed

lemma read_sorted:
  assumes "inv (su_reg su)" "\<And>su'. su_reg (during su') = su_reg su'" "read_entries rg h during r su = (Inr a, su')"
  shows "sorted_entries (an_entries a)"
proof -
  have w: "su_reg (releaseWaiter (during x)) = su_reg x" for x using assms(2) by (simp add: releaseWaiter_def)
  show ?thesis
    using assms(1,3) resolve_sorted
    by (auto simp: read_entries_def acquireWaiter_def w applyFilter_def Let_def split: sum.splits option.splits prod.splits if_splits resolved.splits
        intro!: sorted_entries_filter)
qed

lemma dispatch_reads:
  assumes i: "inv (su_reg su)" and d: "\<And>su'. su_reg (during su') = su_reg su'" and ep: "\<not> writing ep"
    and run: "dispatch rg h during ep r su = (resp, su')"
  shows "inv (su_reg su') \<and> facts (su_reg su') = facts (su_reg su)"
proof -
  have rd: "inv (su_reg x) \<and> facts (su_reg x) = facts (su_reg su)" if "render f (read_entries rg h during r su) = (resp, x)" for f x
    using that read_keeps [OF i d, of h r] by (auto simp: render_def split: prod.splits sum.splits)
  have rs: "inv s' \<and> facts s' = facts (su_reg su)" if "rg_Resolve rg q mode (su_reg su) = (out, s')" for q mode out s'
    using resolve_keeps [OF i that] .
  show ?thesis
    using ep run i rs
    by (cases ep)
      (auto simp: writing_def dispatch_def agentServices_def handle_agentSelf_def catalogDatacenters_def statusLeader_def statusPeers_def
        agentMembers_def checkAccept_def registryDump_def handle_healthState_def agentChecks_def agentHealthByName_def localEntries_def
        handle_catalogServices_def handle_catalogService_def handle_catalogNodes_def handle_healthService_def handle_healthChecks_def Let_def
        dest: rd split: prod.splits option.splits resolved.splits if_splits)
qed

lemma dispatch_denied:
  assumes "\<not> authorizeWrite h r" "writing ep"
  shows "dispatch rg h during ep r su = (HttpError 403, su)"
  using assms by (auto simp: writing_def dispatch_def registerService_def deregisterService_def checkUpdate_def serviceMaintenance_def
      catalogRegister_def catalogDeregister_def)

lemma serve_denied:
  assumes i: "inv (su_reg su)" and d: "\<And>su'. su_reg (during su') = su_reg su'" and no: "\<not> authorizeWrite h r"
    and run: "serve_http rg h now during verb r su = (resp, su')"
  shows "facts (su_reg su') = facts (su_reg su)"
    "\<And>ep vars. route_in routes verb (path_segments (hq_url r)) = Some (ep, vars) \<Longrightarrow> writing ep \<Longrightarrow> resp \<in> {HttpError 403, HttpError 429}"
proof -
  obtain ok rrl where l: "Limiter_Allow now (remoteIP r) (su_rrl su) = (ok, rrl)" by fastforce
  let ?su = "su\<lparr>su_rrl := rrl\<rparr>"
  have i': "inv (su_reg ?su)" using i by simp
  show "facts (su_reg su') = facts (su_reg su)"
  proof (cases "route_in routes verb (path_segments (hq_url r))")
    case None
    then show ?thesis using run l by (auto simp: serve_http_def Let_def split: if_splits)
  next
    case (Some x)
    obtain ep vars where x: "x = (ep, vars)" by fastforce
    show ?thesis
    proof (cases "writing ep")
      case True
      then show ?thesis using run l Some x no dispatch_denied [of h "r\<lparr>hq_path := vars\<rparr>" ep during ?su]
        by (auto simp: serve_http_def Let_def split: if_splits)
    next
      case False
      then show ?thesis using run l Some x dispatch_reads [OF i' d False, of h "r\<lparr>hq_path := vars\<rparr>"]
        by (auto simp: serve_http_def Let_def split: if_splits)
    qed
  qed
  show "resp \<in> {HttpError 403, HttpError 429}" if "route_in routes verb (path_segments (hq_url r)) = Some (ep, vars)" "writing ep" for ep vars
    using run l that no dispatch_denied [of h "r\<lparr>hq_path := vars\<rparr>" ep during ?su]
    by (auto simp: serve_http_def Let_def split: if_splits)
qed

end

section \<open>The two registries\<close>

interpretation seed_reads: registry_reads "NewStoreRegistry now evclk order node" ids_ok "\<lambda>m. m" for now evclk order node
  by unfold_locales (auto simp: NewStoreRegistry_def StoreRegistry_Resolve_def sorted_entries_def sorted_Lookup)

text \<open>An agent's cache holds merged, hence sorted, answers; a read leaves seeds, identity and hosted services alone.\<close>

definition cache_sorted :: "agent \<Rightarrow> bool" where
  "cache_sorted a \<longleftrightarrow> (\<forall>c k e. ag_cache (fst a) = Some c \<longrightarrow> fmlookup (ca_entries c) k = Some e \<longrightarrow> sorted_entries (ce_merged e))"

definition agent_facts :: "agent \<Rightarrow> cluster \<times> (string, ServiceInstance) fmap \<times> SeedClient \<times> Node" where
  "agent_facts a = (snd a, ag_hosted (fst a), ag_client (fst a), ag_node (fst a))"

lemma client_lookup_sorted: "client_lookup w order c cl q = Inr lr \<Longrightarrow> sorted_entries (lr_Entries lr)"
  by (auto simp: client_lookup_def Lookup_result sorted_entries_def sorted_MergeLWW split: if_splits)

lemma Filter_sorted: "sorted_entries es \<Longrightarrow> sorted_entries (Filter es opts)"
  by (auto simp: Filter_def sorted_entries_filter)

lemma Cache_fetch_sorted:
  assumes "Cache_fetch (local_lookup w perm a) t q c = (r, names, c')" "\<forall>k e. fmlookup (ca_entries c) k = Some e \<longrightarrow> sorted_entries (ce_merged e)"
  shows "(\<forall>k e. fmlookup (ca_entries c') k = Some e \<longrightarrow> sorted_entries (ce_merged e)) \<and> (\<forall>e. r = Inr e \<longrightarrow> sorted_entries (ce_merged e))"
  using assms client_lookup_sorted
  by (auto simp: Cache_fetch_def local_lookup_def Let_def split: sum.splits if_splits)

lemma LookupWithAge_sorted:
  assumes "LookupWithAge (local_lookup w perm a) t1 t2 t3 q c = (out, names, c')" "\<forall>k e. fmlookup (ca_entries c) k = Some e \<longrightarrow> sorted_entries (ce_merged e)"
  shows "(\<forall>k e. fmlookup (ca_entries c') k = Some e \<longrightarrow> sorted_entries (ce_merged e)) \<and> (\<forall>lr age. out = Served lr age \<longrightarrow> sorted_entries (lr_Entries lr))"
proof -
  obtain r names1 c1 where f: "Cache_fetch (local_lookup w perm a) t2 q c = (r, names1, c1)" by (metis prod_cases3)
  have served: "sorted_entries (lr_Entries lr)" if "serve_entry t3 q (Some e) = Served lr age" "sorted_entries (ce_merged e)" for e lr age
    using that by (auto simp: serve_entry_def intro: Filter_sorted split: if_splits)
  have hit: "sorted_entries (ce_merged e)" if "fmlookup (ca_entries c) (keyFor q) = Some e" for e using assms(2) that by metis
  show ?thesis
    using assms Cache_fetch_sorted [OF f assms(2)] served hit f
    by (auto simp: LookupWithAge_def serve_entry_None Let_def split: if_splits option.splits sum.splits)
qed

lemma Pool_Resolve_sorted: "Pool_Resolve w perm cl dc q f = Inr lr \<Longrightarrow> sorted_entries (lr_Entries lr)"
  by (auto simp: Pool_Resolve_def LookupResult_zero_def sorted_entries_def dest: client_lookup_sorted [unfolded sorted_entries_def] split: option.splits)

lemma directLookup_sorted: "directLookup (local_lookup w perm a) q = Inr lr \<Longrightarrow> sorted_entries (lr_Entries lr)"
  by (auto simp: directLookup_def local_lookup_def intro!: Filter_sorted intro: client_lookup_sorted split: sum.splits if_splits)

lemma Proxy_Resolve_reads:
  assumes "Proxy_Resolve w perm t1 t2 t3 q mode a = (out, names, a')" "cache_sorted a"
  shows "cache_sorted a' \<and> agent_facts a' = agent_facts a \<and> (\<forall>lr age. out = Served lr age \<longrightarrow> sorted_entries (lr_Entries lr))"
proof -
  have direct: "sorted_entries (lr_Entries lr)" if "served_of (directLookup (local_lookup w perm a) q) = Served lr age" for lr age
    using that directLookup_sorted by (auto simp: served_of_def split: sum.splits)
  have fed: "sorted_entries (lr_Entries lr)" if "served_of (Pool_Resolve w perm (snd a) dc q f) = Served lr age" for dc f lr age
    using that Pool_Resolve_sorted by (auto simp: served_of_def split: sum.splits)
  show ?thesis
  proof (cases "a' = a")
    case True
    then show ?thesis using assms direct fed LookupWithAge_sorted [of w perm a t1 t2 t3 q]
      by (auto simp: Proxy_Resolve_def cache_sorted_def Let_def split: option.splits if_splits prod.splits)
  next
    case False
    then obtain c c' where c: "ag_cache (fst a) = Some c" "LookupWithAge (local_lookup w perm a) t1 t2 t3 q c = (out, names, c')" "a' = set_cache c' a"
      using assms(1) by (auto simp: Proxy_Resolve_def Let_def split: option.splits if_splits prod.splits)
    then show ?thesis using LookupWithAge_sorted [OF c(2)] assms(2) by (auto simp: cache_sorted_def set_cache_def agent_facts_def)
  qed
qed

interpretation agent_reads: registry_reads "agent_registry w perm t1 t2 t3" cache_sorted agent_facts for w perm t1 t2 t3
proof
  fix s q mode out s'
  assume s: "cache_sorted s" and run: "rg_Resolve (agent_registry w perm t1 t2 t3) q mode s = (out, s')"
  obtain o1 names where r: "Proxy_Resolve w perm t1 t2 t3 q mode s = (o1, names, s')"
    using run by (auto simp: agent_registry_def split: prod.splits)
  show "cache_sorted s' \<and> agent_facts s' = agent_facts s" using Proxy_Resolve_reads [OF r s] by simp
next
  fix s q mode res age s'
  assume s: "cache_sorted s" and run: "rg_Resolve (agent_registry w perm t1 t2 t3) q mode s = (Resolved res age, s')"
  obtain o1 names where r: "Proxy_Resolve w perm t1 t2 t3 q mode s = (o1, names, s')" "of_served o1 = Resolved res age"
    using run by (auto simp: agent_registry_def split: prod.splits)
  show "sorted_entries (lr_Entries res)" using Proxy_Resolve_reads [OF r(1) s] r(2) by (auto simp: of_served_def split: served.splits)
qed

section \<open>Ownership\<close>

lemma denied_authorizeWrite:
  "ha_authz h = Some authz \<Longrightarrow> Enforcing authz \<Longrightarrow>
   Authorize authz (Identity_PrincipalForToken (ha_identity h) (tokenFromHTTP r)) (ni_ID (ha_info h)) \<noteq> None \<Longrightarrow> \<not> authorizeWrite h r"
  by (simp add: authorizeWrite_def Let_def)

text \<open>
  C25 (safety). Under the enforcing policy a Consul request whose token is not that of the node's owner changes
  nothing: whatever its method, path and body, the registry of a seed is as it was, and of an agent
  the seeds' registries, the hosted services and the identity are; a request to a write endpoint is
  answered with 403, or with 429 when the client is over its rate.
\<close>

theorem consul_ownership:
  "ha_authz h = Some authz \<Longrightarrow> Enforcing authz \<Longrightarrow>
   Authorize authz (Identity_PrincipalForToken (ha_identity h) (tokenFromHTTP r)) (ni_ID (ha_info h)) \<noteq> None \<Longrightarrow>
   (ids_ok (su_reg su) \<longrightarrow> (\<forall>x. su_reg (during x) = su_reg x) \<longrightarrow>
      serve_http (NewStoreRegistry now evclk order node) h t during verb r su = (resp, su') \<longrightarrow>
      su_reg su' = su_reg su \<and>
      (\<forall>ep vars. route_in routes verb (path_segments (hq_url r)) = Some (ep, vars) \<longrightarrow> writing ep \<longrightarrow> resp \<in> {HttpError 403, HttpError 429})) \<and>
   (cache_sorted (su_reg ag) \<longrightarrow> (\<forall>x. su_reg (during' x) = su_reg x) \<longrightarrow>
      serve_http (agent_registry w perm t1 t2 t3) h t during' verb r ag = (resp', ag') \<longrightarrow>
      agent_facts (su_reg ag') = agent_facts (su_reg ag) \<and>
      (\<forall>ep vars. route_in routes verb (path_segments (hq_url r)) = Some (ep, vars) \<longrightarrow> writing ep \<longrightarrow> resp' \<in> {HttpError 403, HttpError 429}))"
proof -
  assume "ha_authz h = Some authz" "Enforcing authz"
    "Authorize authz (Identity_PrincipalForToken (ha_identity h) (tokenFromHTTP r)) (ni_ID (ha_info h)) \<noteq> None"
  note no = denied_authorizeWrite [OF this]
  show ?thesis
    using seed_reads.serve_denied [where su = su and during = during and h = h and r = r, OF _ _ no]
      agent_reads.serve_denied [where su = ag and during = during' and h = h and r = r, OF _ _ no]
    by (intro conjI impI allI) metis+
qed

definition ex_handler :: Handler where
  "ex_handler = \<lparr>ha_info = \<lparr>ni_ID = ''n1'', ni_Name = ''n1'', ni_Datacenter = ''dc1'', ni_Address = ''10.0.0.1'', ni_Version = ''1'', ni_Seeds = [],
      ni_Federated = []\<rparr>,
     ha_identity = NewIdentity (fmupd ''t1'' ''n1'' (fmupd ''t9'' ''n9'' fmempty)), ha_authz = Some (NewAuthorizer ModeEnforce), ha_dumper = False,
     ha_members = None, ha_maxWaiters = 2\<rparr>"

definition ex_surface :: "'s \<Rightarrow> 's surface" where
  "ex_surface s = \<lparr>su_reg = s, su_watcher = None, su_checks = None, su_rrl = None, su_waiters = 0\<rparr>"

definition ex_request :: "string \<Rightarrow> string \<Rightarrow> (string, string list) fmap \<Rightarrow> HttpRequest" where
  "ex_request url tok query = \<lparr>hq_path = fmempty, hq_url = url, hq_query = query, hq_header = fmupd ''X-Consul-Token'' tok fmempty,
     hq_remote = ''10.0.0.7:4000'', hq_body = BadBody\<rparr>"

definition ex_seed_surface :: "Memory Registry" where
  "ex_seed_surface = NewStoreRegistry 200 (\<lambda>_. 200) [''s1'', ''s2''] (ex_node ''n1'')"

definition ex_dereg :: "string \<Rightarrow> httpResponse \<times> Memory surface" where
  "ex_dereg tok = serve_http ex_seed_surface ex_handler 200 id ''PUT'' (ex_request ''/v1/agent/service/deregister/s1'' tok fmempty) (ex_surface ex_mem)"

theorem consul_ownership_witness:
  "fst (ex_dereg ''t9'') = HttpError 403 \<and> su_reg (snd (ex_dereg ''t9'')) = ex_mem \<and>
   fst (ex_dereg ''t1'') = OKStatus \<and> svc_at (su_reg (snd (ex_dereg ''t1''))) ''n1'' ''s1'' = None"
proof -
  let ?r = "ex_request ''/v1/agent/service/deregister/s1'' ''t9'' fmempty"
  have hyps: "ha_authz ex_handler = Some (NewAuthorizer ModeEnforce)" "Enforcing (NewAuthorizer ModeEnforce)"
    by (simp_all add: ex_handler_def Enforcing_def NewAuthorizer_def)
  have no: "Authorize (NewAuthorizer ModeEnforce) (Identity_PrincipalForToken (ha_identity ex_handler) (tokenFromHTTP ?r)) (ni_ID (ha_info ex_handler)) \<noteq> None"
    by code_simp
  have ids: "ids_ok (su_reg (ex_surface ex_mem))" using ids_ok_reach [OF ex_reach] by (simp add: ex_surface_def)
  have "su_reg (snd (ex_dereg ''t9'')) = su_reg (ex_surface ex_mem)"
    using conjunct1 [OF consul_ownership [OF hyps no]] ids
    by (metis ex_dereg_def ex_seed_surface_def id_apply prod.collapse)
  moreover have "fst (ex_dereg ''t9'') = HttpError 403 \<and> fst (ex_dereg ''t1'') = OKStatus \<and> svc_at (su_reg (snd (ex_dereg ''t1''))) ''n1'' ''s1'' = None"
    by code_simp
  ultimately show ?thesis by (simp add: ex_surface_def)
qed

text \<open>
  Ownership is checked for the node that serves the request: whoever may write it may remove any other node
  through the catalog endpoint, and naming one service there removes the whole node.
\<close>

lemma catalog_removes_any_node:
  "authorizeWrite h r \<Longrightarrow> hq_body r = CatalogDeregisterBody nid sid \<Longrightarrow> nid \<noteq> [] \<Longrightarrow>
   fst (catalogDeregister (NewStoreRegistry now evclk order node) h r su) = OKStatus \<and>
   svc_at (su_reg (snd (catalogDeregister (NewStoreRegistry now evclk order node) h r su))) nid sid' = None"
proof -
  assume a: "authorizeWrite h r" "hq_body r = CatalogDeregisterBody nid sid" "nid \<noteq> []"
  obtain err out m' where m: "Memory_Deregister order nid (su_reg su) = (err, out, m')" by (metis prod_cases3)
  have err: "err = None \<or> err = Some ErrNotFound" using m by (auto simp: Memory_Deregister_def split: option.splits prod.splits)
  have gone: "svc_at m' nid sid' = None" using m by (auto simp: Memory_Deregister_def svc_at_def split: option.splits prod.splits)
  show ?thesis using a m err gone
    by (auto simp: catalogDeregister_def NewStoreRegistry_def StoreRegistry_RemoveNode_def of_write_def)
qed

section \<open>What the read endpoints answer\<close>

lemma render_read:
  assumes "fst (blockParams r) = 0 \<or> su_watcher su = None" "compileFilter r = Inr fo"
  shows "render f (read_entries (NewStoreRegistry now evclk order node) h during r su) =
    (let es = lr_Entries (Memory_Lookup now (request_query r) (su_reg su));
         a = \<lparr>an_entries = (case fo of None \<Rightarrow> es | Some p \<Rightarrow> applyFilter es p), an_index = indexFor su (request_query r),
              an_mode = readMode r, an_age = 0\<rparr>
     in (writeJSON (an_index a) (an_mode a) (an_age a) (f a), su))"
  using assms by (auto simp: read_entries_def render_def NewStoreRegistry_def StoreRegistry_Resolve_def Let_def split: prod.splits)

definition chosen :: "filterExpr option \<Rightarrow> ServiceEntry \<Rightarrow> bool" where
  "chosen fo e = (case fo of None \<Rightarrow> True | Some p \<Rightarrow> p (viewOf e))"

lemma filter_chosen: "(case fo of None \<Rightarrow> es | Some p \<Rightarrow> applyFilter es p) = filter (chosen fo) es"
  by (cases fo) (simp_all add: chosen_def [abs_def] applyFilter_def)

lemma Filter_passing: "Filter es passing_only = filter (\<lambda>e. e_Health e \<in> {HealthPassing, HealthWarning} \<and> \<not> e_Maintenance e) es"
  unfolding Filter_def by (rule filter_cong) (auto simp: Visible_def split: HealthState.splits)

lemma passing_checks: "e_Health e = HealthPassing \<Longrightarrow> \<not> e_Maintenance e \<Longrightarrow> c \<in> set (he_Checks (toHealth e)) \<Longrightarrow> hc_Status c = ''passing''"
  by (auto simp: toHealth_def synthChecks_def healthStatus_def Let_def)

lemma index_positive: "1 \<le> (if w < 1 then 1 else w)" for w :: uint64
proof (cases "w < 1")
  case False
  show ?thesis unfolding if_not_P [OF False] using False by (rule leI)
qed (simp only: if_True order_refl)

lemma answer_health: "e_Health (answer m now meta svc) = HealthPassing \<or> e_Health (answer m now meta svc) = HealthCritical"
  by (auto simp: answer_def entry_def lease_def Let_def)

text \<open>
  C24 (refinement). A health read of a seed, \<^verbatim>\<open>/v1/health/service/:name\<close>, that does not block answers
  the rendering of the registry's live instances of the service that the query's tags, datacenter and
  \<^verbatim>\<open>filter\<close> expression choose, each once and in the order of their ids, and changes nothing; the index
  header is never 0; with \<^verbatim>\<open>?passing\<close> exactly the instances that are passing and not in
  maintenance are listed and every check rendered for them has the status \<^verbatim>\<open>passing\<close>.
\<close>

theorem consul_health_read:
  "registry_ok (su_reg su) \<Longrightarrow> fst (blockParams r) = 0 \<or> su_watcher su = None \<Longrightarrow> compileFilter r = Inr fo \<Longrightarrow>
   \<exists>es idx contact. handle_healthService (NewStoreRegistry now evclk order node) h during r su = (Json idx contact (PHealth (map toHealth es)), su) \<and>
     1 \<le> idx \<and> sorted_entries es \<and>
     set es = {answer (su_reg su) now meta svc | nid sid meta svc.
        meta_at (su_reg su) nid = Some meta \<and> svc_at (su_reg su) nid sid = Some svc \<and> asked (request_query r) meta svc \<and> live (su_reg su) now svc \<and>
        chosen fo (answer (su_reg su) now meta svc) \<and>
        (query_Has r ''passing'' \<longrightarrow> e_Health (answer (su_reg su) now meta svc) = HealthPassing \<and> \<not> sv_maintenance svc)} \<and>
     (query_Has r ''passing'' \<longrightarrow> (\<forall>e\<in>set es. \<forall>c\<in>set (he_Checks (toHealth e)). hc_Status c = ''passing''))"
  (is "?ok \<Longrightarrow> ?quiet \<Longrightarrow> ?compiled \<Longrightarrow> ?goal")
proof -
  assume ok: ?ok and quiet: ?quiet and f: ?compiled
  let ?m = "su_reg su"
  define all_es where "all_es = filter (chosen fo) (lr_Entries (Memory_Lookup now (request_query r) ?m))"
  define es where "es = (if query_Has r ''passing'' then Filter all_es passing_only else all_es)"
  have run: "handle_healthService (NewStoreRegistry now evclk order node) h during r su =
      (writeJSON (indexFor su (request_query r)) (readMode r) 0 (PHealth (map toHealth es)), su)"
    by (simp add: handle_healthService_def render_read [OF quiet f] Let_def filter_chosen all_es_def es_def)
  have "1 \<le> (if indexFor su (request_query r) < 1 then 1 else indexFor su (request_query r))" by (rule index_positive)
  moreover have "sorted_entries es"
    using ok by (auto simp: es_def all_es_def Filter_passing sorted_entries_def registry_ok_def sorted_Lookup
        intro!: sorted_entries_filter [unfolded sorted_entries_def])
  moreover have maint: "e_Maintenance (answer ?m now meta svc) = sv_maintenance svc" for meta svc by (simp add: answer_def entry_def)
  have warn: "e_Health (answer ?m now meta svc) \<noteq> HealthWarning" for meta svc using answer_health [of ?m now meta svc] by auto
  have set_es: "set es = {answer ?m now meta svc | nid sid meta svc.
        meta_at ?m nid = Some meta \<and> svc_at ?m nid sid = Some svc \<and> asked (request_query r) meta svc \<and> live ?m now svc \<and>
        chosen fo (answer ?m now meta svc) \<and>
        (query_Has r ''passing'' \<longrightarrow> e_Health (answer ?m now meta svc) = HealthPassing \<and> \<not> sv_maintenance svc)}"
    using ok set_Lookup [of ?m now "request_query r"]
    by (auto simp: es_def all_es_def Filter_passing registry_ok_def maint warn) blast+
  moreover have "hc_Status c = ''passing''" if "query_Has r ''passing''" "e \<in> set es" "c \<in> set (he_Checks (toHealth e))" for e c
    using that set_es passing_checks [of e c] by (auto simp: maint)
  ultimately show ?goal unfolding run writeJSON_def by blast
qed

definition ex_health_request :: HttpRequest where
  "ex_health_request = (ex_request [] [] (fmupd ''passing'' [[]] (fmupd ''filter'' [''Checks.Status == passing''] fmempty)))
     \<lparr>hq_path := fmupd ''service'' ''web'' fmempty\<rparr>"

theorem consul_health_read_witness:
  "\<exists>es. fst (handle_healthService ex_seed_surface ex_handler id ex_health_request (ex_surface ex_mem)) = Json 1 ''0'' (PHealth (map toHealth es)) \<and>
     map entry_id es = [(''n1'', ''s1'')] \<and> (\<forall>e\<in>set es. \<forall>c\<in>set (he_Checks (toHealth e)). hc_Status c = ''passing'')"
proof -
  let ?su = "ex_surface ex_mem"
  have ok: "registry_ok (su_reg ?su)" using registry_ok_reach [OF ex_reach] by (simp add: ex_surface_def)
  have quiet: "fst (blockParams ex_health_request) = 0 \<or> su_watcher ?su = None" by (simp add: ex_surface_def)
  have "\<not> isl (compileFilter ex_health_request)" by code_simp
  then have f: "compileFilter ex_health_request = Inr (projr (compileFilter ex_health_request))" by (cases "compileFilter ex_health_request") simp_all
  have has: "query_Has ex_health_request ''passing''" by code_simp
  have run: "map_option (map (\<lambda>e. (cn_ID (he_Node e), hs_ID (he_Service e))))
      (case fst (handle_healthService ex_seed_surface ex_handler id ex_health_request ?su) of
         Json i c (PHealth xs) \<Rightarrow> if i = 1 \<and> c = ''0'' then Some xs else None | _ \<Rightarrow> None) = Some [(''n1'', ''s1'')]"
    by code_simp
  obtain es idx contact where es: "handle_healthService ex_seed_surface ex_handler id ex_health_request ?su = (Json idx contact (PHealth (map toHealth es)), ?su)"
      "\<forall>e\<in>set es. \<forall>c\<in>set (he_Checks (toHealth e)). hc_Status c = ''passing''"
    using consul_health_read [OF ok quiet f, of 200 "\<lambda>_. 200" "[''s1'', ''s2'']" "ex_node ''n1''" ex_handler id] has
    unfolding ex_seed_surface_def by blast
  have "map entry_id es = map (\<lambda>e. (cn_ID (he_Node e), hs_ID (he_Service e))) (map toHealth es)"
    by (simp add: toHealth_def toNode_def)
  then show ?thesis using es run by (intro exI [of _ es]) (auto split: if_splits)
qed

text \<open>The catalog lists: one entry per service name with its tags, one per node.\<close>

lemma service_tags_fold:
  assumes "\<forall>name ts. fmlookup out name = Some ts \<longrightarrow> sorted ts \<and> distinct ts"
  shows "fmlookup (fold (\<lambda>e out. fmupd (s_Name (e_Service e))
         (mergeTags (case fmlookup out (s_Name (e_Service e)) of None \<Rightarrow> [] | Some ts \<Rightarrow> ts) (s_Tags (e_Service e))) out) es out) name =
    (if fmlookup out name = None \<and> name \<notin> (s_Name \<circ> e_Service) ` set es then None
     else Some (sorted_list_of_set (set (case fmlookup out name of None \<Rightarrow> [] | Some ts \<Rightarrow> ts) \<union>
       \<Union> {set (s_Tags (e_Service e)) | e. e \<in> set es \<and> s_Name (e_Service e) = name})))"
  using assms
proof (induction es arbitrary: out)
  case Nil
  then show ?case
    by (cases "fmlookup out name") (auto intro!: sorted_distinct_set_unique)
next
  case (Cons e es)
  let ?n = "s_Name (e_Service e)" and ?old = "case fmlookup out (s_Name (e_Service e)) of None \<Rightarrow> [] | Some ts \<Rightarrow> ts"
  let ?ts = "mergeTags ?old (s_Tags (e_Service e))"
  have old: "distinct ?old" using Cons.prems by (auto split: option.splits)
  note ts = mergeTags_spec [OF old, of "s_Tags (e_Service e)"]
  have inv: "\<forall>name ts. fmlookup (fmupd ?n ?ts out) name = Some ts \<longrightarrow> sorted ts \<and> distinct ts" using Cons.prems ts by auto
  have un: "\<Union> {set (s_Tags (e_Service x)) | x. x \<in> set (e # es) \<and> s_Name (e_Service x) = name} =
      (if ?n = name then set (s_Tags (e_Service e)) else {}) \<union> \<Union> {set (s_Tags (e_Service x)) | x. x \<in> set es \<and> s_Name (e_Service x) = name}"
    by auto
  show ?case unfolding un using Cons.IH [OF inv] ts by (auto simp: Un_assoc)
qed

lemma service_tags_spec:
  "fmlookup (service_tags es) name =
    (if name \<notin> (s_Name \<circ> e_Service) ` set es then None
     else Some (sorted_list_of_set (\<Union> {set (s_Tags (e_Service e)) | e. e \<in> set es \<and> s_Name (e_Service e) = name})))"
  unfolding service_tags_def by (subst service_tags_fold) auto

text \<open>
  C32 (functional). The catalog of a seed: \<^verbatim>\<open>/v1/catalog/services\<close> maps exactly the names of the live
  instances chosen by the query, each to the union of its instances' tags, sorted and without
  repetition; \<^verbatim>\<open>/v1/catalog/nodes\<close> lists exactly the nodes of those instances, each once.
\<close>

theorem catalog_lists:
  "names_ok (su_reg su) \<Longrightarrow> fst (blockParams r) = 0 \<or> su_watcher su = None \<Longrightarrow> compileFilter r = Inr fo \<Longrightarrow>
   \<exists>es. set es = {answer (su_reg su) now meta svc | nid sid meta svc.
        meta_at (su_reg su) nid = Some meta \<and> svc_at (su_reg su) nid sid = Some svc \<and> asked (request_query r) meta svc \<and> live (su_reg su) now svc \<and>
        chosen fo (answer (su_reg su) now meta svc)} \<and>
     (\<exists>idx contact tags. handle_catalogServices (NewStoreRegistry now evclk order node) h during r su = (Json idx contact (PServices tags), su) \<and>
        (\<forall>name. fmlookup tags name = (if \<exists>e\<in>set es. s_Name (e_Service e) = name
           then Some (sorted_list_of_set {t. \<exists>e\<in>set es. s_Name (e_Service e) = name \<and> t \<in> set (s_Tags (e_Service e))}) else None))) \<and>
     (\<exists>idx contact ns. handle_catalogNodes (NewStoreRegistry now evclk order node) h during r su = (Json idx contact (PNodes ns), su) \<and>
        distinct (map cn_ID ns) \<and> cn_ID ` set ns = {n_ID (e_Node e) | e. e \<in> set es})"
proof -
  assume ok: "names_ok (su_reg su)" and quiet: "fst (blockParams r) = 0 \<or> su_watcher su = None" and f: "compileFilter r = Inr fo"
  define es where "es = filter (chosen fo) (lr_Entries (Memory_Lookup now (request_query r) (su_reg su)))"
  have "set es = {answer (su_reg su) now meta svc | nid sid meta svc.
        meta_at (su_reg su) nid = Some meta \<and> svc_at (su_reg su) nid sid = Some svc \<and> asked (request_query r) meta svc \<and> live (su_reg su) now svc \<and>
        chosen fo (answer (su_reg su) now meta svc)}"
    using set_Lookup [OF ok, of now "request_query r"] by (auto simp: es_def)
  moreover have "\<forall>name. fmlookup (service_tags es) name = (if \<exists>e\<in>set es. s_Name (e_Service e) = name
      then Some (sorted_list_of_set {t. \<exists>e\<in>set es. s_Name (e_Service e) = name \<and> t \<in> set (s_Tags (e_Service e))}) else None)"
    by (auto simp: service_tags_spec intro!: arg_cong [where f = sorted_list_of_set])
  moreover have "cn_ID ` set (nodes_loop es {}) = {n_ID (e_Node e) | e. e \<in> set es}" by (auto simp: nodes_loop_set)
  moreover have "\<exists>idx contact. handle_catalogServices (NewStoreRegistry now evclk order node) h during r su = (Json idx contact (PServices (service_tags es)), su)"
    "\<exists>idx contact. handle_catalogNodes (NewStoreRegistry now evclk order node) h during r su = (Json idx contact (PNodes (nodes_loop es {})), su)"
    by (simp_all add: handle_catalogServices_def handle_catalogNodes_def render_read [OF quiet f] Let_def filter_chosen writeJSON_def es_def)
  ultimately show ?thesis using nodes_loop_distinct [of es "{}"] by blast
qed

theorem catalog_lists_witness:
  "\<exists>idx contact ns. handle_catalogNodes ex_seed_surface ex_handler id (ex_request [] [] fmempty) (ex_surface ex_mem)
     = (Json idx contact (PNodes ns), ex_surface ex_mem) \<and> distinct (map cn_ID ns)"
proof -
  have ok: "names_ok (su_reg (ex_surface ex_mem))" using registry_ok_reach [OF ex_reach] by (simp add: ex_surface_def registry_ok_def)
  have quiet: "fst (blockParams (ex_request [] [] fmempty)) = 0 \<or> su_watcher (ex_surface ex_mem) = None" by (simp add: ex_surface_def)
  have f: "compileFilter (ex_request [] [] fmempty) = Inr None" by (simp add: compileFilter_def query_Get_def ex_request_def TrimSpace_def)
  show ?thesis unfolding ex_seed_surface_def
    by (rule exE [OF catalog_lists [OF ok quiet f, of 200 "\<lambda>_. 200" "[''s1'', ''s2'']" "ex_node ''n1''" ex_handler id]])
      (elim conjE exE, intro exI conjI, assumption+)
qed

section \<open>Bounds\<close>



end
