(* ===== verification/ConsulDns.thy ===== *)
theory ConsulDns
  imports ConsulHttp
begin

text \<open>
  \<^verbatim>\<open>internal/consuldns\<close>: the parser of query names and the handler that answers them over the read path of
  a registry. What the DNS library does with a message, the shuffle of the instances and the order in
  which a map is ranged over are parameters.
\<close>

section \<open>Query names\<close>

datatype queryKind = kindUnknown | kindService | kindNode

record parsedQuery =
  pq_kind :: queryKind
  pq_service :: string
  pq_tag :: string
  pq_node :: string
  pq_datacenter :: string

definition unknown_query :: parsedQuery where
  "unknown_query = \<lparr>pq_kind = kindUnknown, pq_service = [], pq_tag = [], pq_node = [], pq_datacenter = []\<rparr>"

definition meshLabels :: "string list" where
  "meshLabels = [''connect'', ''virtual'', ''ingress'', ''ns'', ''ap'', ''peer'', ''query'', ''addr'']"

definition dcFromRest :: "string list \<Rightarrow> string" where
  "dcFromRest rest =
     (if length rest = 2 \<and> rest ! 1 = ''dc'' then rest ! 0
      else if length rest = 1 then rest ! 0
      else [])"

definition parseServicePrefix :: "string list \<Rightarrow> string \<Rightarrow> parsedQuery" where
  "parseServicePrefix before dc =
     (case before of
        [s] \<Rightarrow> unknown_query\<lparr>pq_kind := kindService, pq_service := s, pq_datacenter := dc\<rparr>
      | [t, s] \<Rightarrow> unknown_query\<lparr>pq_kind := kindService, pq_tag := t, pq_service := s, pq_datacenter := dc\<rparr>
      | _ \<Rightarrow> unknown_query)"

fun parse_labels :: "string list \<Rightarrow> string list \<Rightarrow> parsedQuery" where
  "parse_labels before [] = unknown_query"
| "parse_labels before (l # ls) =
     (if l = ''service'' then parseServicePrefix before (dcFromRest ls)
      else if l = ''node''
      then (if length before = 0 then unknown_query
            else unknown_query\<lparr>pq_kind := kindNode, pq_node := Join ''.'' before, pq_datacenter := dcFromRest ls\<rparr>)
      else if l \<in> set meshLabels then unknown_query
      else parse_labels (before @ [l]) ls)"

definition parseName :: "string \<Rightarrow> string \<Rightarrow> parsedQuery" where
  "parseName name domain =
     (let name = ToLower (TrimSuffix name ''.''); domain = ToLower (TrimSuffix domain ''.'') in
      if name \<noteq> domain \<and> \<not> HasSuffix name (''.'' @ domain) then unknown_query
      else
        (let prefix = TrimSuffix (TrimSuffix name domain) ''.'' in
         if prefix = [] then unknown_query
         else
           (let labels = Split (CHR ''.'') prefix in
            if length labels \<ge> 2 \<and> HasPrefix (labels ! 0) ''_'' \<and> HasPrefix (labels ! 1) ''_''
            then (let rest = drop 2 labels; rest = (if length rest > 0 \<and> rest ! 0 = ''service'' then drop 1 rest else rest) in
                  unknown_query\<lparr>pq_kind := kindService, pq_service := TrimPrefix (labels ! 0) ''_'',
                    pq_tag := TrimPrefix (labels ! 1) ''_'', pq_datacenter := dcFromRest rest\<rparr>)
            else parse_labels [] labels)))"

section \<open>Messages\<close>

datatype Rcode = RcodeSuccess | RcodeFormatError | RcodeServerFailure | RcodeNameError | RcodeRefused

datatype Qtype = TypeA | TypeNS | TypeSOA | TypeTXT | TypeAAAA | TypeSRV | TypeANY | TypeOther nat

record Question =
  qn_Name :: string
  qn_Qtype :: Qtype

datatype RR =
    RR_A string uint32 "nat list"
  | RR_AAAA string uint32 ip
  | RR_SRV string uint32 nat uint16 uint16 string
  | RR_SOA string uint32 string string "nat list"
  | RR_NS string uint32 string
  | RR_TXT string uint32 "string list"

record Msg =
  ms_rcode :: Rcode
  ms_authoritative :: bool
  ms_answer :: "RR list"
  ms_ns :: "RR list"
  ms_extra :: "RR list"

record DnsRequest =
  dr_question :: "Question list"
  dr_edns :: "uint16 option"
  dr_remote :: string
  dr_tcp :: bool

text \<open>The operations of the DNS library on messages.\<close>

record Dnslib =
  dl_SetReply :: "DnsRequest \<Rightarrow> Msg"
  dl_SetRcode :: "DnsRequest \<Rightarrow> Rcode \<Rightarrow> Msg"
  dl_Truncate :: "nat \<Rightarrow> Msg \<Rightarrow> Msg"

definition MaxMsgSize :: nat where
  "MaxMsgSize = 65535"

definition MinMsgSize :: nat where
  "MinMsgSize = 512"

section \<open>The handler\<close>

record DnsConfig =
  dn_Domain :: string
  dn_AltDomain :: string
  dn_Datacenter :: string
  dn_ServiceTTL :: uint32
  dn_NodeTTL :: uint32
  dn_ARecordLimit :: int
  dn_Truncate :: bool
  dn_RateLimit :: int

definition Dns_NewHandler :: "DnsConfig \<Rightarrow> DnsConfig" where
  "Dns_NewHandler cfg =
     (let cfg = (if \<not> HasSuffix (dn_Domain cfg) ''.'' then cfg\<lparr>dn_Domain := dn_Domain cfg @ ''.''\<rparr> else cfg) in
      if dn_AltDomain cfg \<noteq> [] \<and> \<not> HasSuffix (dn_AltDomain cfg) ''.'' then cfg\<lparr>dn_AltDomain := dn_AltDomain cfg @ ''.''\<rparr> else cfg)"

fun domain_loop :: "string \<Rightarrow> string list \<Rightarrow> string option" where
  "domain_loop n [] = None"
| "domain_loop n (d # ds) =
     (if d = [] then domain_loop n ds
      else let base = ToLower (TrimSuffix d ''.'') in
        if n = base \<or> HasSuffix n (''.'' @ base) then Some d else domain_loop n ds)"

definition domainFor :: "DnsConfig \<Rightarrow> string \<Rightarrow> string option" where
  "domainFor cfg name = domain_loop (ToLower (TrimSuffix name ''.'')) [dn_Domain cfg, dn_AltDomain cfg]"

definition soa :: "string \<Rightarrow> RR" where
  "soa zone = RR_SOA zone 0 (''ns.'' @ zone) (''hostmaster.'' @ zone) [1, 3600, 600, 86400, 0]"

definition ns_record :: "string \<Rightarrow> string \<Rightarrow> RR" where
  "ns_record name zone = RR_NS name 0 (''ns.'' @ zone)"

definition nxdomain :: "string \<Rightarrow> Msg \<Rightarrow> Msg" where
  "nxdomain zone resp = resp\<lparr>ms_rcode := RcodeNameError, ms_ns := ms_ns resp @ [soa zone]\<rparr>"

definition effectiveDC :: "DnsConfig \<Rightarrow> string \<Rightarrow> string" where
  "effectiveDC cfg dc = (if dc = [] \<or> dc = ''dc1'' then dn_Datacenter cfg else dc)"

definition tagsOf :: "parsedQuery \<Rightarrow> string list" where
  "tagsOf pq = (if pq_tag pq \<noteq> [] then [pq_tag pq] else [])"

definition filterNode :: "ServiceEntry list \<Rightarrow> string \<Rightarrow> ServiceEntry list" where
  "filterNode entries nodeName = filter (\<lambda>e. EqualFold (n_Name (e_Node e)) nodeName \<or> EqualFold (n_ID (e_Node e)) nodeName) entries"

definition weight16 :: "uint32 \<Rightarrow> uint16" where
  "weight16 w = (if w > 0xffff then 0xffff else ucast w)"

definition hexIP :: "ip \<Rightarrow> string" where
  "hexIP a = (case To4 a of Some v4 \<Rightarrow> EncodeToString v4 | None \<Rightarrow> EncodeToString a)"

definition metaTXT :: "string list \<Rightarrow> string \<Rightarrow> smap \<Rightarrow> uint32 \<Rightarrow> RR list" where
  "metaTXT order name meta ttl =
     map (\<lambda>k. RR_TXT name ttl [k @ ''='' @ (case fmlookup meta k of Some v \<Rightarrow> v | None \<Rightarrow> [])]) order"

definition addressRR :: "string \<Rightarrow> ip option \<Rightarrow> uint32 \<Rightarrow> RR option" where
  "addressRR name a ttl =
     (case a of
        None \<Rightarrow> None
      | Some a \<Rightarrow> (case To4 a of Some v4 \<Rightarrow> Some (RR_A name ttl v4) | None \<Rightarrow> Some (RR_AAAA name ttl a)))"

definition srvTarget :: "ServiceEntry \<Rightarrow> string \<Rightarrow> string \<Rightarrow> string \<times> ip option" where
  "srvTarget e dc zone =
     (let addr = ReachableAddress e in
      case ParseIP addr of
        None \<Rightarrow> (DisplayName (e_Node e) @ ''.node.'' @ dc @ ''.'' @ zone, ParseIP (n_Address (e_Node e)))
      | Some a \<Rightarrow>
          if addr = n_Address (e_Node e)
          then (DisplayName (e_Node e) @ ''.node.'' @ dc @ ''.'' @ zone, ParseIP (n_Address (e_Node e)))
          else (hexIP a @ ''.addr.'' @ dc @ ''.'' @ zone, Some a))"

definition add_answer :: "RR option \<Rightarrow> Msg \<Rightarrow> Msg" where
  "add_answer rr resp = (case rr of None \<Rightarrow> resp | Some rr \<Rightarrow> resp\<lparr>ms_answer := ms_answer resp @ [rr]\<rparr>)"

fun append_loop :: "DnsConfig \<Rightarrow> string \<Rightarrow> bool \<Rightarrow> ServiceEntry list \<Rightarrow> nat \<Rightarrow> Msg \<Rightarrow> Msg" where
  "append_loop cfg name wantV6 [] cnt resp = resp"
| "append_loop cfg name wantV6 (e # es) cnt resp =
     (case ParseIP (ReachableAddress e) of
        None \<Rightarrow> append_loop cfg name wantV6 es cnt resp
      | Some a \<Rightarrow>
          if (To4 a = None) \<noteq> wantV6 then append_loop cfg name wantV6 es cnt resp
          else case addressRR name (Some a) (dn_ServiceTTL cfg) of
            None \<Rightarrow> append_loop cfg name wantV6 es cnt resp
          | Some rr \<Rightarrow>
              (let resp = resp\<lparr>ms_answer := ms_answer resp @ [rr]\<rparr>; cnt = Suc cnt in
               if dn_ARecordLimit cfg > 0 \<and> int cnt \<ge> dn_ARecordLimit cfg then resp
               else append_loop cfg name wantV6 es cnt resp))"

definition appendAddresses :: "DnsConfig \<Rightarrow> Question \<Rightarrow> ServiceEntry list \<Rightarrow> bool \<Rightarrow> Msg \<Rightarrow> Msg" where
  "appendAddresses cfg q entries wantV6 resp = append_loop cfg (qn_Name q) wantV6 entries 0 resp"

definition srv_record :: "DnsConfig \<Rightarrow> string \<Rightarrow> string \<Rightarrow> string \<Rightarrow> ServiceEntry \<Rightarrow> RR" where
  "srv_record cfg name dc zone e =
     RR_SRV name (dn_ServiceTTL cfg) 1 (weight16 (w_Passing (OrDefault (s_Weights (e_Service e))))) (s_Port (e_Service e)) (fst (srvTarget e dc zone))"

fun srv_loop :: "DnsConfig \<Rightarrow> string \<Rightarrow> string \<Rightarrow> string \<Rightarrow> ServiceEntry list \<Rightarrow> Msg \<Rightarrow> Msg" where
  "srv_loop cfg name dc zone [] resp = resp"
| "srv_loop cfg name dc zone (e # es) resp =
     (case srvTarget e dc zone of (target, a) \<Rightarrow>
        let resp = resp\<lparr>ms_answer := ms_answer resp @ [srv_record cfg name dc zone e]\<rparr>;
            resp = (case addressRR target a (dn_ServiceTTL cfg) of None \<Rightarrow> resp | Some rr \<Rightarrow> resp\<lparr>ms_extra := ms_extra resp @ [rr]\<rparr>)
        in srv_loop cfg name dc zone es resp)"

definition with_soa :: "string \<Rightarrow> Msg \<Rightarrow> Msg" where
  "with_soa zone resp = (if length (ms_answer resp) = 0 then resp\<lparr>ms_ns := ms_ns resp @ [soa zone]\<rparr> else resp)"

definition renderService :: "DnsConfig \<Rightarrow> (ServiceEntry list \<Rightarrow> ServiceEntry list) \<Rightarrow> Question \<Rightarrow> ServiceEntry list \<Rightarrow> string \<Rightarrow> string \<Rightarrow> Msg \<Rightarrow> Msg" where
  "renderService cfg shuffle q entries dc zone resp =
     (let entries = shuffle entries in
      with_soa zone
        (case qn_Qtype q of
           TypeSRV \<Rightarrow> srv_loop cfg (qn_Name q) dc zone entries resp
         | TypeAAAA \<Rightarrow> appendAddresses cfg q entries True resp
         | _ \<Rightarrow> appendAddresses cfg q entries False resp))"

definition renderNode :: "DnsConfig \<Rightarrow> (smap \<Rightarrow> string list) \<Rightarrow> Question \<Rightarrow> ServiceEntry \<Rightarrow> string \<Rightarrow> Msg \<Rightarrow> Msg" where
  "renderNode cfg order q e zone resp =
     (let a = ParseIP (n_Address (e_Node e)) in
      with_soa zone
        (case qn_Qtype q of
           TypeTXT \<Rightarrow> resp\<lparr>ms_answer := ms_answer resp @ metaTXT (order (n_Meta (e_Node e))) (qn_Name q) (n_Meta (e_Node e)) (dn_NodeTTL cfg)\<rparr>
         | _ \<Rightarrow> add_answer (addressRR (qn_Name q) a (dn_NodeTTL cfg)) resp))"

text \<open>The answer to a question; \<^const>\<open>None\<close> when the read path panics.\<close>

definition dns_answer :: "DnsConfig \<Rightarrow> (Query \<Rightarrow> Consistency \<Rightarrow> 's \<Rightarrow> resolved \<times> 's) \<Rightarrow> (ServiceEntry list \<Rightarrow> ServiceEntry list) \<Rightarrow> (smap \<Rightarrow> string list)
    \<Rightarrow> Question \<Rightarrow> Msg \<Rightarrow> 's \<Rightarrow> Msg option \<times> 's" where
  "dns_answer cfg resolve shuffle order q resp s =
     (case domainFor cfg (qn_Name q) of
        None \<Rightarrow> (Some (nxdomain (dn_Domain cfg) resp), s)
      | Some zone \<Rightarrow>
          if qn_Qtype q = TypeSOA then (Some (resp\<lparr>ms_answer := ms_answer resp @ [soa zone]\<rparr>), s)
          else if qn_Qtype q = TypeNS then (Some (resp\<lparr>ms_answer := ms_answer resp @ [ns_record (qn_Name q) zone]\<rparr>), s)
          else
            (let pq = parseName (qn_Name q) zone in
             if pq_kind pq = kindUnknown then (Some (nxdomain zone resp), s)
             else
               (let dc = effectiveDC cfg (pq_datacenter pq) in
                case resolve (Query_zero\<lparr>q_Name := pq_service pq, q_Tags := tagsOf pq, q_Datacenter := dc\<rparr>) ConsistencyDefault s of
                  (ResolvePanic, s') \<Rightarrow> (None, s')
                | (ResolveError err, s') \<Rightarrow> (Some (resp\<lparr>ms_rcode := RcodeServerFailure\<rparr>), s')
                | (Resolved all_entries _, s') \<Rightarrow>
                    (let entries = (if pq_kind pq = kindNode then filterNode (lr_Entries all_entries) (pq_node pq) else lr_Entries all_entries) in
                     if length entries = 0 then (Some (nxdomain zone resp), s')
                     else
                       (let healthy = Filter entries passing_only in
                        if length healthy = 0 then (Some (resp\<lparr>ms_ns := ms_ns resp @ [soa zone]\<rparr>), s')
                        else if pq_kind pq = kindNode then (Some (renderNode cfg order q (healthy ! 0) zone resp), s')
                        else (Some (renderService cfg shuffle q healthy dc zone resp), s'))))))"

definition clientIP :: "DnsRequest \<Rightarrow> string" where
  "clientIP r = (case SplitHostPort (dr_remote r) of Some (host, _) \<Rightarrow> host | None \<Rightarrow> dr_remote r)"

definition udpSize :: "DnsRequest \<Rightarrow> nat" where
  "udpSize r = (if dr_tcp r then MaxMsgSize else case dr_edns r of Some n \<Rightarrow> unat n | None \<Rightarrow> MinMsgSize)"

definition ServeDNS :: "DnsConfig \<Rightarrow> Dnslib \<Rightarrow> (Query \<Rightarrow> Consistency \<Rightarrow> 's \<Rightarrow> resolved \<times> 's) \<Rightarrow> (ServiceEntry list \<Rightarrow> ServiceEntry list)
    \<Rightarrow> (smap \<Rightarrow> string list) \<Rightarrow> time \<Rightarrow> DnsRequest \<Rightarrow> Limiter option \<times> 's \<Rightarrow> Msg option \<times> Limiter option \<times> 's" where
  "ServeDNS cfg lib resolve shuffle order now req st =
     (case st of (rrl, s) \<Rightarrow>
      case Limiter_Allow now (clientIP req) rrl of (ok, rrl) \<Rightarrow>
        if \<not> ok then (Some (dl_SetRcode lib req RcodeRefused), rrl, s)
        else
          (let resp = (dl_SetReply lib req)\<lparr>ms_authoritative := True\<rparr>;
               (out, s') = (case dr_question req of
                   [q] \<Rightarrow> dns_answer cfg resolve shuffle order q resp s
                 | _ \<Rightarrow> (Some (resp\<lparr>ms_rcode := RcodeFormatError\<rparr>), s))
           in (map_option (\<lambda>m. if dn_Truncate cfg then dl_Truncate lib (udpSize req) m else m) out, rrl, s')))"

end
