(* ===== verification/Dns.thy ===== *)
theory Dns
  imports Consul ConsulDns
begin

text \<open>
  Properties of the DNS interface: the parser recovers every name of the supported forms, and the
  handler over a seed's registry answers with exactly the records of its healthy instances.
\<close>

section \<open>Names\<close>

lemma lower_char_dot: "lower_char c = CHR ''.'' \<longleftrightarrow> c = CHR ''.''"
proof
  assume l: "lower_char c = CHR ''.''"
  show "c = CHR ''.''"
  proof (rule ccontr)
    assume "c \<noteq> CHR ''.''"
    then have up: "CHR ''A'' \<le> c \<and> c \<le> CHR ''Z''" and eq: "char_of (of_char c + 32 :: nat) = CHR ''.''"
      using l by (auto simp: lower_char_def split: if_splits)
    have "of_char c \<le> (90 :: nat)" using up by (simp add: less_eq_char_def)
    then have "of_char (char_of (of_char c + 32 :: nat)) = (of_char c + 32 :: nat)" by simp
    then have "of_char c + 32 = (of_char CHR ''.'' :: nat)" using eq by metis
    moreover have "(65 :: nat) \<le> of_char c" using up by (simp add: less_eq_char_def)
    ultimately show False by simp
  qed
qed (simp add: lower_char_def less_eq_char_def)

lemma lower_char_idem [simp]: "lower_char (lower_char c) = lower_char c"
proof (cases "CHR ''A'' \<le> c \<and> c \<le> CHR ''Z''")
  case True
  then have "(65 :: nat) \<le> of_char c" "of_char c \<le> (90 :: nat)" by (simp_all add: less_eq_char_def)
  then have "of_char (lower_char c) = (of_char c + 32 :: nat)" using True by (simp add: lower_char_def)
  then have "\<not> lower_char c \<le> CHR ''Z''" using \<open>65 \<le> of_char c\<close> by (simp add: less_eq_char_def)
  then show ?thesis by (subst lower_char_def) simp
next
  case False
  then show ?thesis by (auto simp: lower_char_def)
qed

lemma ToLower_idem [simp]: "ToLower (ToLower s) = ToLower s"
  by (simp add: ToLower_def)

lemma ToLower_TrimSuffix_dot: "ToLower (TrimSuffix s ''.'') = TrimSuffix (ToLower s) ''.''"
proof (cases s rule: rev_cases)
  case (snoc t c)
  then show ?thesis
    by (auto simp: TrimSuffix_def HasSuffix_def ToLower_def lower_char_dot)
qed (simp add: TrimSuffix_def HasSuffix_def ToLower_def)

lemma parseName_fold: "EqualFold n n' \<Longrightarrow> parseName n zone = parseName n' zone"
  by (simp add: parseName_def ToLower_TrimSuffix_dot EqualFold_def)

text \<open>A label that the parser takes for a name: in lower case, not a keyword and not marked with an underscore.\<close>

definition label_ok :: "string \<Rightarrow> bool" where
  "label_ok l \<longleftrightarrow> l \<noteq> [] \<and> CHR ''.'' \<notin> set l \<and> ToLower l = l \<and> hd l \<noteq> CHR ''_'' \<and> l \<notin> {''service'', ''node''} \<and> l \<notin> set meshLabels"

definition fqdn :: "string list \<Rightarrow> string \<Rightarrow> string" where
  "fqdn labels zone = Join ''.'' labels @ ''.'' @ zone"

definition dc_labels :: "string \<Rightarrow> string list \<Rightarrow> bool" where
  "dc_labels dc rest \<longleftrightarrow> dc = [] \<and> rest = [] \<or> label_ok dc \<and> (rest = [dc] \<or> rest = [dc, ''dc''])"

lemma ToLower_Join: "\<forall>l\<in>set ls. ToLower l = l \<Longrightarrow> ToLower (Join ''.'' ls) = Join ''.'' ls"
  by (induction "''.''" ls rule: Join.induct) (auto simp: ToLower_def lower_char_def less_eq_char_def)

lemma Join_not_Nil: "ls \<noteq> [] \<Longrightarrow> \<forall>l\<in>set ls. l \<noteq> [] \<Longrightarrow> Join ''.'' ls \<noteq> []"
  by (induction "''.''" ls rule: Join.induct) auto

lemma parseName_fqdn:
  assumes z: "zone = d @ ''.''" and ne: "ls \<noteq> []" and ls: "\<forall>l\<in>set ls. l \<noteq> [] \<and> CHR ''.'' \<notin> set l \<and> ToLower l = l"
  shows "parseName (fqdn ls zone) zone =
    (if length ls \<ge> 2 \<and> HasPrefix (ls ! 0) ''_'' \<and> HasPrefix (ls ! 1) ''_''
     then (let rest = drop 2 ls; rest = (if length rest > 0 \<and> rest ! 0 = ''service'' then drop 1 rest else rest) in
           unknown_query\<lparr>pq_kind := kindService, pq_service := TrimPrefix (ls ! 0) ''_'',
             pq_tag := TrimPrefix (ls ! 1) ''_'', pq_datacenter := dcFromRest rest\<rparr>)
     else parse_labels [] ls)"
proof -
  let ?J = "Join ''.'' ls"
  have name: "ToLower (TrimSuffix (fqdn ls zone) ''.'') = (?J @ ''.'') @ ToLower d"
    using TrimSuffix_append [of "?J @ ''.'' @ d" "''.''"] ToLower_Join [of ls] ls
    by (simp add: fqdn_def z) (simp add: ToLower_def lower_char_def less_eq_char_def)
  have zone: "ToLower (TrimSuffix zone ''.'') = ToLower d" using TrimSuffix_append [of d "''.''"] by (simp add: z)
  have suf: "HasSuffix ((?J @ ''.'') @ ToLower d) (''.'' @ ToLower d)" using HasSuffix_append [of ?J "''.'' @ ToLower d"] by simp
  have cut: "TrimSuffix (TrimSuffix ((?J @ ''.'') @ ToLower d) (ToLower d)) ''.'' = ?J"
    using TrimSuffix_append [of "?J @ ''.''" "ToLower d"] TrimSuffix_append [of ?J "''.''"] by simp
  have split: "Split (CHR ''.'') ?J = ls" using Split_Join [OF ne] ls by blast
  show ?thesis
    unfolding parseName_def Let_def name zone cut split using suf Join_not_Nil [OF ne] ls by simp
qed

lemma parse_labels_node:
  "\<forall>l\<in>set ls. label_ok l \<Longrightarrow> before @ ls \<noteq> [] \<Longrightarrow>
   parse_labels before (ls @ ''node'' # rest) =
     unknown_query\<lparr>pq_kind := kindNode, pq_node := Join ''.'' (before @ ls), pq_datacenter := dcFromRest rest\<rparr>"
  by (induction ls arbitrary: before) (auto simp: label_ok_def)

lemma dcFromRest_labels: "dc_labels dc rest \<Longrightarrow> dcFromRest rest = dc"
  by (auto simp: dc_labels_def dcFromRest_def)

lemma dc_labels_ok: "dc_labels dc rest \<Longrightarrow> \<forall>l\<in>set rest. l \<noteq> [] \<and> CHR ''.'' \<notin> set l \<and> ToLower l = l"
  by (auto simp: dc_labels_def label_ok_def ToLower_def lower_char_def less_eq_char_def)

lemma keyword_lower: "ToLower ''service'' = ''service''" "ToLower ''node'' = ''node''"
  by (simp_all add: ToLower_def lower_char_def less_eq_char_def)

lemma no_mark: "label_ok l \<Longrightarrow> \<not> HasPrefix l ''_''"
  by (cases l) (auto simp: label_ok_def HasPrefix_def)

lemma parseName_service:
  assumes "zone = d @ ''.''" "label_ok svc" "dc_labels dc rest"
  shows "parseName (fqdn (svc # ''service'' # rest) zone) zone =
      unknown_query\<lparr>pq_kind := kindService, pq_service := svc, pq_datacenter := dc\<rparr>"
    "label_ok tag \<Longrightarrow> parseName (fqdn (tag # svc # ''service'' # rest) zone) zone =
      unknown_query\<lparr>pq_kind := kindService, pq_tag := tag, pq_service := svc, pq_datacenter := dc\<rparr>"
  using assms(2) dc_labels_ok [OF assms(3)] no_mark [OF assms(2)] dcFromRest_labels [OF assms(3)]
  by (auto simp: parseName_fqdn [OF assms(1)] keyword_lower parseServicePrefix_def label_ok_def)

lemma parseName_node:
  assumes "zone = d @ ''.''" "node \<noteq> []" "\<forall>l\<in>set node. label_ok l" "dc_labels dc rest"
  shows "parseName (fqdn (node @ ''node'' # rest) zone) zone =
      unknown_query\<lparr>pq_kind := kindNode, pq_node := Join ''.'' node, pq_datacenter := dc\<rparr>"
proof -
  have ok: "\<forall>l\<in>set (node @ ''node'' # rest). l \<noteq> [] \<and> CHR ''.'' \<notin> set l \<and> ToLower l = l"
    using assms(3) dc_labels_ok [OF assms(4)] by (auto simp: keyword_lower label_ok_def)
  have "\<not> HasPrefix ((node @ ''node'' # rest) ! 0) ''_''" using assms(2,3) no_mark by (cases node) auto
  then show ?thesis
    using assms(2,3) parse_labels_node [of node "[]"] dcFromRest_labels [OF assms(4)] by (simp add: parseName_fqdn [OF assms(1) _ ok])
qed

lemma parseName_rfc2782:
  assumes "zone = d @ ''.''" "label_ok svc" "label_ok tag" "dc_labels dc rest"
  shows "parseName (fqdn ((''_'' @ svc) # (''_'' @ tag) # ''service'' # rest) zone) zone =
      unknown_query\<lparr>pq_kind := kindService, pq_service := svc, pq_tag := tag, pq_datacenter := dc\<rparr>"
    "parseName (fqdn ((''_'' @ svc) # (''_'' @ tag) # rest) zone) zone =
      unknown_query\<lparr>pq_kind := kindService, pq_service := svc, pq_tag := tag, pq_datacenter := dc\<rparr>"
proof -
  have us: "ToLower (CHR ''_'' # l) = CHR ''_'' # ToLower l" for l by (simp add: ToLower_def lower_char_def less_eq_char_def)
  have lab: "''_'' @ l \<noteq> [] \<and> CHR ''.'' \<notin> set (''_'' @ l) \<and> ToLower (''_'' @ l) = ''_'' @ l" if "label_ok l" for l
    using that us by (auto simp: label_ok_def)
  have "rest = [] \<or> rest ! 0 \<noteq> ''service''" using assms(4) by (auto simp: dc_labels_def label_ok_def)
  then show "parseName (fqdn ((''_'' @ svc) # (''_'' @ tag) # ''service'' # rest) zone) zone =
      unknown_query\<lparr>pq_kind := kindService, pq_service := svc, pq_tag := tag, pq_datacenter := dc\<rparr>"
    "parseName (fqdn ((''_'' @ svc) # (''_'' @ tag) # rest) zone) zone =
      unknown_query\<lparr>pq_kind := kindService, pq_service := svc, pq_tag := tag, pq_datacenter := dc\<rparr>"
    using lab [OF assms(2)] lab [OF assms(3)] dc_labels_ok [OF assms(4)] dcFromRest_labels [OF assms(4)]
      TrimPrefix_append [of "''_''" svc] TrimPrefix_append [of "''_''" tag]
    by (auto simp: parseName_fqdn [OF assms(1)] keyword_lower HasPrefix_def Let_def)
qed



text \<open>The names of the synthetic targets are not served: \<^verbatim>\<open>addr\<close> is a label the parser refuses.\<close>

lemma addr_target_refused: "parseName ''0a000005.addr.dc1.consul.'' ''consul.'' = unknown_query"
  by code_simp

text \<open>The parser lower-cases names, so a service whose name has capitals is not found by any query.\<close>

lemma Split_subset: "p \<in> set (Split c s) \<Longrightarrow> set p \<subseteq> set s"
  by (induction s arbitrary: p) (auto split: list.splits if_splits, blast)

lemma parse_labels_service: "pq_service (parse_labels before ls) \<in> insert [] (set (before @ ls))"
proof (induction ls arbitrary: before)
  case (Cons l ls)
  have "pq_service (parseServicePrefix before dc) \<in> insert [] (set before)" for dc
    by (auto simp: parseServicePrefix_def unknown_query_def split: list.splits)
  then show ?case using Cons.IH [of "before @ [l]"] by (auto simp: unknown_query_def)
qed (simp add: unknown_query_def)

lemma set_Trim: "set (TrimSuffix s t) \<subseteq> set s" "set (TrimPrefix s t) \<subseteq> set s"
  using set_take_subset [of "length s - length t" s] set_drop_subset [of "length t" s] by (auto simp: TrimSuffix_def TrimPrefix_def)

lemma parseName_lower: "ToLower (pq_service (parseName name zone)) = pq_service (parseName name zone)"
proof -
  define n z where "n = ToLower (TrimSuffix name ''.'')" and "z = ToLower (TrimSuffix zone ''.'')"
  define labels where "labels = Split (CHR ''.'') (TrimSuffix (TrimSuffix n z) ''.'')"
  have lab: "set l \<subseteq> set n" if "l \<in> set labels" for l
    using Split_subset [of l "CHR ''.''" "TrimSuffix (TrimSuffix n z) ''.''"] that set_Trim(1) [of "TrimSuffix n z" "''.''"] set_Trim(1) [of n z]
    unfolding labels_def by blast
  have "labels ! 0 \<in> set labels" unfolding labels_def by simp
  then have rfc: "set (TrimPrefix (labels ! 0) ''_'') \<subseteq> set n" using lab set_Trim(2) by blast
  have loop: "set (pq_service (parse_labels [] labels)) \<subseteq> set n" using parse_labels_service [of "[]" labels] lab by auto
  have "pq_service (parseName name zone) \<in> {[], TrimPrefix (labels ! 0) ''_'', pq_service (parse_labels [] labels)}"
    unfolding parseName_def Let_def n_def [symmetric] z_def [symmetric] labels_def [symmetric] by (simp add: unknown_query_def)
  then have "set (pq_service (parseName name zone)) \<subseteq> set n" using rfc loop by auto
  then have "lower_char c = c" if "c \<in> set (pq_service (parseName name zone))" for c using that by (auto simp: n_def ToLower_def)
  then show ?thesis by (simp add: ToLower_def map_idI)
qed

lemma capitals_not_found:
  "s_Name (sv_def svc) \<noteq> ToLower (s_Name (sv_def svc)) \<Longrightarrow> pq_kind (parseName name zone) = kindService \<Longrightarrow> pq_service (parseName name zone) \<noteq> [] \<Longrightarrow>
   \<not> asked (Query_zero\<lparr>q_Name := pq_service (parseName name zone), q_Tags := tags, q_Datacenter := dc\<rparr>) meta svc"
  using parseName_lower [of name zone] by (auto simp: asked_def Query_zero_def)

section \<open>Answers\<close>

definition family :: "bool \<Rightarrow> ServiceEntry \<Rightarrow> bool" where
  "family wantV6 e = (case ParseIP (ReachableAddress e) of None \<Rightarrow> False | Some a \<Rightarrow> (To4 a = None) = wantV6)"

definition address_record :: "DnsConfig \<Rightarrow> string \<Rightarrow> ServiceEntry \<Rightarrow> RR" where
  "address_record cfg name e = the (addressRR name (ParseIP (ReachableAddress e)) (dn_ServiceTTL cfg))"

lemma append_loop_eq:
  assumes "dn_ARecordLimit cfg \<le> 0 \<or> int cnt < dn_ARecordLimit cfg"
  shows "append_loop cfg name v6 es cnt resp = resp\<lparr>ms_answer := ms_answer resp @
    (let rs = map (address_record cfg name) (filter (family v6) es) in
     if dn_ARecordLimit cfg > 0 then take (nat (dn_ARecordLimit cfg) - cnt) rs else rs)\<rparr>"
  using assms
proof (induction es arbitrary: cnt resp)
  case (Cons e es)
  show ?case
  proof (cases "family v6 e")
    case False
    then show ?thesis using Cons.IH [OF Cons.prems] by (auto simp: family_def Let_def split: option.splits)
  next
    case True
    then obtain a where a: "ParseIP (ReachableAddress e) = Some a" "(To4 a = None) = v6" by (auto simp: family_def split: option.splits)
    obtain rr where rr: "addressRR name (Some a) (dn_ServiceTTL cfg) = Some rr" by (cases "To4 a") (auto simp: addressRR_def)
    have rec: "address_record cfg name e = rr" by (simp add: address_record_def a(1) rr)
    let ?resp = "resp\<lparr>ms_answer := ms_answer resp @ [rr]\<rparr>"
    show ?thesis
    proof (cases "dn_ARecordLimit cfg > 0 \<and> int (Suc cnt) \<ge> dn_ARecordLimit cfg")
      case True
      then have "nat (dn_ARecordLimit cfg) - cnt = Suc 0" using Cons.prems by auto
      then show ?thesis using True a rr rec \<open>family v6 e\<close> by (simp add: Let_def)
    next
      case False
      then have p: "dn_ARecordLimit cfg \<le> 0 \<or> int (Suc cnt) < dn_ARecordLimit cfg" by auto
      have "nat (dn_ARecordLimit cfg) - cnt = Suc (nat (dn_ARecordLimit cfg) - Suc cnt)" if "dn_ARecordLimit cfg > 0" using p that by auto
      then show ?thesis using False a rr rec \<open>family v6 e\<close> Cons.IH [OF p, of ?resp] by (auto simp: Let_def)
    qed
  qed
qed simp

lemma srv_loop_eq:
  "ms_answer (srv_loop cfg name dc zone es resp) = ms_answer resp @ map (srv_record cfg name dc zone) es \<and>
   ms_ns (srv_loop cfg name dc zone es resp) = ms_ns resp \<and> ms_rcode (srv_loop cfg name dc zone es resp) = ms_rcode resp"
  by (induction es arbitrary: resp) (auto simp: Let_def split: prod.splits option.splits)

text \<open>The records a service query is answered with, given the healthy instances.\<close>

definition service_records :: "DnsConfig \<Rightarrow> Question \<Rightarrow> string \<Rightarrow> string \<Rightarrow> ServiceEntry list \<Rightarrow> RR list" where
  "service_records cfg q dc zone es =
     (case qn_Qtype q of
        TypeSRV \<Rightarrow> map (srv_record cfg (qn_Name q) dc zone) es
      | t \<Rightarrow> (let rs = map (address_record cfg (qn_Name q)) (filter (family (t = TypeAAAA)) es) in
             if dn_ARecordLimit cfg > 0 then take (nat (dn_ARecordLimit cfg)) rs else rs))"

lemma renderService_eq:
  "ms_answer (renderService cfg shuffle q es dc zone resp) = ms_answer resp @ service_records cfg q dc zone (shuffle es) \<and>
   ms_rcode (renderService cfg shuffle q es dc zone resp) = ms_rcode resp \<and>
   ms_ns (renderService cfg shuffle q es dc zone resp) =
     ms_ns resp @ (if ms_answer resp @ service_records cfg q dc zone (shuffle es) = [] then [soa zone] else [])"
proof -
  have app: "appendAddresses cfg q es v6 resp = resp\<lparr>ms_answer := ms_answer resp @
      (let rs = map (address_record cfg (qn_Name q)) (filter (family v6) es) in
       if dn_ARecordLimit cfg > 0 then take (nat (dn_ARecordLimit cfg)) rs else rs)\<rparr>" for es v6
    using append_loop_eq [of cfg 0 "qn_Name q" v6 es resp] by (simp add: appendAddresses_def linorder_le_less_linear Let_def)
  show ?thesis
    using srv_loop_eq [of cfg "qn_Name q" dc zone "shuffle es" resp]
    by (cases "qn_Qtype q") (auto simp: renderService_def service_records_def with_soa_def app Let_def split: if_splits)
qed

definition dns_query :: "DnsConfig \<Rightarrow> parsedQuery \<Rightarrow> Query" where
  "dns_query cfg pq = Query_zero\<lparr>q_Name := pq_service pq, q_Tags := tagsOf pq, q_Datacenter := effectiveDC cfg (pq_datacenter pq)\<rparr>"

lemma service_records_set:
  assumes "mset es' = mset es"
  shows "qn_Qtype q = TypeSRV \<Longrightarrow> mset (service_records cfg q dc zone es') = image_mset (srv_record cfg (qn_Name q) dc zone) (mset es)"
    "qn_Qtype q \<noteq> TypeSRV \<Longrightarrow> dn_ARecordLimit cfg \<le> 0 \<Longrightarrow> mset (service_records cfg q dc zone es') =
       image_mset (address_record cfg (qn_Name q)) (filter_mset (family (qn_Qtype q = TypeAAAA)) (mset es))"
    "qn_Qtype q \<noteq> TypeSRV \<Longrightarrow> dn_ARecordLimit cfg > 0 \<Longrightarrow>
       set (service_records cfg q dc zone es') \<subseteq> address_record cfg (qn_Name q) ` {e \<in> set es. family (qn_Qtype q = TypeAAAA) e} \<and>
       length (service_records cfg q dc zone es') = min (nat (dn_ARecordLimit cfg)) (length (filter (family (qn_Qtype q = TypeAAAA)) es))"
proof -
  have fl: "mset (filter P es') = mset (filter P es)" for P using assms by simp
  have len: "length (filter P es') = length (filter P es)" for P using fl mset_eq_length by blast
  have set: "set es' = set es" using assms mset_eq_setD by blast
  show "qn_Qtype q = TypeSRV \<Longrightarrow> mset (service_records cfg q dc zone es') = image_mset (srv_record cfg (qn_Name q) dc zone) (mset es)"
    using assms by (simp add: service_records_def)
  show "qn_Qtype q \<noteq> TypeSRV \<Longrightarrow> dn_ARecordLimit cfg \<le> 0 \<Longrightarrow> mset (service_records cfg q dc zone es') =
       image_mset (address_record cfg (qn_Name q)) (filter_mset (family (qn_Qtype q = TypeAAAA)) (mset es))"
    using fl by (cases "qn_Qtype q") (simp_all add: service_records_def Let_def)
  show "qn_Qtype q \<noteq> TypeSRV \<Longrightarrow> dn_ARecordLimit cfg > 0 \<Longrightarrow>
       set (service_records cfg q dc zone es') \<subseteq> address_record cfg (qn_Name q) ` {e \<in> set es. family (qn_Qtype q = TypeAAAA) e} \<and>
       length (service_records cfg q dc zone es') = min (nat (dn_ARecordLimit cfg)) (length (filter (family (qn_Qtype q = TypeAAAA)) es))"
    using len set by (cases "qn_Qtype q") (auto simp: service_records_def Let_def dest!: in_set_takeD)
qed

definition fresh_reply :: "Msg \<Rightarrow> bool" where
  "fresh_reply resp \<longleftrightarrow> ms_rcode resp = RcodeSuccess \<and> ms_answer resp = [] \<and> ms_ns resp = [] \<and> ms_extra resp = []"

lemma dns_answer_service:
  assumes "domainFor cfg (qn_Name q) = Some zone" "qn_Qtype q \<notin> {TypeSOA, TypeNS}" "pq_kind (parseName (qn_Name q) zone) = kindService"
  shows "dns_answer cfg (StoreRegistry_Resolve now) shuffle order q resp m =
    (let pq = parseName (qn_Name q) zone; es = lr_Entries (Memory_Lookup now (dns_query cfg pq) m); healthy = Filter es passing_only in
     (Some (if es = [] then nxdomain zone resp
            else if healthy = [] then resp\<lparr>ms_ns := ms_ns resp @ [soa zone]\<rparr>
            else renderService cfg shuffle q healthy (effectiveDC cfg (pq_datacenter pq)) zone resp), m))"
  using assms by (simp add: dns_answer_def StoreRegistry_Resolve_def dns_query_def Let_def)

text \<open>
  C29 (refinement). A DNS query for a service, asked of a seed. The name does not exist exactly when
  the registry has no live instance of it in the datacenter and with the tag asked for, healthy or not; else the answer
  is \<^verbatim>\<open>NOERROR\<close>. An SRV query lists one record for each healthy instance; any other lists
  the addresses of the healthy instances that are of the family asked for, each once, all of them or as many
  as the limit allows. The answer is empty exactly when the authority section has the SOA record. The registry is not changed.
\<close>

theorem dns_service:
  "registry_ok m \<Longrightarrow> domainFor cfg (qn_Name q) = Some zone \<Longrightarrow> qn_Qtype q \<notin> {TypeSOA, TypeNS} \<Longrightarrow>
   parseName (qn_Name q) zone = pq \<Longrightarrow> pq_kind pq = kindService \<Longrightarrow> fresh_reply resp \<Longrightarrow> \<forall>xs. mset (shuffle xs) = mset xs \<Longrightarrow>
   \<exists>msg es healthy. dns_answer cfg (StoreRegistry_Resolve now) shuffle order q resp m = (Some msg, m) \<and>
     set es = {answer m now meta svc | nid sid meta svc. meta_at m nid = Some meta \<and> svc_at m nid sid = Some svc \<and>
        asked (dns_query cfg pq) meta svc \<and> live m now svc} \<and>
     distinct (map entry_id es) \<and> healthy = filter (\<lambda>e. e_Health e \<in> {HealthPassing, HealthWarning} \<and> \<not> e_Maintenance e) es \<and>
     ms_rcode msg = (if es = [] then RcodeNameError else RcodeSuccess) \<and>
     ms_ns msg = (if ms_answer msg = [] then [soa zone] else []) \<and>
     (qn_Qtype q = TypeSRV \<longrightarrow> mset (ms_answer msg) =
        image_mset (srv_record cfg (qn_Name q) (effectiveDC cfg (pq_datacenter pq)) zone) (mset healthy)) \<and>
     (qn_Qtype q \<noteq> TypeSRV \<and> dn_ARecordLimit cfg \<le> 0 \<longrightarrow> mset (ms_answer msg) =
        image_mset (address_record cfg (qn_Name q)) (filter_mset (family (qn_Qtype q = TypeAAAA)) (mset healthy))) \<and>
     (qn_Qtype q \<noteq> TypeSRV \<and> dn_ARecordLimit cfg > 0 \<longrightarrow>
        set (ms_answer msg) \<subseteq> address_record cfg (qn_Name q) ` {e \<in> set healthy. family (qn_Qtype q = TypeAAAA) e} \<and>
        length (ms_answer msg) = min (nat (dn_ARecordLimit cfg)) (length (filter (family (qn_Qtype q = TypeAAAA)) healthy)))"
  (is "?ok \<Longrightarrow> ?dom \<Longrightarrow> ?type \<Longrightarrow> ?parse \<Longrightarrow> ?kind \<Longrightarrow> ?fresh \<Longrightarrow> ?perm \<Longrightarrow> ?goal")
proof -
  assume ok: ?ok and zone: ?dom and type: ?type and pq: ?parse and kind: ?kind and fresh: ?fresh and perm: ?perm
  let ?dc = "effectiveDC cfg (pq_datacenter pq)"
  define es where "es = lr_Entries (Memory_Lookup now (dns_query cfg pq) m)"
  define healthy where "healthy = Filter es passing_only"
  define msg where "msg = (if es = [] then nxdomain zone resp else if healthy = [] then resp\<lparr>ms_ns := ms_ns resp @ [soa zone]\<rparr>
      else renderService cfg shuffle q healthy ?dc zone resp)"
  have run: "dns_answer cfg (StoreRegistry_Resolve now) shuffle order q resp m = (Some msg, m)"
    using dns_answer_service [OF zone type] kind by (simp add: pq msg_def es_def healthy_def Let_def)
  have no: "es = [] \<Longrightarrow> healthy = []" by (simp add: healthy_def Filter_passing)
  have recs: "ms_answer msg = (if healthy = [] then [] else service_records cfg q ?dc zone (shuffle healthy))"
    "ms_rcode msg = (if es = [] then RcodeNameError else RcodeSuccess)" "ms_ns msg = (if ms_answer msg = [] then [soa zone] else [])"
    using fresh renderService_eq [of cfg shuffle q healthy ?dc zone resp] no by (auto simp: msg_def nxdomain_def fresh_reply_def)
  have shuffled: "mset (shuffle healthy) = mset healthy" using perm by simp
  have dist: "distinct (map entry_id es)" using ok sorted_Lookup [of m now "dns_query cfg pq"] by (simp add: registry_ok_def es_def strict_sorted_iff)
  have set_es: "set es = {answer m now meta svc | nid sid meta svc. meta_at m nid = Some meta \<and> svc_at m nid sid = Some svc \<and>
        asked (dns_query cfg pq) meta svc \<and> live m now svc}"
    using ok by (simp add: registry_ok_def es_def set_Lookup)
  note out = service_records_set [OF shuffled, of q cfg ?dc zone]
  have "qn_Qtype q = TypeSRV \<longrightarrow> mset (ms_answer msg) = image_mset (srv_record cfg (qn_Name q) ?dc zone) (mset healthy)"
    using out(1) by (simp add: recs(1))
  moreover have "qn_Qtype q \<noteq> TypeSRV \<and> dn_ARecordLimit cfg \<le> 0 \<longrightarrow> mset (ms_answer msg) =
      image_mset (address_record cfg (qn_Name q)) (filter_mset (family (qn_Qtype q = TypeAAAA)) (mset healthy))"
    using out(2) by (simp add: recs(1))
  moreover have "qn_Qtype q \<noteq> TypeSRV \<and> dn_ARecordLimit cfg > 0 \<longrightarrow>
      set (ms_answer msg) \<subseteq> address_record cfg (qn_Name q) ` {e \<in> set healthy. family (qn_Qtype q = TypeAAAA) e} \<and>
      length (ms_answer msg) = min (nat (dn_ARecordLimit cfg)) (length (filter (family (qn_Qtype q = TypeAAAA)) healthy))"
    using out(3) by (simp add: recs(1))
  moreover have "healthy = filter (\<lambda>e. e_Health e \<in> {HealthPassing, HealthWarning} \<and> \<not> e_Maintenance e) es" by (simp add: healthy_def Filter_passing)
  ultimately show ?goal using run recs(2,3) dist set_es by (intro exI [of _ msg] exI [of _ es] exI [of _ healthy] conjI)
qed

definition ex_dns :: DnsConfig where
  "ex_dns = \<lparr>dn_Domain = ''consul.'', dn_AltDomain = [], dn_Datacenter = [], dn_ServiceTTL = 0, dn_NodeTTL = 0, dn_ARecordLimit = 1,
     dn_Truncate = True, dn_RateLimit = 0\<rparr>"

definition ex_reply :: Msg where
  "ex_reply = \<lparr>ms_rcode = RcodeSuccess, ms_authoritative = True, ms_answer = [], ms_ns = [], ms_extra = []\<rparr>"

definition ex_question :: Question where
  "ex_question = \<lparr>qn_Name = ''web.service.consul.'', qn_Qtype = TypeSRV\<rparr>"

theorem dns_service_witness:
  "\<exists>msg. dns_answer ex_dns (StoreRegistry_Resolve 200) rev (\<lambda>_. []) ex_question ex_reply ex_mem = (Some msg, ex_mem) \<and>
     ms_rcode msg = RcodeSuccess \<and> length (ms_answer msg) = 1 \<and> ms_ns msg = []"
proof -
  let ?pq = "parseName ''web.service.consul.'' ''consul.''"
  have ok: "registry_ok ex_mem" using registry_ok_reach [OF ex_reach] .
  have q: "domainFor ex_dns (qn_Name ex_question) = Some ''consul.''" "parseName (qn_Name ex_question) ''consul.'' = ?pq" "pq_kind ?pq = kindService"
    "qn_Qtype ex_question = TypeSRV" by code_simp+
  have type: "qn_Qtype ex_question \<notin> {TypeSOA, TypeNS}" by (simp add: q(4))
  have fresh: "fresh_reply ex_reply" by (simp add: fresh_reply_def ex_reply_def)
  have perm: "\<forall>xs :: ServiceEntry list. mset (rev xs) = mset xs" by simp
  have "map_option (\<lambda>msg. length (ms_answer msg)) (fst (dns_answer ex_dns (StoreRegistry_Resolve 200) rev (\<lambda>_. []) ex_question ex_reply ex_mem)) = Some 1"
    by code_simp
  then show ?thesis
    using dns_service [OF ok q(1) type q(2,3) fresh perm, of 200 "\<lambda>_. []"] q(4) by (auto split: if_splits)
qed



end
