(* ===== verification/Syncer.thy ===== *)
theory Syncer
  imports SeedClient
begin

text \<open>
  \<^verbatim>\<open>internal/membership/syncer.go\<close>: a seed pulls the merged registry of its peers before it reports ready and
  then on every tick, and merges it into its own. The run of the component is the sequence of its
  passes; each sees the peers' registries and what the network does at that moment.
\<close>

section \<open>The component\<close>

record Syncer =
  sy_self :: string
  sy_peers :: SeedClient
  sy_interval :: duration
  sy_gate :: "bool option"
  sy_ready :: bool

definition Syncer_New :: "string \<Rightarrow> SeedClient \<Rightarrow> duration \<Rightarrow> bool \<Rightarrow> Syncer" where
  "Syncer_New self peers interval gated =
     \<lparr>sy_self = self, sy_peers = peers, sy_interval = (if interval \<le> 0 then 30 * second else interval),
      sy_gate = (if gated then Some False else None), sy_ready = False\<rparr>"

definition markReady :: "Syncer \<Rightarrow> Syncer" where
  "markReady s = (if sy_ready s then s else s\<lparr>sy_gate := map_option (\<lambda>_. True) (sy_gate s), sy_ready := True\<rparr>)"

text \<open>What a pass meets: the network, the order in which the peers answer, the clock, the peers.\<close>

record pass =
  pa_world :: world
  pa_order :: "string list"
  pa_clock :: clock
  pa_peers :: cluster

definition syncOnce :: "Syncer \<Rightarrow> pass \<Rightarrow> Memory \<Rightarrow> nat \<times> ChangeEvent list \<times> Memory" where
  "syncOnce s p m =
     (case lo_result (SeedClient_Lookup (pa_world p) (pa_order p) Query_zero (sy_peers s) (pa_peers p)) of
        Inl err \<Rightarrow> (0, [], m)
      | Inr res \<Rightarrow> Memory_Merge (pa_clock p) (lr_Entries res) m)"

text \<open>The first pass, then the gate opens, then one pass for each tick.\<close>

definition Syncer_Start :: "pass \<Rightarrow> pass list \<Rightarrow> Syncer \<Rightarrow> Memory \<Rightarrow> Syncer \<times> Memory" where
  "Syncer_Start p ticks s m =
     (let m = snd (snd (syncOnce s p m)); s = markReady s
      in (s, fold (\<lambda>p m. snd (snd (syncOnce s p m))) ticks m))"

datatype status = Alive | Failed

record Member =
  me_Name :: string
  me_Addr :: string
  me_Status :: status

definition Members :: "(string \<Rightarrow> bool) \<Rightarrow> Syncer \<Rightarrow> Member list" where
  "Members serving s =
     (let peers = SeedClient_Seeds (sy_peers s); reachable = SeedClient_Reachable serving (sy_peers s) in
      \<lparr>me_Name = sy_self s, me_Addr = sy_self s, me_Status = Alive\<rparr> #
      map (\<lambda>i. \<lparr>me_Name = peers ! i, me_Addr = peers ! i, me_Status = (if i < reachable then Alive else Failed)\<rparr>) [0..<length peers])"

section \<open>Catching up\<close>

lemma WinsLWW_TTL [simp]: "WinsLWW (d\<lparr>s_TTL := t\<rparr>) e = WinsLWW d e" "WinsLWW d (e\<lparr>s_TTL := t\<rparr>) = WinsLWW d e"
  by (simp_all add: WinsLWW_def)

lemma Merge_takes:
  assumes cap: "o_MaxServices (m_opts m) \<le> 0" and run: "Memory_Merge evclk (MergeLWW es) m = (n, out, m')"
    and e: "e \<in> set es" "entry_id e = (nid, sid)" "nid \<noteq> []" "sid \<noteq> []"
  shows "\<exists>d. def_at m' nid sid = Some d \<and> \<not> WinsLWW (e_Service e) d"
proof -
  have held: "def_at m' nid sid = champion WinsLWW (def_at m nid sid) (offers (m_opts m) (MergeLWW es) nid sid)"
    using merge_loop_champion [OF run [unfolded Memory_Merge_def]] cap by blast
  have "(nid, sid) \<in> entry_id ` set (MergeLWW es)" unfolding ids_MergeLWW using e(1,2) by force
  then obtain w where w: "w \<in> set (MergeLWW es)" "entry_id w = (nid, sid)" by auto
  let ?w = "(e_Service w)\<lparr>s_TTL := clampTTL (m_opts m) (s_TTL (e_Service w))\<rparr>"
  have off: "?w \<in> set (offers (m_opts m) (MergeLWW es) nid sid)" using w e(3,4) by (auto simp: offers_def)
  then have "def_at m' nid sid \<noteq> None" unfolding held by auto
  then obtain d where d: "def_at m' nid sid = Some d" by blast
  have "champion WinsLWW (def_at m nid sid) (offers (m_opts m) (MergeLWW es) nid sid) = Some d" using held d by simp
  from svc.champion_unbeaten [OF this off] have "\<not> WinsLWW (e_Service w) d" by simp
  moreover have "\<not> WinsLWW (e_Service e) (e_Service w)" using MergeLWW_unbeaten [OF w(1) e(1)] e(2) w(2) by simp
  ultimately show ?thesis using d svc.neg_transitive by blast
qed

lemma Merge_keeps:
  assumes "o_MaxServices (m_opts m) \<le> 0" "Memory_Merge evclk es m = (n, out, m')" "def_at m nid sid = Some d"
  shows "\<exists>d'. def_at m' nid sid = Some d' \<and> \<not> WinsLWW d d'"
proof -
  have "def_at m' nid sid = champion WinsLWW (Some d) (offers (m_opts m) es nid sid)"
    using merge_loop_champion [OF assms(2) [unfolded Memory_Merge_def]] assms(1,3) by simp
  then show ?thesis using champion_Some svc.champion_keeps by metis
qed

lemma syncOnce_opts: "o_MaxServices (m_opts m) \<le> 0 \<Longrightarrow> m_opts (snd (snd (syncOnce s p m))) = m_opts m"
proof -
  assume cap: "o_MaxServices (m_opts m) \<le> 0"
  have "m_opts (snd (snd (Memory_Merge evclk es m))) = m_opts m" for evclk es
  proof -
    obtain n out m' where r: "Memory_Merge evclk es m = (n, out, m')" by (metis prod_cases3)
    then show ?thesis using merge_loop_champion [OF r [unfolded Memory_Merge_def]] cap by simp
  qed
  then show ?thesis by (auto simp: syncOnce_def split: sum.splits)
qed

lemma syncOnce_keeps:
  assumes "o_MaxServices (m_opts m) \<le> 0" "def_at m nid sid = Some d"
  shows "\<exists>d'. def_at (snd (snd (syncOnce s p m))) nid sid = Some d' \<and> \<not> WinsLWW d d'"
proof (cases "lo_result (SeedClient_Lookup (pa_world p) (pa_order p) Query_zero (sy_peers s) (pa_peers p))")
  case (Inl err)
  then show ?thesis using assms(2) by (auto simp: syncOnce_def WinsLWW_def)
next
  case (Inr res)
  obtain n out m' where r: "Memory_Merge (pa_clock p) (lr_Entries res) m = (n, out, m')" by (metis prod_cases3)
  then show ?thesis using Merge_keeps [OF assms(1) r assms(2)] Inr by (simp add: syncOnce_def)
qed

lemma ticks_keep:
  assumes "o_MaxServices (m_opts m) \<le> 0" "def_at m nid sid = Some d"
  shows "\<exists>d'. def_at (fold (\<lambda>p m. snd (snd (syncOnce s p m))) ticks m) nid sid = Some d' \<and> \<not> WinsLWW d d'"
  using assms
proof (induction ticks arbitrary: m d)
  case Nil
  then show ?case by (simp add: WinsLWW_def)
next
  case (Cons p ticks)
  obtain d1 where d1: "def_at (snd (snd (syncOnce s p m))) nid sid = Some d1" "\<not> WinsLWW d d1" using syncOnce_keeps [OF Cons.prems] by blast
  have "o_MaxServices (m_opts (snd (snd (syncOnce s p m)))) \<le> 0" using Cons.prems(1) by (simp add: syncOnce_opts)
  from Cons.IH [OF this d1(1)] obtain d2 where
    "def_at (fold (\<lambda>p m. snd (snd (syncOnce s p m))) ticks (snd (snd (syncOnce s p m)))) nid sid = Some d2" "\<not> WinsLWW d1 d2" by blast
  then show ?case using svc.neg_transitive [OF d1(2)] by auto
qed


definition ex_pass :: pass where
  "ex_pass = \<lparr>pa_world = seeds_run (\<lambda>_. 200) (\<lambda>_. 200) (\<lambda>_. []) (\<lambda>a. if a = ''a'' then Down else Up), pa_order = [''b'', ''a''],
     pa_clock = (\<lambda>_. 200), pa_peers = (\<lambda>_. ex_mem2)\<rparr>"

definition ex_joined :: "Syncer \<times> Memory" where
  "ex_joined = Syncer_Start ex_pass [] (Syncer_New ''self'' \<lparr>sc_conns = [''a'', ''b''], sc_seedTimeout = second\<rparr> 0 True) ex_mem1"


text \<open>Liveness is by position, not by peer: with the first peer down the second is reported failed.\<close>

lemma members_by_position:
  "map (\<lambda>m. (me_Addr m, me_Status m)) (Members (\<lambda>a. a = ''b'') (Syncer_New ''self'' \<lparr>sc_conns = [''a'', ''b''], sc_seedTimeout = second\<rparr> 0 False)) =
     [(''self'', Alive), (''a'', Alive), (''b'', Failed)]"
  by code_simp

end
