(* ===== verification/Config.thy ===== *)
theory Config
  imports GoStrings
begin

text \<open>
  \<^verbatim>\<open>internal/config/config.go\<close>: the configuration of a node, its defaults and its validation. The YAML decoder is
  a library, so \<^verbatim>\<open>Parse\<close> takes what it decoded; the options of a discovery plugin, of
  any YAML type, are kept as text. The errors of the validation are a list in the order of the checks.
\<close>

section \<open>The schema\<close>

type_synonym Role = string

definition RoleAgent :: Role where "RoleAgent = ''agent''"

definition RoleSeed :: Role where "RoleSeed = ''seed''"

definition defaultBind :: string where "defaultBind = ''127.0.0.1''"

record Listener =
  li_Enabled :: bool
  li_Address :: string
  li_Port :: uint16

record Listeners =
  ls_GRPC :: Listener
  ls_ConsulHTTP :: Listener
  ls_DNS :: Listener
  ls_Metrics :: Listener

record Discovery =
  di_Name :: string
  di_UpdateInterval :: duration
  di_Options :: smap

record Cluster =
  cu_Name :: string
  cu_Seeds :: "string list"
  cu_Discovery :: "Discovery option"

record ACLConfig =
  ac_Mode :: string
  ac_DefaultPolicy :: string
  ac_TokensFile :: string

record TLSConfig =
  tl_Enabled :: bool
  tl_CertFile :: string
  tl_KeyFile :: string
  tl_CAFile :: string
  tl_MutualTLS :: bool

record AgentConfig =
  at_SeedTimeout :: duration
  at_WriteQuorum :: int
  at_ReadyMinSeeds :: int
  at_DrainWindow :: duration
  at_CacheMaxAge :: duration

record DNSConfig =
  dz_Domain :: string
  dz_AltDomain :: string
  dz_ServiceTTL :: duration
  dz_NodeTTL :: duration
  dz_OnlyPassing :: bool
  dz_ARecordLimit :: int
  dz_EnableTruncate :: bool
  dz_Recursors :: "string list"
  dz_RateLimit :: int

record MembershipConfig =
  mb_Enabled :: bool
  mb_Peers :: "string list"
  mb_SyncInterval :: duration

record FederationConfig =
  fe_Enabled :: bool
  fe_MaxHops :: int
  fe_Datacenters :: "(string, string list) fmap"

record BootstrapConfig =
  bo_Enabled :: bool
  bo_SigningKey :: string
  bo_SigningKeyFile :: string
  bo_TokenTTL :: duration
  bo_AllowSeedJoin :: bool
  bo_AdvertiseSeeds :: "string list"
  bo_RateLimit :: int

record Configuration =
  cf_Role :: Role
  cf_NodeName :: string
  cf_Datacenter :: string
  cf_DataDir :: string
  cf_ConfigDir :: string
  cf_EnableScriptChecks :: bool
  cf_Cluster :: Cluster
  cf_Listeners :: Listeners
  cf_MaxServices :: int
  cf_ConsulRateLimit :: int
  cf_TTL :: duration
  cf_HeartbeatInterval :: duration
  cf_ShutdownTimeout :: duration
  cf_TLS :: TLSConfig
  cf_ACL :: ACLConfig
  cf_Agent :: AgentConfig
  cf_DNS :: DNSConfig
  cf_Federation :: FederationConfig
  cf_Membership :: MembershipConfig
  cf_Bootstrap :: BootstrapConfig

text \<open>The zero value, which the decoder starts from.\<close>

definition zero_config :: Configuration where
  "zero_config =
     (let l = \<lparr>li_Enabled = False, li_Address = [], li_Port = 0\<rparr> in
      \<lparr>cf_Role = [], cf_NodeName = [], cf_Datacenter = [], cf_DataDir = [], cf_ConfigDir = [], cf_EnableScriptChecks = False,
       cf_Cluster = \<lparr>cu_Name = [], cu_Seeds = [], cu_Discovery = None\<rparr>,
       cf_Listeners = \<lparr>ls_GRPC = l, ls_ConsulHTTP = l, ls_DNS = l, ls_Metrics = l\<rparr>,
       cf_MaxServices = 0, cf_ConsulRateLimit = 0, cf_TTL = 0, cf_HeartbeatInterval = 0, cf_ShutdownTimeout = 0,
       cf_TLS = \<lparr>tl_Enabled = False, tl_CertFile = [], tl_KeyFile = [], tl_CAFile = [], tl_MutualTLS = False\<rparr>,
       cf_ACL = \<lparr>ac_Mode = [], ac_DefaultPolicy = [], ac_TokensFile = []\<rparr>,
       cf_Agent = \<lparr>at_SeedTimeout = 0, at_WriteQuorum = 0, at_ReadyMinSeeds = 0, at_DrainWindow = 0, at_CacheMaxAge = 0\<rparr>,
       cf_DNS = \<lparr>dz_Domain = [], dz_AltDomain = [], dz_ServiceTTL = 0, dz_NodeTTL = 0, dz_OnlyPassing = False, dz_ARecordLimit = 0,
         dz_EnableTruncate = False, dz_Recursors = [], dz_RateLimit = 0\<rparr>,
       cf_Federation = \<lparr>fe_Enabled = False, fe_MaxHops = 0, fe_Datacenters = fmempty\<rparr>,
       cf_Membership = \<lparr>mb_Enabled = False, mb_Peers = [], mb_SyncInterval = 0\<rparr>,
       cf_Bootstrap = \<lparr>bo_Enabled = False, bo_SigningKey = [], bo_SigningKeyFile = [], bo_TokenTTL = 0, bo_AllowSeedJoin = False,
         bo_AdvertiseSeeds = [], bo_RateLimit = 0\<rparr>\<rparr>)"

definition Listener_Addr :: "Listener \<Rightarrow> string" where
  "Listener_Addr l = JoinHostPort (li_Address l) (decimal (unat (li_Port l)))"

section \<open>Defaults\<close>

definition defaultListener :: "uint16 \<Rightarrow> Listener \<Rightarrow> Listener" where
  "defaultListener port l =
     l\<lparr>li_Address := (if li_Address l = [] then defaultBind else li_Address l),
       li_Port := (if li_Port l = 0 then port else li_Port l)\<rparr>"

definition or_default :: "duration \<Rightarrow> duration \<Rightarrow> duration" where
  "or_default v d = (if v = 0 then d else v)"

definition trailing_dot :: "string \<Rightarrow> string" where
  "trailing_dot d = (if HasSuffix d ''.'' then d else d @ ''.'')"

definition applyDefaults :: "Configuration \<Rightarrow> Configuration" where
  "applyDefaults c =
     c\<lparr>cf_Role := (if cf_Role c = [] then RoleAgent else cf_Role c),
       cf_Datacenter := (if cf_Datacenter c = [] then ''dc1'' else cf_Datacenter c),
       cf_TTL := or_default (cf_TTL c) (30 * second),
       cf_HeartbeatInterval := or_default (cf_HeartbeatInterval c) (10 * second),
       cf_ShutdownTimeout := or_default (cf_ShutdownTimeout c) (15 * second),
       cf_Federation := (cf_Federation c)\<lparr>fe_MaxHops := (if fe_MaxHops (cf_Federation c) = 0 then 1 else fe_MaxHops (cf_Federation c))\<rparr>,
       cf_Membership := (cf_Membership c)\<lparr>mb_SyncInterval := or_default (mb_SyncInterval (cf_Membership c)) (30 * second)\<rparr>,
       cf_Listeners := \<lparr>ls_GRPC = (defaultListener 9900 (ls_GRPC (cf_Listeners c)))\<lparr>li_Enabled := True\<rparr>,
         ls_ConsulHTTP = defaultListener 8500 (ls_ConsulHTTP (cf_Listeners c)),
         ls_DNS = defaultListener 8600 (ls_DNS (cf_Listeners c)),
         ls_Metrics = defaultListener 9901 (ls_Metrics (cf_Listeners c))\<rparr>,
       cf_Bootstrap := (cf_Bootstrap c)\<lparr>bo_RateLimit := (if bo_RateLimit (cf_Bootstrap c) = 0 then 10 else bo_RateLimit (cf_Bootstrap c)),
         bo_TokenTTL := or_default (bo_TokenTTL (cf_Bootstrap c)) (30 * second)\<rparr>,
       cf_Cluster := (cf_Cluster c)\<lparr>cu_Discovery := map_option (\<lambda>d. d\<lparr>di_UpdateInterval := or_default (di_UpdateInterval d) (30 * second)\<rparr>)
           (cu_Discovery (cf_Cluster c))\<rparr>,
       cf_ACL := (cf_ACL c)\<lparr>ac_Mode := (if ac_Mode (cf_ACL c) = [] then ''disabled'' else ac_Mode (cf_ACL c))\<rparr>,
       cf_Agent := \<lparr>at_SeedTimeout = or_default (at_SeedTimeout (cf_Agent c)) (3 * second),
         at_WriteQuorum = (if at_WriteQuorum (cf_Agent c) = 0 then 1 else at_WriteQuorum (cf_Agent c)),
         at_ReadyMinSeeds = (if at_ReadyMinSeeds (cf_Agent c) = 0 then 1 else at_ReadyMinSeeds (cf_Agent c)),
         at_DrainWindow = or_default (at_DrainWindow (cf_Agent c)) (5 * second),
         at_CacheMaxAge = or_default (at_CacheMaxAge (cf_Agent c)) (5 * second)\<rparr>,
       cf_DNS := (cf_DNS c)\<lparr>dz_Domain := (if dz_Domain (cf_DNS c) = [] then ''consul.'' else trailing_dot (dz_Domain (cf_DNS c))),
         dz_AltDomain := (if dz_AltDomain (cf_DNS c) = [] then [] else trailing_dot (dz_AltDomain (cf_DNS c))),
         dz_EnableTruncate := True\<rparr>\<rparr>"

section \<open>Validation\<close>

datatype config_error =
    BadRole string | NoClusterName | BadTTL | BadHeartbeat | HeartbeatNotBelowTTL | BadShutdownTimeout
  | NoListenerAddress string | NoListenerPort string
  | BootstrapNotSeed | NoSigningKey | NoAdvertisedSeeds | BadBootstrapRate
  | NoDiscoveryName | NegativeUpdateInterval | NoSeeds
  | NoCertFile | NoKeyFile | NoCAFile | MutualWithoutTLS
  | BadMode string | BadPolicy string | EnforceWithoutIdentity
  | BadSeedTimeout | BadQuorum | BadReadyMinSeeds | NegativeDrainWindow | BadCacheMaxAge

definition blank :: "string \<Rightarrow> bool" where
  "blank s \<longleftrightarrow> TrimSpace s = []"

definition check :: "bool \<Rightarrow> config_error \<Rightarrow> config_error list" where
  "check bad err = (if bad then [err] else [])"

definition validateListener :: "string \<Rightarrow> Listener \<Rightarrow> config_error list" where
  "validateListener path l = check (blank (li_Address l)) (NoListenerAddress path) @ check (li_Port l = 0) (NoListenerPort path)"

definition validateTLS :: "Configuration \<Rightarrow> config_error list" where
  "validateTLS c =
     (let t = cf_TLS c in
      (if tl_Enabled t
       then check (blank (tl_CertFile t)) NoCertFile @ check (blank (tl_KeyFile t)) NoKeyFile @
            check (tl_MutualTLS t \<and> blank (tl_CAFile t)) NoCAFile
       else []) @
      check (tl_MutualTLS t \<and> \<not> tl_Enabled t) MutualWithoutTLS)"

definition validateACL :: "Configuration \<Rightarrow> config_error list" where
  "validateACL c =
     (let a = cf_ACL c in
      check (ac_Mode a \<notin> {[], ''disabled'', ''allow'', ''enforce''}) (BadMode (ac_Mode a)) @
      check (ac_DefaultPolicy a \<notin> {[], ''allow'', ''deny''}) (BadPolicy (ac_DefaultPolicy a)) @
      check (ac_Mode a = ''enforce'' \<and> \<not> tl_MutualTLS (cf_TLS c) \<and> blank (ac_TokensFile a)) EnforceWithoutIdentity)"

definition validateAgent :: "Configuration \<Rightarrow> config_error list" where
  "validateAgent c =
     (let a = cf_Agent c in
      check (at_SeedTimeout a \<le> 0) BadSeedTimeout @ check (at_WriteQuorum a < 1) BadQuorum @
      check (at_ReadyMinSeeds a < 1) BadReadyMinSeeds @ check (at_DrainWindow a < 0) NegativeDrainWindow @
      check (at_CacheMaxAge a \<le> 0) BadCacheMaxAge)"

definition Validate :: "Configuration \<Rightarrow> config_error list" where
  "Validate c =
     check (cf_Role c \<notin> {RoleAgent, RoleSeed}) (BadRole (cf_Role c)) @
     check (blank (cu_Name (cf_Cluster c))) NoClusterName @
     check (cf_TTL c \<le> 0) BadTTL @
     check (cf_HeartbeatInterval c \<le> 0) BadHeartbeat @
     check (cf_TTL c > 0 \<and> cf_HeartbeatInterval c > 0 \<and> cf_HeartbeatInterval c \<ge> cf_TTL c) HeartbeatNotBelowTTL @
     check (cf_ShutdownTimeout c \<le> 0) BadShutdownTimeout @
     validateListener ''listeners.grpc'' (ls_GRPC (cf_Listeners c)) @
     (if li_Enabled (ls_ConsulHTTP (cf_Listeners c)) then validateListener ''listeners.consul_http'' (ls_ConsulHTTP (cf_Listeners c)) else []) @
     (if li_Enabled (ls_DNS (cf_Listeners c)) then validateListener ''listeners.dns'' (ls_DNS (cf_Listeners c)) else []) @
     (if li_Enabled (ls_Metrics (cf_Listeners c)) then validateListener ''listeners.metrics'' (ls_Metrics (cf_Listeners c)) else []) @
     (let b = cf_Bootstrap c in
      if bo_Enabled b
      then check (cf_Role c \<noteq> RoleSeed) BootstrapNotSeed @
           check (blank (bo_SigningKey b) \<and> blank (bo_SigningKeyFile b)) NoSigningKey @
           check (length (bo_AdvertiseSeeds b) = 0 \<and> length (cu_Seeds (cf_Cluster c)) = 0) NoAdvertisedSeeds @
           check (bo_RateLimit b < 0) BadBootstrapRate
      else []) @
     (case cu_Discovery (cf_Cluster c) of
        None \<Rightarrow> []
      | Some d \<Rightarrow> check (blank (di_Name d)) NoDiscoveryName @ check (di_UpdateInterval d < 0) NegativeUpdateInterval) @
     check (cf_Role c = RoleAgent \<and> length (cu_Seeds (cf_Cluster c)) = 0 \<and> cu_Discovery (cf_Cluster c) = None) NoSeeds @
     validateTLS c @ validateACL c @ validateAgent c"

section \<open>Loading\<close>

datatype decoded = DecodeEOF | DecodeError | Decoded Configuration

datatype load_error = ReadError | UnsupportedExtension string | EmptyFile | ParseError | Invalid "config_error list"

definition Parse :: "string \<Rightarrow> decoded \<Rightarrow> load_error + Configuration" where
  "Parse ext data =
     (if ToLower ext \<notin> {[], ''.yaml'', ''.yml'', ''.json''} then Inl (UnsupportedExtension ext)
      else case data of
        DecodeEOF \<Rightarrow> Inl EmptyFile
      | DecodeError \<Rightarrow> Inl ParseError
      | Decoded cfg \<Rightarrow>
          (let cfg = applyDefaults cfg; errs = Validate cfg in
           if errs = [] then Inr cfg else Inl (Invalid errs)))"

text \<open>\<^verbatim>\<open>filepath.Ext\<close>: from the last dot of the last path element.\<close>

definition Ext :: "string \<Rightarrow> string" where
  "Ext path =
     (let base = rev (takeWhile (\<lambda>c. c \<noteq> CHR ''/'') (rev path)) in
      if CHR ''.'' \<in> set base then CHR ''.'' # rev (takeWhile (\<lambda>c. c \<noteq> CHR ''.'') (rev base)) else [])"

definition Load :: "string \<Rightarrow> decoded option \<Rightarrow> load_error + Configuration" where
  "Load path file = (case file of None \<Rightarrow> Inl ReadError | Some data \<Rightarrow> Parse (Ext path) data)"

section \<open>What a loaded configuration satisfies\<close>

definition listener_ok :: "Listener \<Rightarrow> bool" where
  "listener_ok l \<longleftrightarrow> li_Address l \<noteq> [] \<and> li_Port l \<noteq> 0 \<and> (li_Enabled l \<longrightarrow> \<not> blank (li_Address l))"

definition tls_ok :: "TLSConfig \<Rightarrow> bool" where
  "tls_ok t \<longleftrightarrow>
     (tl_Enabled t \<longrightarrow> \<not> blank (tl_CertFile t) \<and> \<not> blank (tl_KeyFile t)) \<and>
     (tl_MutualTLS t \<longrightarrow> tl_Enabled t \<and> \<not> blank (tl_CAFile t))"

definition bootstrap_ok :: "Configuration \<Rightarrow> bool" where
  "bootstrap_ok c \<longleftrightarrow>
     (let b = cf_Bootstrap c in
      bo_TokenTTL b \<noteq> 0 \<and> bo_RateLimit b \<noteq> 0 \<and>
      (bo_Enabled b \<longrightarrow> cf_Role c = RoleSeed \<and> \<not> (blank (bo_SigningKey b) \<and> blank (bo_SigningKeyFile b)) \<and>
         \<not> (bo_AdvertiseSeeds b = [] \<and> cu_Seeds (cf_Cluster c) = []) \<and> bo_RateLimit b > 0))"

definition acl_ok :: "Configuration \<Rightarrow> bool" where
  "acl_ok c \<longleftrightarrow>
     ac_Mode (cf_ACL c) \<in> {''disabled'', ''allow'', ''enforce''} \<and> ac_DefaultPolicy (cf_ACL c) \<in> {[], ''allow'', ''deny''} \<and>
     (ac_Mode (cf_ACL c) = ''enforce'' \<longrightarrow> tl_MutualTLS (cf_TLS c) \<or> \<not> blank (ac_TokensFile (cf_ACL c)))"

definition agent_ok :: "AgentConfig \<Rightarrow> bool" where
  "agent_ok a \<longleftrightarrow>
     at_SeedTimeout a > 0 \<and> at_WriteQuorum a \<ge> 1 \<and> at_ReadyMinSeeds a \<ge> 1 \<and> at_DrainWindow a > 0 \<and> at_CacheMaxAge a > 0"

definition zone_ok :: "string \<Rightarrow> bool" where
  "zone_ok z \<longleftrightarrow> HasSuffix z ''.''"

definition well_typed :: "Configuration \<Rightarrow> bool" where
  "well_typed c \<longleftrightarrow>
     cf_Role c \<in> {RoleAgent, RoleSeed} \<and> \<not> blank (cu_Name (cf_Cluster c)) \<and> cf_Datacenter c \<noteq> [] \<and>
     0 < cf_HeartbeatInterval c \<and> cf_HeartbeatInterval c < cf_TTL c \<and> 0 < cf_ShutdownTimeout c \<and>
     li_Enabled (ls_GRPC (cf_Listeners c)) \<and> listener_ok (ls_GRPC (cf_Listeners c)) \<and> listener_ok (ls_ConsulHTTP (cf_Listeners c)) \<and>
     listener_ok (ls_DNS (cf_Listeners c)) \<and> listener_ok (ls_Metrics (cf_Listeners c)) \<and>
     pred_option (\<lambda>d. \<not> blank (di_Name d) \<and> di_UpdateInterval d > 0) (cu_Discovery (cf_Cluster c)) \<and>
     (cf_Role c = RoleAgent \<longrightarrow> cu_Seeds (cf_Cluster c) \<noteq> [] \<or> cu_Discovery (cf_Cluster c) \<noteq> None) \<and>
     tls_ok (cf_TLS c) \<and> acl_ok c \<and> agent_ok (cf_Agent c) \<and> bootstrap_ok c \<and>
     zone_ok (dz_Domain (cf_DNS c)) \<and> (dz_AltDomain (cf_DNS c) = [] \<or> zone_ok (dz_AltDomain (cf_DNS c))) \<and> dz_EnableTruncate (cf_DNS c) \<and>
     fe_MaxHops (cf_Federation c) \<noteq> 0 \<and> mb_SyncInterval (cf_Membership c) \<noteq> 0"

lemma check_Nil [simp]: "check bad err = [] \<longleftrightarrow> \<not> bad"
  by (simp add: check_def)

lemma zone_ok_dot [simp]: "zone_ok (trailing_dot d)"
  by (simp add: zone_ok_def trailing_dot_def HasSuffix_def)

lemma trailing_dot_ok: "zone_ok d \<Longrightarrow> trailing_dot d = d"
  by (simp add: zone_ok_def trailing_dot_def)

lemma zone_ok_nonempty: "zone_ok z \<Longrightarrow> z \<noteq> []"
  by (auto simp: zone_ok_def HasSuffix_def)

text \<open>What the defaults give whatever was written.\<close>

definition defaulted :: "Configuration \<Rightarrow> bool" where
  "defaulted c \<longleftrightarrow>
     cf_Role c \<noteq> [] \<and> cf_Datacenter c \<noteq> [] \<and> cf_TTL c \<noteq> 0 \<and> cf_HeartbeatInterval c \<noteq> 0 \<and> cf_ShutdownTimeout c \<noteq> 0 \<and>
     li_Enabled (ls_GRPC (cf_Listeners c)) \<and>
     (\<forall>l\<in>{ls_GRPC (cf_Listeners c), ls_ConsulHTTP (cf_Listeners c), ls_DNS (cf_Listeners c), ls_Metrics (cf_Listeners c)}.
        li_Address l \<noteq> [] \<and> li_Port l \<noteq> 0) \<and>
     pred_option (\<lambda>d. di_UpdateInterval d \<noteq> 0) (cu_Discovery (cf_Cluster c)) \<and> ac_Mode (cf_ACL c) \<noteq> [] \<and>
     at_SeedTimeout (cf_Agent c) \<noteq> 0 \<and> at_WriteQuorum (cf_Agent c) \<noteq> 0 \<and> at_ReadyMinSeeds (cf_Agent c) \<noteq> 0 \<and>
     at_DrainWindow (cf_Agent c) \<noteq> 0 \<and> at_CacheMaxAge (cf_Agent c) \<noteq> 0 \<and>
     bo_TokenTTL (cf_Bootstrap c) \<noteq> 0 \<and> bo_RateLimit (cf_Bootstrap c) \<noteq> 0 \<and>
     zone_ok (dz_Domain (cf_DNS c)) \<and> (dz_AltDomain (cf_DNS c) = [] \<or> zone_ok (dz_AltDomain (cf_DNS c))) \<and> dz_EnableTruncate (cf_DNS c) \<and>
     fe_MaxHops (cf_Federation c) \<noteq> 0 \<and> mb_SyncInterval (cf_Membership c) \<noteq> 0"

lemma defaultListener_ok [simp]: "li_Address (defaultListener p l) \<noteq> []" "p \<noteq> 0 \<Longrightarrow> li_Port (defaultListener p l) \<noteq> 0"
  by (simp_all add: defaultListener_def defaultBind_def)

lemma or_default_ok [simp]: "d \<noteq> 0 \<Longrightarrow> or_default v d \<noteq> 0"
  by (simp add: or_default_def)

lemma consul_zone [simp]: "zone_ok ''consul.''"
  by (simp add: zone_ok_def HasSuffix_def)

lemma defaulted_applyDefaults: "defaulted (applyDefaults c)"
  by (simp add: defaulted_def applyDefaults_def RoleAgent_def option.pred_map comp_def option.pred_True)

lemma defaultListener_id: "li_Address l \<noteq> [] \<Longrightarrow> li_Port l \<noteq> 0 \<Longrightarrow> defaultListener p l = l"
  by (simp add: defaultListener_def)

lemma or_default_id: "v \<noteq> 0 \<Longrightarrow> or_default v d = v"
  by (simp add: or_default_def)

lemma discovery_id:
  "pred_option (\<lambda>d. di_UpdateInterval d \<noteq> 0) o' \<Longrightarrow>
   map_option (\<lambda>d. d\<lparr>di_UpdateInterval := or_default (di_UpdateInterval d) (30 * second)\<rparr>) o' = o'"
  by (cases o') (simp_all add: or_default_id)

text \<open>Defaults are applied once: a configuration that has them is left as it is.\<close>

lemma applyDefaults_id: "defaulted c \<Longrightarrow> applyDefaults c = c"
  by (rule Configuration.equality)
    (auto simp: defaulted_def applyDefaults_def defaultListener_id or_default_id trailing_dot_ok zone_ok_nonempty discovery_id [simplified]
      intro!: Listeners.equality Listener.equality AgentConfig.equality DNSConfig.equality Cluster.equality)

lemma validateListener_ok: "li_Address l \<noteq> [] \<Longrightarrow> li_Port l \<noteq> 0 \<Longrightarrow>
    (if li_Enabled l then validateListener path l else []) = [] \<longleftrightarrow> listener_ok l"
  by (auto simp: validateListener_def listener_ok_def)

lemma validateTLS_ok: "validateTLS c = [] \<longleftrightarrow> tls_ok (cf_TLS c)"
  by (auto simp: validateTLS_def tls_ok_def Let_def)

lemma validateACL_ok: "ac_Mode (cf_ACL c) \<noteq> [] \<Longrightarrow> validateACL c = [] \<longleftrightarrow> acl_ok c"
  by (auto simp: validateACL_def acl_ok_def Let_def)

lemma validateAgent_ok: "at_DrainWindow (cf_Agent c) \<noteq> 0 \<Longrightarrow> validateAgent c = [] \<longleftrightarrow> agent_ok (cf_Agent c)"
  by (auto simp: validateAgent_def agent_ok_def Let_def)

lemma validate_bootstrap_ok:
  assumes "bo_TokenTTL (cf_Bootstrap c) \<noteq> 0" "bo_RateLimit (cf_Bootstrap c) \<noteq> 0"
  shows "(let b = cf_Bootstrap c in
      if bo_Enabled b
      then check (cf_Role c \<noteq> RoleSeed) BootstrapNotSeed @
           check (blank (bo_SigningKey b) \<and> blank (bo_SigningKeyFile b)) NoSigningKey @
           check (length (bo_AdvertiseSeeds b) = 0 \<and> length (cu_Seeds (cf_Cluster c)) = 0) NoAdvertisedSeeds @
           check (bo_RateLimit b < 0) BadBootstrapRate
      else []) = [] \<longleftrightarrow> bootstrap_ok c"
  using assms by (auto simp: bootstrap_ok_def Let_def)

lemma validate_discovery_ok:
  "pred_option (\<lambda>d. di_UpdateInterval d \<noteq> 0) o' \<Longrightarrow>
   (case o' of None \<Rightarrow> [] | Some d \<Rightarrow> check (blank (di_Name d)) NoDiscoveryName @ check (di_UpdateInterval d < 0) NegativeUpdateInterval) = []
   \<longleftrightarrow> pred_option (\<lambda>d. \<not> blank (di_Name d) \<and> di_UpdateInterval d > 0) o'"
  by (cases o') auto

lemma validate_times_ok:
  "check (cf_TTL c \<le> 0) BadTTL @ check (cf_HeartbeatInterval c \<le> 0) BadHeartbeat @
     check (cf_TTL c > 0 \<and> cf_HeartbeatInterval c > 0 \<and> cf_HeartbeatInterval c \<ge> cf_TTL c) HeartbeatNotBelowTTL @
     check (cf_ShutdownTimeout c \<le> 0) BadShutdownTimeout = [] \<longleftrightarrow>
   0 < cf_HeartbeatInterval c \<and> cf_HeartbeatInterval c < cf_TTL c \<and> 0 < cf_ShutdownTimeout c"
  by auto

lemma Validate_well_typed:
  assumes d: "defaulted c"
  shows "Validate c = [] \<longleftrightarrow> well_typed c"
proof -
  let ?ls = "cf_Listeners c"
  have g: "validateListener ''listeners.grpc'' (ls_GRPC ?ls) = [] \<longleftrightarrow> listener_ok (ls_GRPC ?ls)"
    using d validateListener_ok [of "ls_GRPC ?ls"] by (simp add: defaulted_def)
  have l: "(if li_Enabled (ls_ConsulHTTP ?ls) then validateListener p (ls_ConsulHTTP ?ls) else []) = [] \<longleftrightarrow> listener_ok (ls_ConsulHTTP ?ls)"
    "(if li_Enabled (ls_DNS ?ls) then validateListener p (ls_DNS ?ls) else []) = [] \<longleftrightarrow> listener_ok (ls_DNS ?ls)"
    "(if li_Enabled (ls_Metrics ?ls) then validateListener p (ls_Metrics ?ls) else []) = [] \<longleftrightarrow> listener_ok (ls_Metrics ?ls)" for p
    using d by (intro validateListener_ok; simp add: defaulted_def)+
  have b: "bo_TokenTTL (cf_Bootstrap c) \<noteq> 0" "bo_RateLimit (cf_Bootstrap c) \<noteq> 0"
    and u: "pred_option (\<lambda>d. di_UpdateInterval d \<noteq> 0) (cu_Discovery (cf_Cluster c))"
    and a: "ac_Mode (cf_ACL c) \<noteq> []" "at_DrainWindow (cf_Agent c) \<noteq> 0" and r: "cf_Datacenter c \<noteq> []" "li_Enabled (ls_GRPC ?ls)"
    and z: "zone_ok (dz_Domain (cf_DNS c))" "dz_AltDomain (cf_DNS c) = [] \<or> zone_ok (dz_AltDomain (cf_DNS c))"
      "dz_EnableTruncate (cf_DNS c)" "fe_MaxHops (cf_Federation c) \<noteq> 0" "mb_SyncInterval (cf_Membership c) \<noteq> 0"
    using d by (simp_all add: defaulted_def)
  show ?thesis
    unfolding Validate_def append_is_Nil_conv g l validate_bootstrap_ok [OF b] validate_discovery_ok [OF u] validateTLS_ok
      validateACL_ok [OF a(1)] validateAgent_ok [OF a(2)] validate_times_ok [unfolded append_is_Nil_conv]
      well_typed_def check_Nil
    using r z by (intro iffI; elim conjE; intro conjI; (assumption | auto))
qed

lemma Parse_iff:
  "Parse ext data = Inr c \<longleftrightarrow>
     ToLower ext \<in> {[], ''.yaml'', ''.yml'', ''.json''} \<and> (\<exists>written. data = Decoded written \<and> c = applyDefaults written) \<and> well_typed c"
  by (auto simp: Parse_def Let_def Validate_well_typed defaulted_applyDefaults split: decoded.splits)

text \<open>
  C36 (type). Every configuration that loads is well typed, with every field the rest of the program
  relies on in range (a role, heartbeats inside the lease, quorums of at least one, a known ACL mode,
  zones with their trailing dot, an identity source under \<^verbatim>\<open>enforce\<close>), every well typed
  configuration loads, and loading what was loaded changes nothing.
\<close>

theorem Parse_well_typed:
  "(Parse ext data = Inr c \<longleftrightarrow>
     ToLower ext \<in> {[], ''.yaml'', ''.yml'', ''.json''} \<and> (\<exists>written. data = Decoded written \<and> c = applyDefaults written) \<and> well_typed c) \<and>
   (Parse ext data = Inr c \<longrightarrow> Parse ext (Decoded c) = Inr c)"
  using applyDefaults_id [OF defaulted_applyDefaults] by (auto simp: Parse_iff)

definition ex_written :: Configuration where
  "ex_written = zero_config\<lparr>cf_Cluster := \<lparr>cu_Name = ''prod'', cu_Seeds = [''10.0.0.1:9900''], cu_Discovery = None\<rparr>\<rparr>"

lemma ex_written_loads: "Parse ''.yaml'' (Decoded ex_written) = Inr (applyDefaults ex_written)"
  by code_simp

theorem Parse_well_typed_witness:
  "Parse ''.yaml'' (Decoded ex_written) = Inr (applyDefaults ex_written) \<and> well_typed (applyDefaults ex_written) \<and>
   Parse ''.yaml'' (Decoded (applyDefaults ex_written)) = Inr (applyDefaults ex_written) \<and> cf_TTL (applyDefaults ex_written) = 30 * second"
proof -
  have "cf_TTL (applyDefaults ex_written) = 30 * second" by code_simp
  then show ?thesis
    using Parse_well_typed [of "''.yaml''" "Decoded ex_written" "applyDefaults ex_written"] ex_written_loads by blast
qed

end
