(* ===== verification/SeedProvider.thy ===== *)
theory SeedProvider
  imports Config
begin

text \<open>
  \<^verbatim>\<open>internal/resolver\<close>: where an agent gets the addresses of its seeds. The file system and the plugin's process
  are parameters; the YAML it prints is what it decodes to.
\<close>

section \<open>Providers\<close>

definition DefaultOptionsEnv :: string where "DefaultOptionsEnv = ''YP_SEED_PLUGIN_OPTIONS''"

definition defaultPluginTimeout :: duration where "defaultPluginTimeout = 10 * second"

record PluginConfig =
  pl_Path :: string
  pl_Options :: smap
  pl_Timeout :: duration
  pl_OptionsEnv :: string

definition NewPlugin :: "PluginConfig \<Rightarrow> PluginConfig" where
  "NewPlugin cfg =
     (let cfg = (if pl_Timeout cfg \<le> 0 then cfg\<lparr>pl_Timeout := defaultPluginTimeout\<rparr> else cfg) in
      if pl_OptionsEnv cfg = [] then cfg\<lparr>pl_OptionsEnv := DefaultOptionsEnv\<rparr> else cfg)"

datatype SeedSource = Static "string list" | Plugin PluginConfig

text \<open>A file as \<^verbatim>\<open>os.Stat\<close> reports it; what running the plugin gives; what its output decodes to.\<close>

record FileInfo =
  fi_regular :: bool
  fi_perm :: nat

datatype plugin_run = TimedOut | RunFailed | Output "string list option"

record Machine =
  ma_Stat :: "string \<Rightarrow> FileInfo option"
  ma_Marshal :: "smap \<Rightarrow> string option"
  ma_Run :: "string \<Rightarrow> string \<Rightarrow> string \<Rightarrow> duration \<Rightarrow> plugin_run"

datatype provider_error =
    PathEmpty | PathNotAbsolute | StatFailed | NotRegular | NotExecutable | OptionsNotEncoded
  | PluginTimedOut duration | PluginFailed | OutputNotParsed

text \<open>The bits of \<^verbatim>\<open>0o111\<close>: some execute permission.\<close>

definition executable :: "nat \<Rightarrow> bool" where
  "executable perm \<longleftrightarrow> odd perm \<or> odd (perm div 8) \<or> odd (perm div 64)"

definition validatePath :: "Machine \<Rightarrow> string \<Rightarrow> provider_error option" where
  "validatePath env path =
     (if path = [] then Some PathEmpty
      else if \<not> HasPrefix path ''/'' then Some PathNotAbsolute
      else case ma_Stat env path of
        None \<Rightarrow> Some StatFailed
      | Some info \<Rightarrow>
          if \<not> fi_regular info then Some NotRegular
          else if \<not> executable (fi_perm info) then Some NotExecutable
          else None)"

definition Plugin_Seeds :: "Machine \<Rightarrow> PluginConfig \<Rightarrow> provider_error + string list" where
  "Plugin_Seeds env cfg =
     (case validatePath env (pl_Path cfg) of
        Some err \<Rightarrow> Inl err
      | None \<Rightarrow>
          (case ma_Marshal env (pl_Options cfg) of
             None \<Rightarrow> Inl OptionsNotEncoded
           | Some text \<Rightarrow>
               (case ma_Run env (pl_Path cfg) (pl_OptionsEnv cfg) text (pl_Timeout cfg) of
                  TimedOut \<Rightarrow> Inl (PluginTimedOut (pl_Timeout cfg))
                | RunFailed \<Rightarrow> Inl PluginFailed
                | Output None \<Rightarrow> Inl OutputNotParsed
                | Output (Some seeds) \<Rightarrow> Inr seeds)))"

definition source_Seeds :: "Machine \<Rightarrow> SeedSource \<Rightarrow> provider_error + string list" where
  "source_Seeds env p = (case p of Static seeds \<Rightarrow> Inr seeds | Plugin cfg \<Rightarrow> Plugin_Seeds env cfg)"

section \<open>The ordered merge\<close>

fun add_seeds :: "string list \<Rightarrow> string list \<Rightarrow> string list" where
  "add_seeds [] out = out"
| "add_seeds (s # ss) out =
     (let s = TrimSpace s in
      if s = [] then add_seeds ss out
      else if s \<in> set out then add_seeds ss out
      else add_seeds ss (out @ [s]))"

fun merged_loop :: "Machine \<Rightarrow> SeedSource list \<Rightarrow> string list \<Rightarrow> provider_error list \<Rightarrow> string list \<times> provider_error list" where
  "merged_loop env [] out errs = (out, errs)"
| "merged_loop env (p # ps) out errs =
     (case source_Seeds env p of
        Inl err \<Rightarrow> merged_loop env ps out (errs @ [err])
      | Inr seeds \<Rightarrow> merged_loop env ps (add_seeds seeds out) errs)"

definition Merged_Seeds :: "Machine \<Rightarrow> SeedSource list \<Rightarrow> provider_error list + string list" where
  "Merged_Seeds env ps =
     (case merged_loop env ps [] [] of (out, errs) \<Rightarrow> if length out = 0 then Inl errs else Inr out)"

definition buildSeedProvider :: "Configuration \<Rightarrow> SeedSource list" where
  "buildSeedProvider cfg =
     (if length (cu_Seeds (cf_Cluster cfg)) > 0 then [Static (cu_Seeds (cf_Cluster cfg))] else []) @
     (case cu_Discovery (cf_Cluster cfg) of
        None \<Rightarrow> []
      | Some d \<Rightarrow> [Plugin (NewPlugin \<lparr>pl_Path = di_Name d, pl_Options = di_Options d, pl_Timeout = 0, pl_OptionsEnv = []\<rparr>)])"

section \<open>What the merge returns\<close>

lemma add_seeds_append: "add_seeds (xs @ ys) out = add_seeds ys (add_seeds xs out)"
  by (induction xs arbitrary: out) (auto simp: Let_def)

lemma merged_loop_eq:
  "merged_loop env ps out errs =
     (add_seeds (concat (map (\<lambda>p. case source_Seeds env p of Inl _ \<Rightarrow> [] | Inr ss \<Rightarrow> ss) ps)) out,
      errs @ concat (map (\<lambda>p. case source_Seeds env p of Inl e \<Rightarrow> [e] | Inr _ \<Rightarrow> []) ps))"
  by (induction ps arbitrary: out errs) (auto simp: add_seeds_append split: sum.splits)

text \<open>First occurrences in order.\<close>

fun first_seen :: "'a list \<Rightarrow> 'a list" where
  "first_seen [] = []"
| "first_seen (x # xs) = x # filter (\<lambda>y. y \<noteq> x) (first_seen xs)"

lemma set_first_seen [simp]: "set (first_seen xs) = set xs"
  by (induction xs) auto

lemma distinct_first_seen [simp]: "distinct (first_seen xs)"
  by (induction xs) auto

lemma add_seeds_eq: "add_seeds ss out = out @ filter (\<lambda>s. s \<notin> set out) (first_seen (filter (\<lambda>s. s \<noteq> []) (map TrimSpace ss)))"
proof (induction ss arbitrary: out)
  case (Cons s ss)
  show ?case
  proof (cases "TrimSpace s = [] \<or> TrimSpace s \<in> set out")
    case True
    then show ?thesis using Cons.IH [of out] by (auto simp: Let_def intro!: filter_cong)
  next
    case False
    then show ?thesis using Cons.IH [of "out @ [TrimSpace s]"] by (auto simp: Let_def intro!: filter_cong)
  qed
qed simp

text \<open>
  The seeds an agent starts with. They are the addresses of all providers that could be resolved, trimmed and without
  the blank ones, in the order in which they were first seen and each once: a provider that fails
  takes nothing away from the others. There is an error exactly when no address is left.
\<close>

theorem merged_seeds:
  "Merged_Seeds env ps =
     (let all_seeds = concat (map (\<lambda>p. case source_Seeds env p of Inl _ \<Rightarrow> [] | Inr ss \<Rightarrow> ss) ps);
          out = first_seen (filter (\<lambda>s. s \<noteq> []) (map TrimSpace all_seeds)) in
      if out = [] then Inl (concat (map (\<lambda>p. case source_Seeds env p of Inl e \<Rightarrow> [e] | Inr _ \<Rightarrow> []) ps)) else Inr out) \<and>
   (\<forall>out. Merged_Seeds env ps = Inr out \<longrightarrow> distinct out \<and>
      set out = {TrimSpace s | p ss s. p \<in> set ps \<and> source_Seeds env p = Inr ss \<and> s \<in> set ss \<and> TrimSpace s \<noteq> []})"
proof -
  define all_seeds where "all_seeds = concat (map (\<lambda>p. case source_Seeds env p of Inl _ \<Rightarrow> [] | Inr ss \<Rightarrow> ss) ps)"
  have eq: "Merged_Seeds env ps =
      (let out = first_seen (filter (\<lambda>s. s \<noteq> []) (map TrimSpace all_seeds)) in
       if out = [] then Inl (concat (map (\<lambda>p. case source_Seeds env p of Inl e \<Rightarrow> [e] | Inr _ \<Rightarrow> []) ps)) else Inr out)"
    by (simp add: Merged_Seeds_def merged_loop_eq add_seeds_eq all_seeds_def Let_def)
  have "s \<in> set all_seeds \<longleftrightarrow> (\<exists>p ss. p \<in> set ps \<and> source_Seeds env p = Inr ss \<and> s \<in> set ss)" for s
    by (force simp: all_seeds_def split: sum.splits)
  then have "set (first_seen (filter (\<lambda>s. s \<noteq> []) (map TrimSpace all_seeds))) =
      {TrimSpace s | p ss s. p \<in> set ps \<and> source_Seeds env p = Inr ss \<and> s \<in> set ss \<and> TrimSpace s \<noteq> []}" by (auto, blast)
  then show ?thesis using eq unfolding all_seeds_def [symmetric] by (auto simp: Let_def split: if_splits)
qed

theorem merged_seeds_witness:
  "Merged_Seeds \<lparr>ma_Stat = \<lambda>_. None, ma_Marshal = \<lambda>_. None, ma_Run = \<lambda>_ _ _ _. RunFailed\<rparr>
     [Static ['' b:1'', ''a:1''], Plugin \<lparr>pl_Path = ''/x'', pl_Options = fmempty, pl_Timeout = 1, pl_OptionsEnv = []\<rparr>, Static [''a:1'', ''c:1'']]
   = Inr [''b:1'', ''a:1'', ''c:1''] \<and> distinct [''b:1'', ''a:1'', ''c:1'']"
proof -
  let ?env = "\<lparr>ma_Stat = \<lambda>_. None, ma_Marshal = \<lambda>_. None, ma_Run = \<lambda>_ _ _ _. RunFailed\<rparr>"
  let ?ps = "[Static ['' b:1'', ''a:1''], Plugin \<lparr>pl_Path = ''/x'', pl_Options = fmempty, pl_Timeout = 1, pl_OptionsEnv = []\<rparr>, Static [''a:1'', ''c:1'']]"
  have run: "Merged_Seeds ?env ?ps = Inr [''b:1'', ''a:1'', ''c:1'']" by code_simp
  then show ?thesis using conjunct2 [OF merged_seeds [of ?env ?ps]] by blast
qed

end
