(* ===== verification/GoCrypto.thy ===== *)
theory GoCrypto
  imports GoStrings
begin

unbundle bit_operations_syntax

text \<open>
  What the bootstrap tokens use of Go's standard library: \<^verbatim>\<open>base64.RawURLEncoding\<close>, \<^verbatim>\<open>encoding/binary\<close>,
  \<^verbatim>\<open>crypto/sha256\<close> and \<^verbatim>\<open>crypto/hmac\<close>. A byte is a natural number below 256.
\<close>

type_synonym bytes = "nat list"

definition bytes_ok :: "bytes \<Rightarrow> bool" where
  "bytes_ok bs \<longleftrightarrow> (\<forall>b\<in>set bs. b < 256)"

definition string_bytes :: "string \<Rightarrow> bytes" where
  "string_bytes s = map of_char s"

section \<open>Base64 without padding, URL alphabet\<close>

definition b64_char :: "nat \<Rightarrow> char" where
  "b64_char i =
     (if i < 26 then char_of (65 + i) else if i < 52 then char_of (71 + i) else if i < 62 then char_of (i - 4)
      else if i = 62 then CHR ''-'' else CHR ''_'')"

definition b64_value :: "char \<Rightarrow> nat option" where
  "b64_value c =
     (let n = of_char c in
      if 65 \<le> n \<and> n \<le> 90 then Some (n - 65)
      else if 97 \<le> n \<and> n \<le> 122 then Some (n - 71)
      else if 48 \<le> n \<and> n \<le> 57 then Some (n + 4)
      else if c = CHR ''-'' then Some 62
      else if c = CHR ''_'' then Some 63
      else None)"

fun sextets :: "bytes \<Rightarrow> nat list" where
  "sextets [] = []"
| "sextets [a] = [a div 4, a mod 4 * 16]"
| "sextets [a, b] = [a div 4, a mod 4 * 16 + b div 16, b mod 16 * 4]"
| "sextets (a # b # c # bs) = (a div 4) # (a mod 4 * 16 + b div 16) # (b mod 16 * 4 + c div 64) # (c mod 64) # sextets bs"

fun octets :: "nat list \<Rightarrow> bytes option" where
  "octets [] = Some []"
| "octets [x] = None"
| "octets [x, y] = Some [x * 4 + y div 16]"
| "octets [x, y, z] = Some [x * 4 + y div 16, y mod 16 * 16 + z div 4]"
| "octets (x # y # z # w # vs) =
     map_option (\<lambda>bs. (x * 4 + y div 16) # (y mod 16 * 16 + z div 4) # (z mod 4 * 64 + w) # bs) (octets vs)"

definition base64_Encode :: "bytes \<Rightarrow> string" where
  "base64_Encode bs = map b64_char (sextets bs)"

text \<open>The decoder skips line ends and refuses every other byte outside the alphabet.\<close>

definition base64_Decode :: "string \<Rightarrow> bytes option" where
  "base64_Decode s =
     (let s = filter (\<lambda>c. c \<noteq> CHR 0x0A \<and> c \<noteq> CHR 0x0D) s in
      if list_all (\<lambda>c. b64_value c \<noteq> None) s then octets (map (the \<circ> b64_value) s) else None)"

lemma b64_value_char: "i < 64 \<Longrightarrow> b64_value (b64_char i) = Some i"
  by (auto simp: b64_char_def b64_value_def Let_def)

lemma b64_value_space: "is_space c \<Longrightarrow> b64_value c = None"
  by (auto simp: is_space_def b64_value_def)

lemma b64_char_not_space: "i < 64 \<Longrightarrow> \<not> is_space (b64_char i)"
  using b64_value_char [of i] b64_value_space [of "b64_char i"] by auto

lemma sextets_less: "bytes_ok bs \<Longrightarrow> x \<in> set (sextets bs) \<Longrightarrow> x < 64"
  by (induction bs rule: sextets.induct) (auto simp: bytes_ok_def)

lemma octets_sextets: "bytes_ok bs \<Longrightarrow> octets (sextets bs) = Some bs"
  by (induction bs rule: sextets.induct) (auto simp: bytes_ok_def)

lemma base64_roundtrip: "bytes_ok bs \<Longrightarrow> base64_Decode (base64_Encode bs) = Some bs"
proof -
  assume ok: "bytes_ok bs"
  have sp: "\<not> is_space c" if "c \<in> set (base64_Encode bs)" for c
    using that sextets_less [OF ok] b64_char_not_space by (auto simp: base64_Encode_def)
  have "c \<noteq> CHR 0x0A \<and> c \<noteq> CHR 0x0D" if "c \<in> set (base64_Encode bs)" for c using sp [OF that] by (auto simp: is_space_def)
  then have f: "filter (\<lambda>c. c \<noteq> CHR 0x0A \<and> c \<noteq> CHR 0x0D) (base64_Encode bs) = base64_Encode bs" by (simp add: filter_id_conv)
  have v: "map (the \<circ> b64_value) (base64_Encode bs) = sextets bs" "list_all (\<lambda>c. b64_value c \<noteq> None) (base64_Encode bs)"
    using sextets_less [OF ok] by (auto simp: base64_Encode_def b64_value_char list_all_iff intro!: map_idI)
  show ?thesis using v(2) by (simp add: base64_Decode_def Let_def f v(1) octets_sextets [OF ok])
qed

lemma TrimSpace_base64: "bytes_ok bs \<Longrightarrow> TrimSpace (base64_Encode bs) = base64_Encode bs"
proof (rule TrimSpace_id)
  assume ok: "bytes_ok bs"
  have "\<not> is_space c" if "c \<in> set (base64_Encode bs)" for c
    using that sextets_less [OF ok] b64_char_not_space by (auto simp: base64_Encode_def)
  then show "base64_Encode bs = [] \<or> \<not> is_space (hd (base64_Encode bs)) \<and> \<not> is_space (last (base64_Encode bs))"
    by (cases "base64_Encode bs = []") auto
qed

section \<open>Big-endian integers\<close>

primrec be_bytes :: "nat \<Rightarrow> nat \<Rightarrow> bytes" where
  "be_bytes 0 n = []"
| "be_bytes (Suc k) n = be_bytes k (n div 256) @ [n mod 256]"

definition be_value :: "bytes \<Rightarrow> nat" where
  "be_value bs = foldl (\<lambda>n b. 256 * n + b) 0 bs"

lemma length_be_bytes [simp]: "length (be_bytes k n) = k"
  by (induction k arbitrary: n) auto

lemma be_bytes_ok [simp]: "bytes_ok (be_bytes k n)"
  by (induction k arbitrary: n) (auto simp: bytes_ok_def)

lemma be_value_bytes: "n < 256 ^ k \<Longrightarrow> be_value (be_bytes k n) = n"
proof (induction k arbitrary: n)
  case (Suc k)
  then have "n div 256 < 256 ^ k" by (simp add: less_mult_imp_div_less mult.commute)
  with Suc.IH show ?case by (simp add: be_value_def)
qed (simp add: be_value_def)

section \<open>SHA-256\<close>

text \<open>
  The constants as FIPS 180-4 defines them: the first 32 bits of the fractional parts of the cube roots of the first 64 primes,
  and of the square roots of the first eight. The root is found bit by bit.
\<close>

primrec root_bits :: "nat \<Rightarrow> nat \<Rightarrow> nat \<Rightarrow> nat \<Rightarrow> nat" where
  "root_bits k n 0 r = r"
| "root_bits k n (Suc i) r = root_bits k n i (if (r + 2 ^ i) ^ k \<le> n then r + 2 ^ i else r)"

definition root_word :: "nat \<Rightarrow> nat \<Rightarrow> uint32" where
  "root_word k p = of_nat (root_bits k (p * 2 ^ (32 * k)) 36 0)"

definition small_primes :: "nat list" where
  "small_primes = filter (\<lambda>p. list_all (\<lambda>d. p mod d \<noteq> 0) [2..<p]) [2..<312]"

definition sha_K :: "uint32 list" where
  "sha_K = map (root_word 3) small_primes"

record sha_state =
  sa :: uint32
  sb :: uint32
  sc :: uint32
  sd :: uint32
  se :: uint32
  sf :: uint32
  sg :: uint32
  sh :: uint32

definition sha_init :: sha_state where
  "sha_init =
     (let h = map (root_word 2) small_primes in
      \<lparr>sa = h ! 0, sb = h ! 1, sc = h ! 2, sd = h ! 3, se = h ! 4, sf = h ! 5, sg = h ! 6, sh = h ! 7\<rparr>)"

definition sha_pad :: "bytes \<Rightarrow> bytes" where
  "sha_pad m = m @ [128] @ replicate ((119 - length m mod 64) mod 64) 0 @ be_bytes 8 (8 * length m)"

definition block_word :: "bytes \<Rightarrow> nat \<Rightarrow> uint32" where
  "block_word b i = of_nat (be_value (take 4 (drop (4 * i) b)))"

definition sigma0 :: "uint32 \<Rightarrow> uint32" where
  "sigma0 x = word_rotr 7 x XOR word_rotr 18 x XOR drop_bit 3 x"

definition sigma1 :: "uint32 \<Rightarrow> uint32" where
  "sigma1 x = word_rotr 17 x XOR word_rotr 19 x XOR drop_bit 10 x"

primrec schedule :: "nat \<Rightarrow> uint32 list \<Rightarrow> uint32 list" where
  "schedule 0 w = w"
| "schedule (Suc k) w =
     (let n = length w in schedule k (w @ [sigma1 (w ! (n - 2)) + w ! (n - 7) + sigma0 (w ! (n - 15)) + w ! (n - 16)]))"

definition sha_round :: "uint32 \<times> uint32 \<Rightarrow> sha_state \<Rightarrow> sha_state" where
  "sha_round kw s =
     (let e = se s; a = sa s;
          t1 = sh s + (word_rotr 6 e XOR word_rotr 11 e XOR word_rotr 25 e) + ((e AND sf s) XOR (NOT e AND sg s)) + fst kw + snd kw;
          t2 = (word_rotr 2 a XOR word_rotr 13 a XOR word_rotr 22 a) + ((a AND sb s) XOR (a AND sc s) XOR (sb s AND sc s))
      in \<lparr>sa = t1 + t2, sb = a, sc = sb s, sd = sc s, se = sd s + t1, sf = e, sg = sf s, sh = sg s\<rparr>)"

definition sha_block :: "bytes \<Rightarrow> sha_state \<Rightarrow> sha_state" where
  "sha_block b s =
     (let w = schedule 48 (map (block_word b) [0..<16]);
          r = fold sha_round (zip sha_K w) s
      in \<lparr>sa = sa s + sa r, sb = sb s + sb r, sc = sc s + sc r, sd = sd s + sd r,
          se = se s + se r, sf = sf s + sf r, sg = sg s + sg r, sh = sh s + sh r\<rparr>)"

definition sha_blocks :: "bytes \<Rightarrow> sha_state \<Rightarrow> sha_state" where
  "sha_blocks m s = fold (\<lambda>i. sha_block (take 64 (drop (64 * i) m))) [0..<length m div 64] s"

definition sha256 :: "bytes \<Rightarrow> bytes" where
  "sha256 m =
     (let s = sha_blocks (sha_pad m) sha_init
      in concat (map (\<lambda>x. be_bytes 4 (unat x)) [sa s, sb s, sc s, sd s, se s, sf s, sg s, sh s]))"

definition hmac_key :: "bytes \<Rightarrow> bytes" where
  "hmac_key key = (let k = (if length key > 64 then sha256 key else key) in k @ replicate (64 - length k) 0)"

definition hmac_sha256 :: "bytes \<Rightarrow> bytes \<Rightarrow> bytes" where
  "hmac_sha256 key m =
     sha256 (map (\<lambda>b. b XOR 0x5c) (hmac_key key) @ sha256 (map (\<lambda>b. b XOR 0x36) (hmac_key key) @ m))"

lemma length_sha256 [simp]: "length (sha256 m) = 32"
  by (simp add: sha256_def Let_def)

lemma sha256_ok [simp]: "bytes_ok (sha256 m)"
  using be_bytes_ok unfolding bytes_ok_def sha256_def Let_def by auto

lemma length_hmac [simp]: "length (hmac_sha256 key m) = 32"
  by (simp add: hmac_sha256_def)

lemma hmac_ok [simp]: "bytes_ok (hmac_sha256 key m)"
  by (simp add: hmac_sha256_def)

end
