(* ===== verification/Bootstrap.thy ===== *)
theory Bootstrap
  imports Config Cred RateLimit GoTime GoNet GoCrypto
begin

text \<open>
  \<^verbatim>\<open>internal/bootstrap\<close> and the parts of \<^verbatim>\<open>cmd/yp\<close> that use it: the short-lived tokens, the sanitized configuration a
  seed hands to a joining node and the service that guards it. Random bytes, the contents of the
  key file and the YAML encoder are parameters.
\<close>

section \<open>Tokens\<close>

definition tokenPayloadLen :: nat where "tokenPayloadLen = 16"

definition tokenMACLen :: nat where "tokenMACLen = 32"

definition defaultTokenTTL :: duration where "defaultTokenTTL = 30 * second"

definition MinSigningKeyLen :: nat where "MinSigningKeyLen = 16"

datatype token_error = ErrTokenInvalid | ErrTokenExpired

datatype mint_error = KeyTooShort nat | RandError

definition sign :: "bytes \<Rightarrow> bytes \<Rightarrow> bytes" where
  "sign key payload = hmac_sha256 key payload"

text \<open>\<^verbatim>\<open>Time.Unix\<close>: whole seconds, rounded down.\<close>

definition Unix :: "time \<Rightarrow> int" where
  "Unix t = t div second"

definition PutUint64 :: "int \<Rightarrow> bytes" where
  "PutUint64 n = be_bytes 8 (unat (of_int n :: uint64))"

definition get_int64 :: "bytes \<Rightarrow> int" where
  "get_int64 bs = sint (of_nat (be_value bs) :: uint64)"

definition MintToken :: "bytes \<Rightarrow> duration \<Rightarrow> time \<Rightarrow> bytes option \<Rightarrow> mint_error + string" where
  "MintToken key ttl now rnd =
     (if length key < MinSigningKeyLen then Inl (KeyTooShort (length key))
      else
        (let ttl = (if ttl \<le> 0 then defaultTokenTTL else ttl) in
         case rnd of
           None \<Rightarrow> Inl RandError
         | Some nonce \<Rightarrow>
             (let payload = PutUint64 (Unix (now + ttl)) @ nonce
              in Inr (base64_Encode (payload @ sign key payload)))))"

definition ValidateToken :: "bytes \<Rightarrow> string \<Rightarrow> time \<Rightarrow> token_error option" where
  "ValidateToken key token now =
     (if length key = 0 then Some ErrTokenInvalid
      else case base64_Decode (TrimSpace token) of
        None \<Rightarrow> Some ErrTokenInvalid
      | Some data \<Rightarrow>
          if length data \<noteq> tokenPayloadLen + tokenMACLen then Some ErrTokenInvalid
          else
            (let payload = take tokenPayloadLen data; mac = drop tokenPayloadLen data in
             if mac \<noteq> sign key payload then Some ErrTokenInvalid
             else if Unix now > get_int64 (take 8 payload) then Some ErrTokenExpired
             else None))"

definition ResolveSigningKey :: "(string \<Rightarrow> string option) \<Rightarrow> string \<Rightarrow> string \<Rightarrow> bytes option" where
  "ResolveSigningKey readFile inline file =
     (if TrimSpace file \<noteq> [] then map_option (\<lambda>data. string_bytes (TrimSpace data)) (readFile file)
      else if inline \<noteq> [] then Some (string_bytes inline)
      else Some [])"

section \<open>The sanitized configuration\<close>

record rCluster =
  rc_Name :: string
  rc_Seeds :: "string list"

record rListener =
  rl_Enabled :: bool
  rl_Address :: string
  rl_Port :: uint16

record rListeners =
  rls_GRPC :: rListener
  rls_ConsulHTTP :: rListener
  rls_DNS :: rListener
  rls_Metrics :: rListener

record rDNS =
  rd_Domain :: string
  rd_AltDomain :: string

record rAgent =
  ra_SeedTimeout :: string
  ra_WriteQuorum :: int
  ra_ReadyMinSeeds :: int
  ra_DrainWindow :: string
  ra_CacheMaxAge :: string

record rTLS =
  rt_Enabled :: bool
  rt_MutualTLS :: bool

record rACL =
  rac_Mode :: string

record rendered =
  re_Role :: string
  re_Datacenter :: string
  re_Cluster :: rCluster
  re_TTL :: string
  re_HeartbeatInterval :: string
  re_ShutdownTimeout :: string
  re_MaxServices :: int
  re_Listeners :: rListeners
  re_DNS :: "rDNS option"
  re_Agent :: "rAgent option"
  re_TLS :: "rTLS option"
  re_ACL :: "rACL option"

definition durStr :: "duration \<Rightarrow> string" where
  "durStr d = (if d = 0 then [] else Duration_String d)"

definition renderHeader :: string where
  "renderHeader =
     ''# Generated by `yp bootstrap` from a seed.'' @ [CHR 0x0A] @
     ''# SANITIZED: this carries no TLS keys / ACL tokens '' @ [CHR 0xE2, CHR 0x80, CHR 0x94] @ '' provision node'' @ [CHR 0x0A] @
     ''# credentials locally (set tls.cert_file/key_file/ca_file, acl.tokens_file).'' @ [CHR 0x0A, CHR 0x0A]"

definition render_config :: "Configuration \<Rightarrow> Role \<Rightarrow> string list \<Rightarrow> rendered" where
  "render_config cfg role seeds =
     (let loopback = ''127.0.0.1''; ls = cf_Listeners cfg in
      \<lparr>re_Role = role, re_Datacenter = cf_Datacenter cfg,
       re_Cluster = \<lparr>rc_Name = cu_Name (cf_Cluster cfg), rc_Seeds = seeds\<rparr>,
       re_TTL = Duration_String (cf_TTL cfg), re_HeartbeatInterval = Duration_String (cf_HeartbeatInterval cfg),
       re_ShutdownTimeout = Duration_String (cf_ShutdownTimeout cfg),
       re_MaxServices = (if role = RoleSeed then cf_MaxServices cfg else 0),
       re_Listeners =
         \<lparr>rls_GRPC = \<lparr>rl_Enabled = False, rl_Address = loopback, rl_Port = li_Port (ls_GRPC ls)\<rparr>,
          rls_ConsulHTTP = \<lparr>rl_Enabled = True, rl_Address = loopback, rl_Port = li_Port (ls_ConsulHTTP ls)\<rparr>,
          rls_DNS = \<lparr>rl_Enabled = True, rl_Address = loopback, rl_Port = li_Port (ls_DNS ls)\<rparr>,
          rls_Metrics = \<lparr>rl_Enabled = False, rl_Address = loopback, rl_Port = li_Port (ls_Metrics ls)\<rparr>\<rparr>,
       re_DNS = (if dz_Domain (cf_DNS cfg) \<noteq> [] \<or> dz_AltDomain (cf_DNS cfg) \<noteq> []
                 then Some \<lparr>rd_Domain = dz_Domain (cf_DNS cfg), rd_AltDomain = dz_AltDomain (cf_DNS cfg)\<rparr> else None),
       re_Agent = (if role = RoleAgent
                   then Some \<lparr>ra_SeedTimeout = durStr (at_SeedTimeout (cf_Agent cfg)), ra_WriteQuorum = at_WriteQuorum (cf_Agent cfg),
                          ra_ReadyMinSeeds = at_ReadyMinSeeds (cf_Agent cfg), ra_DrainWindow = durStr (at_DrainWindow (cf_Agent cfg)),
                          ra_CacheMaxAge = durStr (at_CacheMaxAge (cf_Agent cfg))\<rparr>
                   else None),
       re_TLS = (if tl_Enabled (cf_TLS cfg) then Some \<lparr>rt_Enabled = True, rt_MutualTLS = tl_MutualTLS (cf_TLS cfg)\<rparr> else None),
       re_ACL = (if ac_Mode (cf_ACL cfg) \<noteq> [] \<and> ac_Mode (cf_ACL cfg) \<noteq> ''disabled'' then Some \<lparr>rac_Mode = ac_Mode (cf_ACL cfg)\<rparr> else None)\<rparr>)"

definition Render :: "(rendered \<Rightarrow> string option) \<Rightarrow> Configuration \<Rightarrow> Role \<Rightarrow> string list \<Rightarrow> string option" where
  "Render marshal cfg role seeds = map_option (\<lambda>body. renderHeader @ body) (marshal (render_config cfg role seeds))"

section \<open>The service\<close>

text \<open>The peer of a call: its address, when the transport knows it.\<close>

record PeerContext = Context +
  pc_addr :: "string option"

definition PeerAddr :: "PeerContext \<Rightarrow> string" where
  "PeerAddr ctx = (case pc_addr ctx of Some a \<Rightarrow> a | None \<Rightarrow> ''unknown'')"

definition PeerHost :: "PeerContext \<Rightarrow> string" where
  "PeerHost ctx = (case SplitHostPort (PeerAddr ctx) of Some (host, _) \<Rightarrow> host | None \<Rightarrow> PeerAddr ctx)"

definition bootstrap_tokenFromMetadata :: "PeerContext \<Rightarrow> string" where
  "bootstrap_tokenFromMetadata ctx =
     (case cx_metadata ctx of
        None \<Rightarrow> []
      | Some md \<Rightarrow>
          let v = md_Get md ''bootstrap-token''; a = md_Get md ''authorization'' in
          if length v > 0 then TrimSpace (hd v)
          else if length a > 0 then TrimSpace (TrimPrefix (hd a) ''Bearer '')
          else [])"

record BootService =
  bs_cfg :: Configuration
  bs_signingKey :: bytes
  bs_allowSeedJoin :: bool
  bs_seeds :: "string list"
  bs_rrl :: "Limiter option"

datatype boot_error = RateExceeded | Unauthenticated | SeedJoinDisabled | BadRoleRequested string | RenderFailed

definition NewService :: "Configuration \<Rightarrow> bytes \<Rightarrow> bool \<Rightarrow> string list \<Rightarrow> int \<Rightarrow> BootService" where
  "NewService cfg key allow seeds rate =
     \<lparr>bs_cfg = cfg, bs_signingKey = key, bs_allowSeedJoin = allow, bs_seeds = seeds, bs_rrl = Some (Limiter_New rate)\<rparr>"

definition GetConfig :: "(rendered \<Rightarrow> string option) \<Rightarrow> time \<Rightarrow> PeerContext \<Rightarrow> string \<Rightarrow> BootService \<Rightarrow> (boot_error + string) \<times> BootService" where
  "GetConfig marshal now ctx reqRole s =
     (case Limiter_Allow now (PeerHost ctx) (bs_rrl s) of (ok, rrl) \<Rightarrow>
        let s = s\<lparr>bs_rrl := rrl\<rparr> in
        if \<not> ok then (Inl RateExceeded, s)
        else case ValidateToken (bs_signingKey s) (bootstrap_tokenFromMetadata ctx) now of
          Some err \<Rightarrow> (Inl Unauthenticated, s)
        | None \<Rightarrow>
            (let role = ToLower reqRole; role = (if role = [] then RoleAgent else role) in
             if role \<noteq> RoleAgent \<and> role \<noteq> RoleSeed then (Inl (BadRoleRequested reqRole), s)
             else if role = RoleSeed \<and> \<not> bs_allowSeedJoin s then (Inl SeedJoinDisabled, s)
             else case Render marshal (bs_cfg s) role (bs_seeds s) of
               None \<Rightarrow> (Inl RenderFailed, s)
             | Some body \<Rightarrow> (Inr body, s)))"

datatype registrar_error = KeyNotLoaded | EmptyKey

definition bootstrapRegistrar :: "(string \<Rightarrow> string option) \<Rightarrow> Configuration \<Rightarrow> registrar_error + BootService option" where
  "bootstrapRegistrar readFile cfg =
     (let b = cf_Bootstrap cfg in
      if \<not> bo_Enabled b then Inr None
      else case ResolveSigningKey readFile (bo_SigningKey b) (bo_SigningKeyFile b) of
        None \<Rightarrow> Inl KeyNotLoaded
      | Some key \<Rightarrow>
          if length key = 0 then Inl EmptyKey
          else
            (let seeds = (if length (bo_AdvertiseSeeds b) = 0 then cu_Seeds (cf_Cluster cfg) else bo_AdvertiseSeeds b)
             in Inr (Some (NewService cfg key (bo_AllowSeedJoin b) seeds (bo_RateLimit b)))))"

datatype create_error = BootstrapDisabled | NoKey | KeyUnreadable | NotMinted mint_error

definition create_token :: "(string \<Rightarrow> string option) \<Rightarrow> Configuration \<Rightarrow> duration \<Rightarrow> time \<Rightarrow> bytes option \<Rightarrow> create_error + string" where
  "create_token readFile cfg ttl now rnd =
     (let b = cf_Bootstrap cfg in
      if \<not> bo_Enabled b then Inl BootstrapDisabled
      else case ResolveSigningKey readFile (bo_SigningKey b) (bo_SigningKeyFile b) of
        None \<Rightarrow> Inl KeyUnreadable
      | Some key \<Rightarrow>
          if length key = 0 then Inl NoKey
          else case MintToken key (if ttl \<le> 0 then bo_TokenTTL b else ttl) now rnd of
            Inl err \<Rightarrow> Inl (NotMinted err)
          | Inr token \<Rightarrow> Inr token)"

section \<open>What a token says\<close>

lemma get_PutUint64:
  assumes "- (2 ^ 63) \<le> n" "n < 2 ^ 63"
  shows "get_int64 (PutUint64 n) = n"
proof -
  have "unat (of_int n :: uint64) < 256 ^ 8"
    using unsigned_less [of "of_int n :: uint64"] by (simp del: unsigned_less)
  moreover have "sint (of_int n :: uint64) = n"
    using assms by (simp add: signed_of_int signed_take_bit_int_eq_self)
  ultimately show ?thesis by (simp add: get_int64_def PutUint64_def be_value_bytes)
qed

lemma length_PutUint64 [simp]: "length (PutUint64 n) = 8"
  by (simp add: PutUint64_def)

lemma PutUint64_ok [simp]: "bytes_ok (PutUint64 n)"
  by (simp add: PutUint64_def)

lemma bytes_ok_append [simp]: "bytes_ok (xs @ ys) \<longleftrightarrow> bytes_ok xs \<and> bytes_ok ys"
  by (auto simp: bytes_ok_def)

text \<open>The token that carries the expiry \<open>n\<close> and the nonce, signed by the key.\<close>

definition signed_token :: "bytes \<Rightarrow> int \<Rightarrow> bytes \<Rightarrow> string" where
  "signed_token key n nonce = base64_Encode (PutUint64 n @ nonce @ sign key (PutUint64 n @ nonce))"

lemma MintToken_signed:
  "length key \<ge> MinSigningKeyLen \<Longrightarrow> MintToken key ttl now (Some nonce) =
     Inr (signed_token key (Unix (now + (if ttl \<le> 0 then defaultTokenTTL else ttl))) nonce)"
  by (simp add: MintToken_def signed_token_def Let_def)

lemma validate_decoded:
  "base64_Decode (TrimSpace token) = Some (p @ m) \<Longrightarrow> length p = tokenPayloadLen \<Longrightarrow> length m = tokenMACLen \<Longrightarrow>
   ValidateToken key token now =
     (if key = [] \<or> m \<noteq> sign key p then Some ErrTokenInvalid
      else if Unix now > get_int64 (take 8 p) then Some ErrTokenExpired else None)"
  by (auto simp: ValidateToken_def Let_def)

lemma validate_signed:
  assumes "length nonce = 8" "bytes_ok nonce" "- (2 ^ 63) \<le> n" "n < 2 ^ 63"
  shows "ValidateToken key' (signed_token key n nonce) now =
     (if key' = [] \<or> sign key (PutUint64 n @ nonce) \<noteq> sign key' (PutUint64 n @ nonce) then Some ErrTokenInvalid
      else if Unix now > n then Some ErrTokenExpired else None)"
proof -
  have "bytes_ok (PutUint64 n @ nonce @ sign key (PutUint64 n @ nonce))" using assms by (simp add: sign_def)
  then have "base64_Decode (TrimSpace (signed_token key n nonce)) = Some ((PutUint64 n @ nonce) @ sign key (PutUint64 n @ nonce))"
    by (simp add: signed_token_def TrimSpace_base64 base64_roundtrip)
  moreover have "length (PutUint64 n @ nonce) = tokenPayloadLen" "length (sign key (PutUint64 n @ nonce)) = tokenMACLen"
    using assms by (simp_all add: tokenPayloadLen_def tokenMACLen_def sign_def)
  moreover have "get_int64 (take 8 (PutUint64 n @ nonce)) = n" using get_PutUint64 [OF assms(3,4)] by simp
  ultimately show ?thesis by (simp only: validate_decoded)
qed

text \<open>Whatever the token, it is accepted only with the key's own MAC over a payload that has not expired.\<close>

lemma validate_accepts:
  "ValidateToken key token now = None \<longleftrightarrow>
     key \<noteq> [] \<and> (\<exists>payload. base64_Decode (TrimSpace token) = Some (payload @ sign key payload) \<and> length payload = tokenPayloadLen \<and>
       Unix now \<le> get_int64 (take 8 payload))"
proof
  assume a: "ValidateToken key token now = None"
  then obtain data where d: "base64_Decode (TrimSpace token) = Some data" "key \<noteq> []"
    by (auto simp: ValidateToken_def split: if_splits option.splits)
  let ?p = "take tokenPayloadLen data"
  have l: "length data = tokenPayloadLen + tokenMACLen" and m: "drop tokenPayloadLen data = sign key ?p"
    and e: "Unix now \<le> get_int64 (take 8 ?p)"
    using a d by (auto simp: ValidateToken_def Let_def split: if_splits)
  have "data = ?p @ sign key ?p" using m append_take_drop_id [of tokenPayloadLen data] by simp
  moreover have "length ?p = tokenPayloadLen" using l by simp
  ultimately show "key \<noteq> [] \<and> (\<exists>payload. base64_Decode (TrimSpace token) = Some (payload @ sign key payload) \<and> length payload = tokenPayloadLen \<and>
       Unix now \<le> get_int64 (take 8 payload))"
    using d e by metis
next
  assume "key \<noteq> [] \<and> (\<exists>payload. base64_Decode (TrimSpace token) = Some (payload @ sign key payload) \<and> length payload = tokenPayloadLen \<and>
       Unix now \<le> get_int64 (take 8 payload))"
  then show "ValidateToken key token now = None"
    by (auto simp: ValidateToken_def Let_def tokenMACLen_def sign_def)
qed

section \<open>Joining with a token\<close>

text \<open>How long a token from \<^verbatim>\<open>create-token\<close> lives.\<close>

definition lifetime :: "Configuration \<Rightarrow> duration \<Rightarrow> duration" where
  "lifetime cfg ttl =
     (let t = (if ttl \<le> 0 then bo_TokenTTL (cf_Bootstrap cfg) else ttl) in if t \<le> 0 then defaultTokenTTL else t)"

definition signing_key :: "(string \<Rightarrow> string option) \<Rightarrow> Configuration \<Rightarrow> bytes option" where
  "signing_key readFile cfg = ResolveSigningKey readFile (bo_SigningKey (cf_Bootstrap cfg)) (bo_SigningKeyFile (cf_Bootstrap cfg))"

definition advertised :: "Configuration \<Rightarrow> string list" where
  "advertised cfg = (if bo_AdvertiseSeeds (cf_Bootstrap cfg) = [] then cu_Seeds (cf_Cluster cfg) else bo_AdvertiseSeeds (cf_Bootstrap cfg))"

lemma create_token_signed:
  "create_token readFile cfg ttl now (Some nonce) = Inr token \<Longrightarrow>
   \<exists>key. signing_key readFile cfg = Some key \<and> length key \<ge> MinSigningKeyLen \<and>
     token = signed_token key (Unix (now + lifetime cfg ttl)) nonce"
  by (auto simp: create_token_def signing_key_def lifetime_def Let_def MintToken_def signed_token_def split: if_splits option.splits sum.splits)

lemma bootstrapRegistrar_service:
  "bootstrapRegistrar readFile cfg = Inr (Some svc) \<longleftrightarrow>
   bo_Enabled (cf_Bootstrap cfg) \<and> (\<exists>key. signing_key readFile cfg = Some key \<and> key \<noteq> [] \<and>
     svc = NewService cfg key (bo_AllowSeedJoin (cf_Bootstrap cfg)) (advertised cfg) (bo_RateLimit (cf_Bootstrap cfg)))"
  by (auto simp: bootstrapRegistrar_def signing_key_def advertised_def Let_def split: option.splits)

lemma first_allowed: "fst (Limiter_Allow now key (Some (Limiter_New n)))"
  by (simp add: Limiter_Allow_def Limiter_New_def Let_def count_of_def)

lemma GetConfig_allowed:
  "fst (Limiter_Allow now (PeerHost ctx) (bs_rrl s)) \<Longrightarrow>
   fst (GetConfig marshal now ctx role s) =
     (case ValidateToken (bs_signingKey s) (bootstrap_tokenFromMetadata ctx) now of
        Some err \<Rightarrow> Inl Unauthenticated
      | None \<Rightarrow>
          (let r = (if role = [] then RoleAgent else ToLower role) in
           if r \<notin> {RoleAgent, RoleSeed} then Inl (BadRoleRequested role)
           else if r = RoleSeed \<and> \<not> bs_allowSeedJoin s then Inl SeedJoinDisabled
           else case Render marshal (bs_cfg s) r (bs_seeds s) of None \<Rightarrow> Inl RenderFailed | Some body \<Rightarrow> Inr body))"
  by (cases "Limiter_Allow now (PeerHost ctx) (bs_rrl s)") (auto simp: GetConfig_def Let_def ToLower_def split: option.splits)

lemma GetConfig_limited:
  "\<not> fst (Limiter_Allow now (PeerHost ctx) (bs_rrl s)) \<Longrightarrow> fst (GetConfig marshal now ctx role s) = Inl RateExceeded"
  by (cases "Limiter_Allow now (PeerHost ctx) (bs_rrl s)") (simp add: GetConfig_def Let_def)

lemma Unix_mono: "a \<le> b \<Longrightarrow> Unix a \<le> Unix b"
  by (simp add: Unix_def zdiv_mono1)

lemma Unix_later: "a + second \<le> b \<Longrightarrow> Unix a < Unix b"
  unfolding Unix_def using zdiv_mono1 [of "a + second" b second] by simp

text \<open>The peer sends the token under \<^verbatim>\<open>bootstrap-token\<close>, as \<^verbatim>\<open>yp bootstrap\<close> does.\<close>

definition carries :: "PeerContext \<Rightarrow> string \<Rightarrow> bool" where
  "carries ctx token \<longleftrightarrow> (\<exists>md. cx_metadata ctx = Some md \<and> md_Get md ''bootstrap-token'' = [token])"

lemma carries_token: "carries ctx token \<Longrightarrow> TrimSpace token = token \<Longrightarrow> bootstrap_tokenFromMetadata ctx = token"
  by (auto simp: carries_def bootstrap_tokenFromMetadata_def Let_def)

text \<open>
  C33 (roundtrip). A token that \<^verbatim>\<open>yp bootstrap create-token\<close> mints from a configuration gets a joining node its
  configuration from any seed that was started with the same signing key: the first request with it
  is served for the whole lifetime of the token, and refused from a second after it. A seed with another key refuses
  it at any time, unless the two keys give the same MAC to the token's payload.
\<close>

theorem bootstrap_join:
  assumes mint: "create_token readFile cfg ttl now (Some nonce) = Inr token"
    and nonce: "length nonce = 8" "bytes_ok nonce"
    and range: "0 \<le> now" "now + lifetime cfg ttl < 2 ^ 63 * second"
    and seed: "bootstrapRegistrar readFile' cfg' = Inr (Some svc)"
    and ctx: "carries ctx token"
  shows "(signing_key readFile' cfg' = signing_key readFile cfg \<longrightarrow>
            (now' \<le> now + lifetime cfg ttl \<longrightarrow>
               fst (GetConfig marshal now' ctx ''agent'' svc) =
                 (case Render marshal cfg' RoleAgent (advertised cfg') of None \<Rightarrow> Inl RenderFailed | Some body \<Rightarrow> Inr body)) \<and>
            (now + lifetime cfg ttl + second \<le> now' \<longrightarrow> fst (GetConfig marshal now' ctx role svc) = Inl Unauthenticated)) \<and>
         (fst (GetConfig marshal now' ctx role svc) \<noteq> Inl Unauthenticated \<longrightarrow>
            (let payload = PutUint64 (Unix (now + lifetime cfg ttl)) @ nonce in
             sign (the (signing_key readFile' cfg')) payload = sign (the (signing_key readFile cfg)) payload))"
proof -
  let ?n = "Unix (now + lifetime cfg ttl)"
  obtain key where key: "signing_key readFile cfg = Some key" "length key \<ge> MinSigningKeyLen" and tok: "token = signed_token key ?n nonce"
    using create_token_signed [OF mint] by blast
  obtain key' where key': "signing_key readFile' cfg' = Some key'" "key' \<noteq> []"
    and svc: "svc = NewService cfg' key' (bo_AllowSeedJoin (cf_Bootstrap cfg')) (advertised cfg') (bo_RateLimit (cf_Bootstrap cfg'))"
    using seed by (auto simp: bootstrapRegistrar_service)
  have life: "lifetime cfg ttl > 0" by (simp add: lifetime_def Let_def defaultTokenTTL_def)
  have n: "- (2 ^ 63) \<le> ?n" "?n < 2 ^ 63" using range life by (auto simp: Unix_def div_less_iff_less_mult pos_imp_zdiv_nonneg_iff le_less_trans)
  have trim: "TrimSpace token = token"
    unfolding tok signed_token_def by (rule TrimSpace_base64) (simp add: nonce sign_def)
  have ok: "fst (Limiter_Allow now' (PeerHost ctx) (bs_rrl svc))" by (simp add: svc NewService_def first_allowed)
  note get = GetConfig_allowed [OF ok, unfolded carries_token [OF ctx trim]]
  have v: "ValidateToken (bs_signingKey svc) token now' =
      (if sign key (PutUint64 ?n @ nonce) \<noteq> sign key' (PutUint64 ?n @ nonce) then Some ErrTokenInvalid
       else if Unix now' > ?n then Some ErrTokenExpired else None)"
    using validate_signed [OF nonce n, of key' key now'] key'(2) by (simp add: tok svc NewService_def)
  have f: "bs_cfg svc = cfg'" "bs_seeds svc = advertised cfg'" by (simp_all add: svc NewService_def)
  have agent: "ToLower ''agent'' = RoleAgent" "RoleAgent \<noteq> RoleSeed" by code_simp+
  show ?thesis
    using key(1) key'(1) Unix_mono [of now' "now + lifetime cfg ttl"] Unix_later [of "now + lifetime cfg ttl" now']
    by (auto simp: get v f agent Let_def split: if_splits)
qed

definition ex_seed_written :: Configuration where
  "ex_seed_written = ex_written\<lparr>cf_Role := RoleSeed,
     cf_Bootstrap := (cf_Bootstrap ex_written)\<lparr>bo_Enabled := True, bo_SigningKey := ''0123456789abcdef0123456789abcdef''\<rparr>\<rparr>"

definition ex_seed_config :: Configuration where
  "ex_seed_config = applyDefaults ex_seed_written"

definition ex_key :: bytes where "ex_key = string_bytes ''0123456789abcdef0123456789abcdef''"

definition ex_nonce :: bytes where "ex_nonce = [1, 2, 3, 4, 5, 6, 7, 8]"

definition ex_token :: string where "ex_token = signed_token ex_key 30 ex_nonce"

definition ex_service :: BootService where
  "ex_service = NewService ex_seed_config ex_key False [''10.0.0.1:9900''] 10"

definition ex_peer :: PeerContext where
  "ex_peer = \<lparr>cx_peer = None, cx_metadata = Some (fmap_of_list [(''bootstrap-token'', [ex_token])]), pc_addr = Some ''10.0.0.7:40112''\<rparr>"

lemma ex_signing: "signing_key (\<lambda>_. None) ex_seed_config = Some ex_key" "lifetime ex_seed_config 0 = 30 * second"
  "advertised ex_seed_config = [''10.0.0.1:9900'']" "bo_Enabled (cf_Bootstrap ex_seed_config)" "bo_RateLimit (cf_Bootstrap ex_seed_config) = 10"
  "bo_AllowSeedJoin (cf_Bootstrap ex_seed_config) = False" "bo_TokenTTL (cf_Bootstrap ex_seed_config) = 30 * second"
  by code_simp+

lemma ex_key_long: "length ex_key = 32"
  by (simp add: ex_key_def string_bytes_def)

lemma ex_minted: "create_token (\<lambda>_. None) ex_seed_config 0 0 (Some ex_nonce) = Inr ex_token"
  using ex_signing(1) ex_key_long
  by (simp add: create_token_def ex_signing(4,7) signing_key_def MintToken_signed MinSigningKeyLen_def ex_token_def Unix_def)

lemma ex_registered: "bootstrapRegistrar (\<lambda>_. None) ex_seed_config = Inr (Some ex_service)"
  using ex_key_long by (auto simp: bootstrapRegistrar_service ex_signing ex_service_def)

lemma ex_carries: "carries ex_peer ex_token"
  by (simp add: carries_def ex_peer_def md_Get_def)

lemma ex_nonce_ok: "length ex_nonce = 8" "bytes_ok ex_nonce"
  by (simp_all add: ex_nonce_def bytes_ok_def)

theorem bootstrap_join_witness:
  "create_token (\<lambda>_. None) ex_seed_config 0 0 (Some ex_nonce) = Inr ex_token \<and>
   bootstrapRegistrar (\<lambda>_. None) ex_seed_config = Inr (Some ex_service) \<and> carries ex_peer ex_token \<and>
   fst (GetConfig (\<lambda>r. Some ''role: agent'') (30 * second) ex_peer ''agent'' ex_service) = Inr (renderHeader @ ''role: agent'') \<and>
   fst (GetConfig (\<lambda>r. Some ''role: agent'') (31 * second) ex_peer ''agent'' ex_service) = Inl Unauthenticated"
  using bootstrap_join [OF ex_minted ex_nonce_ok _ _ ex_registered ex_carries, of "30 * second" "\<lambda>r. Some ''role: agent''" "''agent''"]
    bootstrap_join [OF ex_minted ex_nonce_ok _ _ ex_registered ex_carries, of "31 * second" "\<lambda>r. Some ''role: agent''" "''agent''"]
    ex_minted ex_registered ex_carries
  by (simp add: ex_signing Render_def)

text \<open>
  C34 (safety). Nothing is served without a token that carries this seed's own MAC and has not expired, nothing above the rate limit,
  and no seed configuration unless the seed allows it. What is served does not depend on the
  node's credentials: with other certificate, key and token files, another signing key policy,
  another node name or data directory the answer to the same request would be the same.
\<close>

definition with_secrets :: "TLSConfig \<Rightarrow> ACLConfig \<Rightarrow> BootstrapConfig \<Rightarrow> string \<Rightarrow> string \<Rightarrow> Configuration \<Rightarrow> Configuration" where
  "with_secrets tls acl boot name dir c =
     c\<lparr>cf_TLS := tls\<lparr>tl_Enabled := tl_Enabled (cf_TLS c), tl_MutualTLS := tl_MutualTLS (cf_TLS c)\<rparr>,
       cf_ACL := acl\<lparr>ac_Mode := ac_Mode (cf_ACL c)\<rparr>, cf_Bootstrap := boot, cf_NodeName := name, cf_DataDir := dir\<rparr>"

lemma Render_with_secrets: "Render marshal (with_secrets tls acl boot name dir cfg) role seeds = Render marshal cfg role seeds"
  by (simp add: Render_def render_config_def with_secrets_def Let_def)

theorem bootstrap_guard:
  assumes "fst (GetConfig marshal now ctx role s) = Inr body"
  shows "fst (Limiter_Allow now (PeerHost ctx) (bs_rrl s)) \<and>
    (\<exists>payload. base64_Decode (TrimSpace (bootstrap_tokenFromMetadata ctx)) = Some (payload @ sign (bs_signingKey s) payload) \<and>
       length payload = tokenPayloadLen \<and> Unix now \<le> get_int64 (take 8 payload)) \<and>
    (ToLower role \<in> {[], RoleAgent} \<or> ToLower role = RoleSeed \<and> bs_allowSeedJoin s) \<and>
    fst (GetConfig marshal now ctx role (s\<lparr>bs_cfg := with_secrets tls acl boot name dir (bs_cfg s)\<rparr>)) = Inr body"
proof -
  have ok: "fst (Limiter_Allow now (PeerHost ctx) (bs_rrl s))"
    using assms GetConfig_limited [of now ctx s] by fastforce
  then have "fst (GetConfig marshal now ctx role (s\<lparr>bs_cfg := with_secrets tls acl boot name dir (bs_cfg s)\<rparr>)) =
      fst (GetConfig marshal now ctx role s)"
    by (simp add: GetConfig_allowed Render_with_secrets Let_def cong: option.case_cong if_cong)
  moreover have "ValidateToken (bs_signingKey s) (bootstrap_tokenFromMetadata ctx) now = None"
    using assms unfolding GetConfig_allowed [OF ok] by (auto split: option.splits)
  moreover have "ToLower role \<in> {[], RoleAgent} \<or> ToLower role = RoleSeed \<and> bs_allowSeedJoin s"
    using assms unfolding GetConfig_allowed [OF ok] by (auto simp: Let_def ToLower_def split: option.splits if_splits)
  ultimately show ?thesis using ok assms by (simp add: validate_accepts)
qed

lemma ex_served_by:
  "fst (GetConfig marshal (30 * second) ex_peer ''agent'' ex_service) =
     (case marshal (render_config ex_seed_config RoleAgent [''10.0.0.1:9900'']) of None \<Rightarrow> Inl RenderFailed | Some b \<Rightarrow> Inr (renderHeader @ b))"
proof -
  have ok: "fst (Limiter_Allow (30 * second) (PeerHost ex_peer) (bs_rrl ex_service))"
    by (simp add: ex_service_def NewService_def first_allowed)
  have "bytes_ok (PutUint64 30 @ ex_nonce @ sign ex_key (PutUint64 30 @ ex_nonce))" by (simp add: ex_nonce_ok sign_def)
  then have t: "bootstrap_tokenFromMetadata ex_peer = ex_token"
    using carries_token [OF ex_carries] by (simp add: ex_token_def signed_token_def TrimSpace_base64)
  have "ValidateToken (bs_signingKey ex_service) ex_token (30 * second) = None"
    using validate_signed [OF ex_nonce_ok, of 30 ex_key ex_key "30 * second"] ex_key_long
    by (auto simp: ex_token_def ex_service_def NewService_def Unix_def)
  then show ?thesis
    unfolding GetConfig_allowed [OF ok] t
    by (simp add: RoleAgent_def RoleSeed_def ToLower_def lower_char_def Render_def ex_service_def NewService_def split: option.splits)
qed

lemma ex_served:
  "fst (GetConfig (\<lambda>r. Some ''role: agent'') (30 * second) ex_peer ''agent'' ex_service) = Inr (renderHeader @ ''role: agent'')"
  unfolding ex_served_by by simp

theorem bootstrap_guard_witness:
  "fst (GetConfig (\<lambda>r. Some ''role: agent'') (30 * second) ex_peer ''agent'' ex_service) = Inr (renderHeader @ ''role: agent'') \<and>
   fst (GetConfig (\<lambda>r. Some ''role: agent'') (30 * second) ex_peer ''agent''
     (ex_service\<lparr>bs_cfg := with_secrets (cf_TLS ex_written) (cf_ACL ex_written) (cf_Bootstrap ex_written) ''n2'' ''/srv'' ex_seed_config\<rparr>)) =
     Inr (renderHeader @ ''role: agent'')"
  using bootstrap_guard [OF ex_served, of "cf_TLS ex_written" "cf_ACL ex_written" "cf_Bootstrap ex_written" "''n2''" "''/srv''"] ex_served
  by (simp add: ex_service_def NewService_def)

section \<open>What the joining node loads\<close>

text \<open>
  What the decoder reads from the printed document, by the field tags of both types: a duration through
  \<^verbatim>\<open>time.ParseDuration\<close>, an omitted field as its zero value.
\<close>

definition read_dur :: "string \<Rightarrow> duration option" where
  "read_dur s = (if s = [] then Some 0 else ParseDuration s)"

definition read_listener :: "rListener \<Rightarrow> Listener" where
  "read_listener l = \<lparr>li_Enabled = rl_Enabled l, li_Address = rl_Address l, li_Port = rl_Port l\<rparr>"

definition read_agent :: "rAgent option \<Rightarrow> AgentConfig option" where
  "read_agent ao =
     (case ao of
        None \<Rightarrow> Some (cf_Agent zero_config)
      | Some a \<Rightarrow>
          (case (read_dur (ra_SeedTimeout a), read_dur (ra_DrainWindow a), read_dur (ra_CacheMaxAge a)) of
             (Some st, Some dw, Some ca) \<Rightarrow>
               Some \<lparr>at_SeedTimeout = st, at_WriteQuorum = ra_WriteQuorum a, at_ReadyMinSeeds = ra_ReadyMinSeeds a,
                 at_DrainWindow = dw, at_CacheMaxAge = ca\<rparr>
           | _ \<Rightarrow> None))"

definition read_rendered :: "rendered \<Rightarrow> Configuration option" where
  "read_rendered r =
     (case (ParseDuration (re_TTL r), ParseDuration (re_HeartbeatInterval r), ParseDuration (re_ShutdownTimeout r), read_agent (re_Agent r)) of
        (Some ttl, Some hb, Some st, Some agent) \<Rightarrow>
          Some (zero_config\<lparr>cf_Role := re_Role r, cf_Datacenter := re_Datacenter r,
            cf_Cluster := \<lparr>cu_Name = rc_Name (re_Cluster r), cu_Seeds = rc_Seeds (re_Cluster r), cu_Discovery = None\<rparr>,
            cf_TTL := ttl, cf_HeartbeatInterval := hb, cf_ShutdownTimeout := st, cf_MaxServices := re_MaxServices r,
            cf_Listeners := \<lparr>ls_GRPC = read_listener (rls_GRPC (re_Listeners r)), ls_ConsulHTTP = read_listener (rls_ConsulHTTP (re_Listeners r)),
              ls_DNS = read_listener (rls_DNS (re_Listeners r)), ls_Metrics = read_listener (rls_Metrics (re_Listeners r))\<rparr>,
            cf_DNS := (case re_DNS r of None \<Rightarrow> cf_DNS zero_config
              | Some d \<Rightarrow> (cf_DNS zero_config)\<lparr>dz_Domain := rd_Domain d, dz_AltDomain := rd_AltDomain d\<rparr>),
            cf_Agent := agent,
            cf_TLS := (case re_TLS r of None \<Rightarrow> cf_TLS zero_config
              | Some t \<Rightarrow> (cf_TLS zero_config)\<lparr>tl_Enabled := rt_Enabled t, tl_MutualTLS := rt_MutualTLS t\<rparr>),
            cf_ACL := (case re_ACL r of None \<Rightarrow> cf_ACL zero_config | Some a \<Rightarrow> (cf_ACL zero_config)\<lparr>ac_Mode := rac_Mode a\<rparr>)\<rparr>)
      | _ \<Rightarrow> None)"

definition durations_ok :: "Configuration \<Rightarrow> bool" where
  "durations_ok c \<longleftrightarrow> in_int64 (cf_TTL c) \<and> in_int64 (cf_HeartbeatInterval c) \<and> in_int64 (cf_ShutdownTimeout c) \<and>
     in_int64 (at_SeedTimeout (cf_Agent c)) \<and> in_int64 (at_DrainWindow (cf_Agent c)) \<and> in_int64 (at_CacheMaxAge (cf_Agent c))"

text \<open>What the operator of the joining node adds: its certificate, its key, the authority and the token file.\<close>

definition provision :: "string \<Rightarrow> string \<Rightarrow> string \<Rightarrow> string \<Rightarrow> Configuration \<Rightarrow> Configuration" where
  "provision cert key ca tokens c =
     c\<lparr>cf_TLS := (cf_TLS c)\<lparr>tl_CertFile := cert, tl_KeyFile := key, tl_CAFile := ca\<rparr>, cf_ACL := (cf_ACL c)\<lparr>ac_TokensFile := tokens\<rparr>\<rparr>"

text \<open>The credentials a node of this cluster needs: none without TLS and ACL.\<close>

definition creds_for :: "Configuration \<Rightarrow> string \<Rightarrow> string \<Rightarrow> string \<Rightarrow> string \<Rightarrow> bool" where
  "creds_for cfg cert key ca tokens \<longleftrightarrow>
     (tl_Enabled (cf_TLS cfg) \<longrightarrow> \<not> blank cert \<and> \<not> blank key) \<and> (tl_MutualTLS (cf_TLS cfg) \<longrightarrow> \<not> blank ca) \<and>
     (ac_Mode (cf_ACL cfg) = ''enforce'' \<longrightarrow> tl_MutualTLS (cf_TLS cfg) \<or> \<not> blank tokens)"

lemma read_dur_str: "in_int64 d \<Longrightarrow> read_dur (durStr d) = Some d"
proof -
  assume d: "in_int64 d"
  have "ParseDuration [] = None" by (simp add: ParseDuration_def)
  then have "Duration_String d \<noteq> []" using duration_roundtrip [OF d] by auto
  then show ?thesis using duration_roundtrip [OF d] by (simp add: read_dur_def durStr_def)
qed

lemma read_agent_render:
  "durations_ok cfg \<Longrightarrow> read_agent (re_Agent (render_config cfg role seeds)) =
     Some (if role = RoleAgent then cf_Agent cfg else cf_Agent zero_config)"
  by (simp add: read_agent_def render_config_def durations_ok_def read_dur_str Let_def)

lemma read_rendered_render:
  assumes "well_typed cfg" "durations_ok cfg"
  shows "\<exists>c. read_rendered (render_config cfg role seeds) = Some c \<and>
    cf_Role c = role \<and> cf_Datacenter c = cf_Datacenter cfg \<and> cf_Cluster c = \<lparr>cu_Name = cu_Name (cf_Cluster cfg), cu_Seeds = seeds, cu_Discovery = None\<rparr> \<and>
    cf_TTL c = cf_TTL cfg \<and> cf_HeartbeatInterval c = cf_HeartbeatInterval cfg \<and> cf_ShutdownTimeout c = cf_ShutdownTimeout cfg \<and>
    (\<forall>l\<in>{ls_GRPC (cf_Listeners c), ls_ConsulHTTP (cf_Listeners c), ls_DNS (cf_Listeners c), ls_Metrics (cf_Listeners c)}.
       li_Address l = ''127.0.0.1'' \<and> li_Port l \<noteq> 0) \<and>
    cf_Agent c = (if role = RoleAgent then cf_Agent cfg else cf_Agent zero_config) \<and>
    tl_Enabled (cf_TLS c) = tl_Enabled (cf_TLS cfg) \<and> tl_MutualTLS (cf_TLS c) = tl_MutualTLS (cf_TLS cfg) \<and>
    (ac_Mode (cf_ACL c) = ac_Mode (cf_ACL cfg) \<or> ac_Mode (cf_ACL c) = [] \<and> ac_Mode (cf_ACL cfg) = ''disabled'') \<and> ac_DefaultPolicy (cf_ACL c) = [] \<and>
    dz_Domain (cf_DNS c) = dz_Domain (cf_DNS cfg) \<and> dz_AltDomain (cf_DNS c) = dz_AltDomain (cf_DNS cfg) \<and>
    cf_Bootstrap c = cf_Bootstrap zero_config \<and> cf_Federation c = cf_Federation zero_config \<and> cf_Membership c = cf_Membership zero_config"
proof -
  have d: "ParseDuration (Duration_String (cf_TTL cfg)) = Some (cf_TTL cfg)"
    "ParseDuration (Duration_String (cf_HeartbeatInterval cfg)) = Some (cf_HeartbeatInterval cfg)"
    "ParseDuration (Duration_String (cf_ShutdownTimeout cfg)) = Some (cf_ShutdownTimeout cfg)"
    using assms(2) by (simp_all add: durations_ok_def duration_roundtrip)
  have r: "re_TTL (render_config cfg role seeds) = Duration_String (cf_TTL cfg)"
    "re_HeartbeatInterval (render_config cfg role seeds) = Duration_String (cf_HeartbeatInterval cfg)"
    "re_ShutdownTimeout (render_config cfg role seeds) = Duration_String (cf_ShutdownTimeout cfg)"
    by (simp_all add: render_config_def Let_def)
  have p: "li_Port (ls_GRPC (cf_Listeners cfg)) \<noteq> 0" "li_Port (ls_ConsulHTTP (cf_Listeners cfg)) \<noteq> 0"
    "li_Port (ls_DNS (cf_Listeners cfg)) \<noteq> 0" "li_Port (ls_Metrics (cf_Listeners cfg)) \<noteq> 0"
    and t: "tl_MutualTLS (cf_TLS cfg) \<Longrightarrow> tl_Enabled (cf_TLS cfg)"
    using assms(1) by (auto simp: well_typed_def listener_ok_def tls_ok_def)
  show ?thesis
    unfolding read_rendered_def r d read_agent_render [OF assms(2)]
    using p t by (auto simp: render_config_def read_listener_def zero_config_def Let_def)
qed

lemma loopback_ok: "li_Address l = ''127.0.0.1'' \<Longrightarrow> li_Port l \<noteq> 0 \<Longrightarrow> listener_ok l \<and> defaultListener p l = l"
proof -
  have "\<not> blank ''127.0.0.1''" by code_simp
  then show "li_Address l = ''127.0.0.1'' \<Longrightarrow> li_Port l \<noteq> 0 \<Longrightarrow> listener_ok l \<and> defaultListener p l = l"
    by (simp add: listener_ok_def defaultListener_id)
qed

lemma agent_defaults_ok: "agent_ok (cf_Agent c) \<Longrightarrow> cf_Agent (applyDefaults c) = cf_Agent c"
  by (simp add: applyDefaults_def agent_ok_def or_default_def)

lemma agent_zero_ok: "cf_Agent c = cf_Agent zero_config \<Longrightarrow> agent_ok (cf_Agent (applyDefaults c))"
  by (simp add: applyDefaults_def agent_ok_def or_default_def) (simp add: zero_config_def Let_def)

text \<open>With its credentials in place, the configuration a seed renders loads.\<close>

lemma joined_well_typed:
  assumes w: "well_typed cfg" "durations_ok cfg" and c: "read_rendered (render_config cfg role seeds) = Some c"
    and role: "role \<in> {RoleAgent, RoleSeed}" and seeds: "seeds \<noteq> []"
    and creds: "creds_for cfg cert key ca tokens"
  shows "well_typed (applyDefaults (provision cert key ca tokens c))"
proof -
  let ?c = "applyDefaults (provision cert key ca tokens c)"
  note f = read_rendered_render [OF w, of role seeds, unfolded c]
  have def: "defaulted ?c" by (rule defaulted_applyDefaults)
  have ls: "listener_ok (ls_GRPC (cf_Listeners ?c))" "listener_ok (ls_ConsulHTTP (cf_Listeners ?c))"
    "listener_ok (ls_DNS (cf_Listeners ?c))" "listener_ok (ls_Metrics (cf_Listeners ?c))"
    using f by (auto simp: applyDefaults_def provision_def loopback_ok)
  have ag: "agent_ok (cf_Agent ?c)"
  proof (cases "role = RoleAgent")
    case True
    then have "agent_ok (cf_Agent (provision cert key ca tokens c))" using f w(1) by (auto simp: provision_def well_typed_def)
    then show ?thesis by (simp add: agent_defaults_ok)
  next
    case False
    then show ?thesis using f by (intro agent_zero_ok) (auto simp: provision_def)
  qed
  have g: "cf_Role c = role" "cf_TTL c = cf_TTL cfg" "cf_HeartbeatInterval c = cf_HeartbeatInterval cfg"
    "cf_ShutdownTimeout c = cf_ShutdownTimeout cfg" "tl_Enabled (cf_TLS c) = tl_Enabled (cf_TLS cfg)" "tl_MutualTLS (cf_TLS c) = tl_MutualTLS (cf_TLS cfg)"
    "ac_Mode (cf_ACL c) = ac_Mode (cf_ACL cfg) \<or> ac_Mode (cf_ACL c) = [] \<and> ac_Mode (cf_ACL cfg) = ''disabled''" "ac_DefaultPolicy (cf_ACL c) = []"
    "cf_Cluster c = \<lparr>cu_Name = cu_Name (cf_Cluster cfg), cu_Seeds = seeds, cu_Discovery = None\<rparr>"
    "cf_Bootstrap c = cf_Bootstrap zero_config"
    using f by auto
  have w': "cf_HeartbeatInterval cfg \<noteq> 0" "cf_TTL cfg \<noteq> 0" "cf_ShutdownTimeout cfg \<noteq> 0" "tls_ok (cf_TLS cfg)" "acl_ok cfg"
    using w(1) by (auto simp: well_typed_def)
  have m: "cf_Role ?c = role" "cf_Cluster ?c = cf_Cluster c" "cf_TTL ?c = cf_TTL cfg" "cf_HeartbeatInterval ?c = cf_HeartbeatInterval cfg"
    "cf_ShutdownTimeout ?c = cf_ShutdownTimeout cfg"
    using g(1-4,9) role w'(1-3) by (auto simp: applyDefaults_def provision_def or_default_def RoleAgent_def RoleSeed_def)
  have tl: "tls_ok (cf_TLS ?c)" using g(5,6) w'(4) creds by (auto simp: applyDefaults_def provision_def tls_ok_def creds_for_def)
  have ac: "acl_ok ?c" using g(6-8) w'(5) creds by (auto simp: applyDefaults_def provision_def acl_ok_def creds_for_def)
  have bo: "bootstrap_ok ?c"
    using g(10) by (simp add: applyDefaults_def provision_def bootstrap_ok_def or_default_def Let_def) (simp add: zero_config_def Let_def)
  show ?thesis
    using def ls ag tl ac bo w(1) role seeds unfolding well_typed_def m g(9) defaulted_def by simp
qed

lemma served_body:
  "fst (GetConfig marshal now ctx role s) = Inr body \<Longrightarrow>
   \<exists>r. r \<in> {RoleAgent, RoleSeed} \<and> (r = RoleSeed \<longleftrightarrow> ToLower role = RoleSeed) \<and> Render marshal (bs_cfg s) r (bs_seeds s) = Some body"
proof -
  assume a: "fst (GetConfig marshal now ctx role s) = Inr body"
  then have ok: "fst (Limiter_Allow now (PeerHost ctx) (bs_rrl s))" using GetConfig_limited [of now ctx s] by fastforce
  have "RoleAgent \<noteq> RoleSeed" "RoleSeed \<noteq> []" by (simp_all add: RoleAgent_def RoleSeed_def)
  then show ?thesis
    using a unfolding GetConfig_allowed [OF ok] by (auto simp: Let_def ToLower_def split: option.splits if_splits)
qed

text \<open>
  C35 (functional). What a joining node receives from a running seed is a configuration it can start with: once the
  credentials the cluster asks for are filled in (none without TLS and ACL), it loads, with the
  requested role, the cluster's name, the advertised seeds and the seed's lease times. The hypothesis on the
  YAML library is that it decodes the document it printed field by field.
\<close>

theorem joined_config:
  assumes loaded: "Parse ext data = Inr cfg" "durations_ok cfg" and seed: "bootstrapRegistrar readFile cfg = Inr (Some svc)"
    and served: "fst (GetConfig marshal now ctx role (svc\<lparr>bs_rrl := limiter\<rparr>)) = Inr body"
    and yaml: "\<And>r b. marshal r = Some b \<Longrightarrow> unmarshal (renderHeader @ b) = (case read_rendered r of Some c \<Rightarrow> Decoded c | None \<Rightarrow> DecodeError)"
    and creds: "creds_for cfg cert key ca tokens"
  shows "\<exists>written c. unmarshal body = Decoded written \<and> Parse ''.yaml'' (Decoded (provision cert key ca tokens written)) = Inr c \<and>
     cf_Role c = (if ToLower role = RoleSeed then RoleSeed else RoleAgent) \<and> cu_Name (cf_Cluster c) = cu_Name (cf_Cluster cfg) \<and>
     cu_Seeds (cf_Cluster c) = advertised cfg \<and> cf_TTL c = cf_TTL cfg \<and> cf_HeartbeatInterval c = cf_HeartbeatInterval cfg"
proof -
  have w: "well_typed cfg" using loaded(1) by (simp add: Parse_iff)
  have svc: "bs_cfg svc = cfg" "bs_seeds svc = advertised cfg" "bo_Enabled (cf_Bootstrap cfg)"
    using seed by (auto simp: bootstrapRegistrar_service NewService_def)
  obtain r where r: "r \<in> {RoleAgent, RoleSeed}" "r = RoleSeed \<longleftrightarrow> ToLower role = RoleSeed" and b: "Render marshal cfg r (advertised cfg) = Some body"
    using served_body [OF served] svc by auto
  then obtain b' where b': "marshal (render_config cfg r (advertised cfg)) = Some b'" "body = renderHeader @ b'" by (auto simp: Render_def)
  have seeds: "advertised cfg \<noteq> []" using w svc(3) by (auto simp: well_typed_def bootstrap_ok_def advertised_def Let_def)
  obtain c where c: "read_rendered (render_config cfg r (advertised cfg)) = Some c" and f: "cf_Role c = r" "cf_TTL c = cf_TTL cfg"
    "cf_HeartbeatInterval c = cf_HeartbeatInterval cfg" "cu_Name (cf_Cluster c) = cu_Name (cf_Cluster cfg)" "cu_Seeds (cf_Cluster c) = advertised cfg"
    using read_rendered_render [OF w loaded(2), of r "advertised cfg"] by auto
  let ?c = "applyDefaults (provision cert key ca tokens c)"
  have "well_typed ?c" by (rule joined_well_typed [OF w loaded(2) c r(1) seeds creds])
  moreover have "ToLower ''.yaml'' = ''.yaml''" by code_simp
  ultimately have "Parse ''.yaml'' (Decoded (provision cert key ca tokens c)) = Inr ?c" by (auto simp: Parse_iff)
  moreover have "cf_HeartbeatInterval cfg \<noteq> 0" "cf_TTL cfg \<noteq> 0" using w by (auto simp: well_typed_def)
  then have "cf_Role ?c = r" "cf_TTL ?c = cf_TTL cfg" "cf_HeartbeatInterval ?c = cf_HeartbeatInterval cfg"
    "cu_Name (cf_Cluster ?c) = cu_Name (cf_Cluster cfg)" "cu_Seeds (cf_Cluster ?c) = advertised cfg"
    using f r(1) by (auto simp: applyDefaults_def provision_def or_default_def RoleAgent_def RoleSeed_def)
  moreover have "unmarshal body = Decoded c" using yaml [OF b'(1)] b'(2) c by simp
  moreover have "r = (if ToLower role = RoleSeed then RoleSeed else RoleAgent)" using r by auto
  ultimately show ?thesis by metis
qed

definition ex_rendered :: rendered where
  "ex_rendered = render_config ex_seed_config RoleAgent [''10.0.0.1:9900'']"

definition ex_marshal :: "rendered \<Rightarrow> string option" where
  "ex_marshal r = (if r = ex_rendered then Some ''role: agent'' else None)"

definition ex_unmarshal :: "string \<Rightarrow> decoded" where
  "ex_unmarshal doc = (case read_rendered ex_rendered of Some c \<Rightarrow> Decoded c | None \<Rightarrow> DecodeError)"

theorem joined_config_witness:
  "\<exists>written c. ex_unmarshal (renderHeader @ ''role: agent'') = Decoded written \<and> Parse ''.yaml'' (Decoded (provision [] [] [] [] written)) = Inr c \<and>
     cf_Role c = RoleAgent \<and> cu_Name (cf_Cluster c) = ''prod'' \<and> cu_Seeds (cf_Cluster c) = [''10.0.0.1:9900''] \<and>
     cf_TTL c = 30 * second \<and> cf_HeartbeatInterval c = 10 * second"
proof -
  have loaded: "Parse ''.yaml'' (Decoded ex_seed_written) = Inr ex_seed_config" "durations_ok ex_seed_config" "creds_for ex_seed_config [] [] [] []"
    by code_simp+
  have served: "fst (GetConfig ex_marshal (30 * second) ex_peer ''agent'' (ex_service\<lparr>bs_rrl := bs_rrl ex_service\<rparr>)) = Inr (renderHeader @ ''role: agent'')"
    using ex_served_by [of ex_marshal] by (simp add: ex_marshal_def ex_rendered_def)
  have cfg: "cu_Name (cf_Cluster ex_seed_config) = ''prod''" "cf_TTL ex_seed_config = 30 * second" "cf_HeartbeatInterval ex_seed_config = 10 * second"
    "ToLower ''agent'' \<noteq> RoleSeed"
    by code_simp+
  have "ex_marshal r = Some b \<Longrightarrow> ex_unmarshal (renderHeader @ b) = (case read_rendered r of Some c \<Rightarrow> Decoded c | None \<Rightarrow> DecodeError)" for r b
    by (simp add: ex_marshal_def ex_unmarshal_def split: if_splits)
  with joined_config [where marshal = ex_marshal and unmarshal = ex_unmarshal, OF loaded(1,2) ex_registered served _ loaded(3)] show ?thesis
    by (simp add: cfg ex_signing)
qed

text \<open>
  The floor on the length of the signing key is a check of the minting alone: a seed starts with a key of one
  byte and accepts what that key signs.
\<close>

lemma short_key_served:
  assumes "bo_Enabled (cf_Bootstrap cfg)" "signing_key readFile cfg = Some [k]" "length nonce = 8" "bytes_ok nonce" "0 \<le> n" "n < 2 ^ 63"
  shows "\<exists>svc. bootstrapRegistrar readFile cfg = Inr (Some svc) \<and> (Unix now \<le> n \<longrightarrow> ValidateToken (bs_signingKey svc) (signed_token [k] n nonce) now = None)"
  using assms by (simp add: bootstrapRegistrar_service NewService_def validate_signed)

end
