(* ===== verification/Wiring.thy ===== *)
theory Wiring
  imports App CertReload Agent AgentWatch Dns Syncer SeedProvider Bootstrap
begin

text \<open>
  \<^verbatim>\<open>cmd/yp/root.go\<close>: how a node is put together from its configuration. The components are those of the other theories;
  here are the options they are built with, their order, and what follows for the node as a whole.
  Dialling, the files and the random bytes are parameters.
\<close>

section \<open>Security\<close>

record security =
  se_nodeID :: string
  se_creds :: "tlsCreds option"
  se_identity :: Identity
  se_authz :: Authorizer

datatype security_error = SecNodeID NodeIDError | SecTLS tls_error | SecTokens TokensError | SecMode string

definition setupSecurity :: "8 word list option \<Rightarrow> bool \<Rightarrow> bool \<Rightarrow> Disk \<Rightarrow> (string \<Rightarrow> smap option) \<Rightarrow> Configuration \<Rightarrow> (string \<rightharpoonup> string)
    \<Rightarrow> (security_error + security) \<times> (string \<rightharpoonup> string)" where
  "setupSecurity rnd mkdir_ok write_ok disk yaml cfg fs =
     (case NodeID rnd mkdir_ok write_ok (cf_NodeName cfg) (cf_DataDir cfg) fs of
        (Inl err, fs) \<Rightarrow> (Inl (SecNodeID err), fs)
      | (Inr nodeID, fs) \<Rightarrow>
          (let t = cf_TLS cfg;
               rest = (\<lambda>creds.
                 case LoadTokens yaml fs (ac_TokensFile (cf_ACL cfg)) of
                   Inl err \<Rightarrow> Inl (SecTokens err)
                 | Inr tokens \<Rightarrow>
                     (case ParseMode (ac_Mode (cf_ACL cfg)) of
                        Inl s \<Rightarrow> Inl (SecMode s)
                      | Inr mode \<Rightarrow> Inr \<lparr>se_nodeID = nodeID, se_creds = creds, se_identity = NewIdentity tokens, se_authz = NewAuthorizer mode\<rparr>))
           in if tl_Enabled t
              then (case NewTLS disk (tl_CertFile t) (tl_KeyFile t) (tl_CAFile t) (tl_MutualTLS t) of
                      Inl err \<Rightarrow> (Inl (SecTLS err), fs)
                    | Inr creds \<Rightarrow> (rest (Some creds), fs))
              else (rest None, fs)))"

section \<open>The surfaces\<close>

definition ttlSeconds :: "duration \<Rightarrow> uint32" where
  "ttlSeconds d =
     (let s = (if d \<ge> 0 then d div second else - ((- d) div second)) in
      if s < 0 then 0 else if s > 0xffffffff then 0xffffffff else of_int s)"

definition dnsComponent :: "Configuration \<Rightarrow> DnsConfig option" where
  "dnsComponent cfg =
     (if \<not> li_Enabled (ls_DNS (cf_Listeners cfg)) then None
      else Some (Dns_NewHandler
        \<lparr>dn_Domain = dz_Domain (cf_DNS cfg), dn_AltDomain = dz_AltDomain (cf_DNS cfg), dn_Datacenter = cf_Datacenter cfg,
         dn_ServiceTTL = ttlSeconds (dz_ServiceTTL (cf_DNS cfg)), dn_NodeTTL = ttlSeconds (dz_NodeTTL (cf_DNS cfg)),
         dn_ARecordLimit = dz_ARecordLimit (cf_DNS cfg), dn_Truncate = dz_EnableTruncate (cf_DNS cfg), dn_RateLimit = dz_RateLimit (cf_DNS cfg)\<rparr>))"

text \<open>The datacenters in the order in which the range visits the map.\<close>

definition federatedDCs :: "string list \<Rightarrow> Configuration \<Rightarrow> string list" where
  "federatedDCs order cfg =
     (if \<not> fe_Enabled (cf_Federation cfg) then [] else filter (\<lambda>dc. dc \<noteq> cf_Datacenter cfg) order)"

definition consulComponent :: "string \<Rightarrow> string list \<Rightarrow> Configuration \<Rightarrow> Node \<Rightarrow> string list \<Rightarrow> security
    \<Rightarrow> (string \<times> string \<times> string) list option \<Rightarrow> (Handler \<times> Limiter) option" where
  "consulComponent vsn order cfg node seeds sec members =
     (if \<not> li_Enabled (ls_ConsulHTTP (cf_Listeners cfg)) then None
      else Some
        (\<lparr>ha_info = \<lparr>ni_ID = n_ID node, ni_Name = cf_NodeName cfg, ni_Datacenter = cf_Datacenter cfg, ni_Address = n_Address node,
            ni_Version = vsn, ni_Seeds = seeds, ni_Federated = federatedDCs order cfg\<rparr>,
          ha_identity = se_identity sec, ha_authz = Some (se_authz sec), ha_dumper = True, ha_members = members,
          ha_maxWaiters = NewHandler_maxWaiters 0\<rparr>,
         Limiter_New (cf_ConsulRateLimit cfg)))"

definition listenerState :: "Listener \<Rightarrow> string" where
  "listenerState l = (if \<not> li_Enabled l then ''disabled'' else Listener_Addr l)"

section \<open>The components of a node\<close>

datatype kind =
    MetricsServer | GrpcServerC | StoreGC | SyncerC | ConsulHTTP | ConsulDNS | ServiceDefs
  | FederationC | DeregistrarC | ReadinessProbeC | RenewLoopC | RefreshLoopC | FlusherC | CheckMonitor

datatype build_error = BootstrapError registrar_error | DialPeers NewError | AgentNoSeeds | DialSeeds NewError | DialDatacenter string NewError

definition node_of :: "Configuration \<Rightarrow> security \<Rightarrow> Node" where
  "node_of cfg sec =
     Node_zero\<lparr>n_ID := se_nodeID sec, n_Name := cf_NodeName cfg, n_Address := li_Address (ls_GRPC (cf_Listeners cfg)), n_Datacenter := cf_Datacenter cfg\<rparr>"

definition seed_options :: "Configuration \<Rightarrow> Options" where
  "seed_options cfg =
     \<lparr>o_DefaultTTL = cf_TTL cfg, o_MinTTL = 0, o_MaxTTL = 0, o_GracePeriod = 0, o_StartIndex = 0, o_MaxServices = cf_MaxServices cfg, o_OnChange = True\<rparr>"

definition optional :: "bool \<Rightarrow> kind \<Rightarrow> kind list" where
  "optional b k = (if b then [k] else [])"

record SeedNode =
  sn_store :: Memory
  sn_watcher :: Watcher
  sn_node :: Node
  sn_server :: GrpcServer
  sn_bootstrap :: "BootService option"
  sn_gcInterval :: duration
  sn_syncer :: "Syncer option"
  sn_components :: "kind list"

definition gateReadiness :: "Configuration \<Rightarrow> bool" where
  "gateReadiness cfg \<longleftrightarrow> mb_Enabled (cf_Membership cfg) \<and> length (mb_Peers (cf_Membership cfg)) > 0"

definition buildSeed :: "(string \<Rightarrow> string option) \<Rightarrow> (string \<Rightarrow> bool) \<Rightarrow> Configuration \<Rightarrow> security \<Rightarrow> build_error + SeedNode" where
  "buildSeed readFile dial cfg sec =
     (case bootstrapRegistrar readFile cfg of
        Inl err \<Rightarrow> Inl (BootstrapError err)
      | Inr boot \<Rightarrow>
          (let gate = gateReadiness cfg;
               built = (\<lambda>syncer.
                 \<lparr>sn_store = NewMemory (seed_options cfg), sn_watcher = Watcher_New 0, sn_node = node_of cfg sec,
                  sn_server = Grpc_NewComponent 0 gate, sn_bootstrap = boot, sn_gcInterval = GCLoop_interval (cf_HeartbeatInterval cfg),
                  sn_syncer = syncer,
                  sn_components = optional (li_Enabled (ls_Metrics (cf_Listeners cfg))) MetricsServer @ [GrpcServerC, StoreGC] @
                    optional gate SyncerC @ optional (li_Enabled (ls_ConsulHTTP (cf_Listeners cfg))) ConsulHTTP @
                    optional (li_Enabled (ls_DNS (cf_Listeners cfg))) ConsulDNS @ optional (cf_ConfigDir cfg \<noteq> []) ServiceDefs\<rparr>)
           in if gate
              then (case SeedClient_New dial (mb_Peers (cf_Membership cfg)) (at_SeedTimeout (cf_Agent cfg)) of
                      Inl err \<Rightarrow> Inl (DialPeers err)
                    | Inr peers \<Rightarrow>
                        Inr (built (Some (Syncer_New (Listener_Addr (ls_GRPC (cf_Listeners cfg))) peers (mb_SyncInterval (cf_Membership cfg)) True))))
              else Inr (built None)))"

record AgentNode =
  ax_client :: SeedClient
  ax_proxy :: Proxy
  ax_watcher :: Watcher
  ax_server :: GrpcServer
  ax_minSeeds :: int
  ax_renewInterval :: duration
  ax_refreshInterval :: duration
  ax_monitor :: Monitor
  ax_components :: "kind list"

definition buildAgent :: "(string \<Rightarrow> bool) \<Rightarrow> (string \<times> string list) list \<Rightarrow> files \<Rightarrow> Configuration \<Rightarrow> security \<Rightarrow> string list \<Rightarrow> build_error + AgentNode" where
  "buildAgent dial dcs fs cfg sec seeds =
     (if length seeds = 0 then Inl AgentNoSeeds
      else case SeedClient_New dial seeds (at_SeedTimeout (cf_Agent cfg)) of
        Inl err \<Rightarrow> Inl (DialSeeds err)
      | Inr client \<Rightarrow>
          (let fed = fe_Enabled (cf_Federation cfg); monitor = Monitor_New (cf_EnableScriptChecks cfg);
               built = (\<lambda>pool.
                 \<lparr>ax_client = client,
                  ax_proxy = SetCheckGate (Some (Active monitor))
                    (NewProxy client (node_of cfg sec) (at_WriteQuorum (cf_Agent cfg)) (Some (NewCache (at_CacheMaxAge (cf_Agent cfg)) True)) pool),
                  ax_watcher = Watcher_New (LoadBase (cf_DataDir cfg) fs), ax_server = Grpc_NewComponent (at_DrainWindow (cf_Agent cfg)) False,
                  ax_minSeeds = NewReadinessProbe (at_ReadyMinSeeds (cf_Agent cfg)), ax_renewInterval = cf_HeartbeatInterval cfg,
                  ax_refreshInterval = at_CacheMaxAge (cf_Agent cfg), ax_monitor = monitor,
                  ax_components = optional (li_Enabled (ls_Metrics (cf_Listeners cfg))) MetricsServer @ optional fed FederationC @
                    [DeregistrarC, GrpcServerC, ReadinessProbeC, RenewLoopC, RefreshLoopC, FlusherC, CheckMonitor] @
                    optional (li_Enabled (ls_ConsulHTTP (cf_Listeners cfg))) ConsulHTTP @
                    optional (li_Enabled (ls_DNS (cf_Listeners cfg))) ConsulDNS @ optional (cf_ConfigDir cfg \<noteq> []) ServiceDefs\<rparr>)
           in if fed
              then (case NewPool dial (cf_Datacenter cfg) (fe_MaxHops (cf_Federation cfg)) dcs (at_SeedTimeout (cf_Agent cfg)) of
                      Inl (dc, err) \<Rightarrow> Inl (DialDatacenter dc err)
                    | Inr pool \<Rightarrow> Inr (built (Some pool)))
              else Inr (built None)))"

definition runConfig :: "string \<Rightarrow> decoded option \<Rightarrow> string \<Rightarrow> load_error + Configuration" where
  "runConfig path file roleFlag =
     (case Load path file of
        Inl err \<Rightarrow> Inl err
      | Inr cfg \<Rightarrow>
          if roleFlag \<noteq> []
          then (let cfg = cfg\<lparr>cf_Role := roleFlag\<rparr>; errs = Validate cfg in if errs = [] then Inr cfg else Inl (Invalid errs))
          else Inr cfg)"

section \<open>Leases between heartbeats\<close>

text \<open>
  What happens on a seed to one service while its agent is alive: renewals of it, each at most a
  heartbeat after the one before, garbage collection, and whatever else leaves the service alone.
\<close>

inductive heartbeats :: "string \<Rightarrow> string \<Rightarrow> duration \<Rightarrow> time \<Rightarrow> Memory \<Rightarrow> time \<Rightarrow> Memory \<Rightarrow> bool" for nid sid hb t0 m0 where
  start [step_intros]: "heartbeats nid sid hb t0 m0 t0 m0"
| beat [step_intros]: "heartbeats nid sid hb t0 m0 seen m \<Longrightarrow> seen \<le> now \<Longrightarrow> now \<le> seen + hb \<Longrightarrow>
    Memory_Renew now nid ids m = (None, m') \<Longrightarrow> sid \<in> set ids \<Longrightarrow> heartbeats nid sid hb t0 m0 now m'"
| sweep [step_intros]: "heartbeats nid sid hb t0 m0 seen m \<Longrightarrow> seen \<le> now \<Longrightarrow> now \<le> seen + hb \<Longrightarrow> gc_order m order \<Longrightarrow>
    Memory_GC order now evclk m = (n, es, m') \<Longrightarrow> heartbeats nid sid hb t0 m0 seen m'"
| other [step_intros]: "heartbeats nid sid hb t0 m0 seen m \<Longrightarrow> mem_step m es m' \<Longrightarrow> svc_at m' nid sid = svc_at m nid sid \<Longrightarrow> heartbeats nid sid hb t0 m0 seen m'"

definition leased :: "string \<Rightarrow> string \<Rightarrow> duration \<Rightarrow> time \<Rightarrow> Memory \<Rightarrow> bool" where
  "leased nid sid ttl seen m \<longleftrightarrow>
     (\<exists>svc. svc_at m nid sid = Some svc \<and> \<not> sv_failed svc \<and> s_LastSeen (sv_def svc) = seen \<and> s_TTL (sv_def svc) = ttl)"

lemma time_Sub_between: "seen \<le> now \<Longrightarrow> now \<le> seen + ttl \<Longrightarrow> time_Sub now seen \<le> ttl"
  by (auto simp: time_Sub_def min_duration_def max_duration_def)

lemma lease_between:
  "\<not> sv_failed svc \<Longrightarrow> s_LastSeen (sv_def svc) \<le> now \<Longrightarrow> now \<le> s_LastSeen (sv_def svc) + s_TTL (sv_def svc) \<Longrightarrow>
   lease opts svc now = (HealthPassing, False)"
  by (simp add: lease_def time_Sub_between)

lemma heartbeats_reach: "heartbeats nid sid hb t0 m0 seen m \<Longrightarrow> mem_reach opts es0 m0 \<Longrightarrow> \<exists>es. mem_reach opts es m"
proof (induction rule: heartbeats.induct)
  case (beat seen m now ids m')
  then show ?case using mem_reach.reach_step [OF _ mem_step.Renew] by blast
next
  case (sweep seen m now order evclk n es m')
  then show ?case using mem_reach.reach_step [OF _ mem_step.GC] by blast
next
  case (other seen m es m')
  then show ?case using mem_reach.reach_step by blast
qed auto

lemma Memory_Renew_at:
  assumes "Memory_Renew now nid ids m = (None, m')" "sid \<in> set ids"
  shows "svc_at m' nid sid = map_option (renew_svc now) (svc_at m nid sid)"
proof -
  have "renew_loop now nid ids m = (None, m')"
    using assms by (auto simp: Memory_Renew_def split: option.splits if_splits)
  from renew_loop_effect [OF this] show ?thesis using assms(2) by simp
qed

lemma heartbeats_leased:
  assumes "heartbeats nid sid hb t0 m0 seen m" "leased nid sid ttl t0 m0" "hb < ttl"
  shows "leased nid sid ttl seen m"
  using assms
proof (induction rule: heartbeats.induct)
  case (beat seen m now ids m')
  then obtain svc where svc: "svc_at m nid sid = Some svc" "s_TTL (sv_def svc) = ttl" by (auto simp: leased_def)
  have "svc_at m' nid sid = Some (renew_svc now svc)"
    using Memory_Renew_at [OF beat(4,5)] svc(1) by simp
  then show ?case using svc(2) by (simp add: leased_def renew_svc_def)
next
  case (sweep seen m now order evclk n es m')
  then obtain svc where svc: "svc_at m nid sid = Some svc" "\<not> sv_failed svc" "s_LastSeen (sv_def svc) = seen" "s_TTL (sv_def svc) = ttl"
    by (auto simp: leased_def)
  have "lease (m_opts m) svc now = (HealthPassing, False)" using svc sweep(2,3,8) by (intro lease_between) auto
  then obtain svc' where "svc_at m' nid sid = Some svc'" "strip svc' = strip (svc\<lparr>sv_lastState := HealthPassing\<rparr>)"
    using Memory_GC_effect(2) [OF sweep(4,5), of nid sid] svc(1) by (auto simp: collected_def)
  moreover from this(2) have "sv_failed svc' = sv_failed svc" "sv_def svc' = sv_def svc"
    by (cases svc, cases svc', simp add: strip_def)+
  ultimately show ?case using svc by (simp add: leased_def)
qed (auto simp: leased_def)

lemma opts_reach: "mem_reach opts es m \<Longrightarrow> m_opts m = m_opts (NewMemory opts)"
proof (induction rule: mem_reach.induct)
  case (reach_step es m es' m')
  then obtain raw where "msteps m raw m'" using mem_step_msteps ids_ok_reach by blast
  then show ?case using reach_step m_opts_msteps by metis
qed simp

lemma seed_opts: "cf_TTL cfg > 0 \<Longrightarrow> m_opts (NewMemory (seed_options cfg)) = seed_options cfg"
  by (simp add: NewMemory_def seed_options_def Let_def)

text \<open>Without grace a lease that has lapsed has expired: the service is never shown as critical.\<close>

lemma lease_lapsed:
  assumes "\<not> sv_failed svc" "s_LastSeen (sv_def svc) + s_TTL (sv_def svc) < now" "now \<le> s_LastSeen (sv_def svc) + max_duration"
    "in_int64 (s_TTL (sv_def svc))" "0 \<le> s_TTL (sv_def svc)"
  shows "lease (seed_options cfg) svc now = (HealthCritical, True)"
proof -
  have "time_Sub now (s_LastSeen (sv_def svc)) = now - s_LastSeen (sv_def svc)"
    using assms by (auto simp: time_Sub_def in_int64_def min_duration_def max_duration_def)
  moreover have "dur_add (s_TTL (sv_def svc)) 0 = s_TTL (sv_def svc)" using assms(4) by (simp add: dur_add_def wrap64_id)
  ultimately show ?thesis using assms by (simp add: lease_def seed_options_def)
qed

text \<open>
  On a seed started from a loaded configuration, a service that was registered
  without a lease of its own stays in every answer, passing, as long as each renewal of it
  comes within a heartbeat of the one before, whatever else the seed does meanwhile; and once its agent has been silent for
  longer than the TTL no answer contains it.
\<close>

lemma heartbeats_shown:
  assumes loaded: "Parse ext data = Inr cfg" "in_int64 (cf_TTL cfg)" and built: "buildSeed readFile dial cfg sec = Inr sn"
    and reach: "mem_reach (m_opts (sn_store sn)) es m0" and svc: "leased nid sid (cf_TTL cfg) t0 m0"
    and alive: "heartbeats nid sid hb t0 m0 seen m" "hb < cf_TTL cfg"
  shows "(seen \<le> now \<and> now \<le> seen + cf_TTL cfg \<longrightarrow>
            (\<exists>e\<in>set (lr_Entries (Memory_Lookup now Query_zero m)). entry_id e = (nid, sid) \<and> e_Health e = HealthPassing)) \<and>
         (seen + cf_TTL cfg < now \<and> now \<le> seen + max_duration \<longrightarrow>
            (\<forall>e\<in>set (lr_Entries (Memory_Lookup now q m)). entry_id e \<noteq> (nid, sid)))"
proof -
  have cfg: "0 < cf_TTL cfg" using loaded(1) by (auto simp: Parse_iff well_typed_def)
  have st: "m_opts (sn_store sn) = seed_options cfg"
    using built seed_opts [OF cfg] by (auto simp: buildSeed_def Let_def split: sum.splits if_splits)
  obtain es' where r: "mem_reach (seed_options cfg) es' m" using heartbeats_reach [OF alive(1)] reach st by auto
  have o: "m_opts m = seed_options cfg" using opts_reach [OF r] seed_opts [OF cfg] by simp
  obtain s where s: "svc_at m nid sid = Some s" "\<not> sv_failed s" "s_LastSeen (sv_def s) = seen" "s_TTL (sv_def s) = cf_TTL cfg"
    using heartbeats_leased [OF alive(1) svc alive(2)] by (auto simp: leased_def)
  obtain meta where meta: "meta_at m nid = Some meta" using svc_at_meta [OF s(1)] by auto
  have ok: "ids_ok m" "names_ok m" using registry_ok_reach [OF r] by (auto simp: registry_ok_def)
  have "seen \<le> now \<and> now \<le> seen + cf_TTL cfg \<Longrightarrow>
      \<exists>e\<in>set (lr_Entries (Memory_Lookup now Query_zero m)). entry_id e = (nid, sid) \<and> e_Health e = HealthPassing"
  proof -
    assume "seen \<le> now \<and> now \<le> seen + cf_TTL cfg"
    then have l: "lease (m_opts m) s now = (HealthPassing, False)" using s o by (simp add: lease_between)
    have "answer m now meta s \<in> set (lr_Entries (Memory_Lookup now Query_zero m))"
      unfolding set_Lookup [OF ok(2)]
      by (intro CollectI exI conjI, rule refl, rule meta, rule s(1)) (simp_all add: asked_def live_def Query_zero_def l)
    then show ?thesis using l s(1) meta ok(1) by (intro bexI) (auto simp: answer_def entry_def ids_ok_def)
  qed
  moreover have "entry_id e \<noteq> (nid, sid)" if a: "seen + cf_TTL cfg < now \<and> now \<le> seen + max_duration" "e \<in> set (lr_Entries (Memory_Lookup now q m))" for e
  proof
    assume e: "entry_id e = (nid, sid)"
    obtain nid' sid' meta' s' where e': "e = answer m now meta' s'" "meta_at m nid' = Some meta'" "svc_at m nid' sid' = Some s'" "live m now s'"
      using a(2) ok(2) by (auto simp: set_Lookup)
    then have "nid' = nid" "sid' = sid" using e ok(1) by (auto simp: answer_def entry_def ids_ok_def)
    then have "s' = s" using e'(3) s(1) by simp
    then show False using e'(4) lease_lapsed [of s now cfg] s a loaded(2) cfg o by (simp add: live_def)
  qed
  ultimately show ?thesis by blast
qed

definition ex_security :: security where
  "ex_security = \<lparr>se_nodeID = ''seed1'', se_creds = None, se_identity = NewIdentity fmempty, se_authz = NewAuthorizer ModeDisabled\<rparr>"

text \<open>The floor of one renewal: a service the seed does not know stops it, and those named after it are not renewed.\<close>

lemma unknown_stops_renewal:
  "svc_at m nid sid = None \<Longrightarrow> \<exists>err. Memory_Renew now nid (sid # ids) m = (Some err, m)"
  by (simp add: Memory_Renew_def split: option.splits)

text \<open>
  Nothing renews what a seed registers for itself: a service that the seed loads from its definition files, or that a client
  registers on its Consul surface, is no longer in any answer once the TTL has passed, while the seed runs.
\<close>

lemma first_registration:
  assumes "Memory_Register t evclk \<lparr>r_Node = node, r_Services = [s], r_Generation = gen\<rparr> (NewMemory opts) = (None, es, m)" "svc_at m nid sid = Some svc"
  shows "\<not> sv_failed svc \<and> s_LastSeen (sv_def svc) = t \<and> s_TTL (sv_def svc) = clampTTL (m_opts (NewMemory opts)) (s_TTL s)"
proof -
  let ?m = "touch_node node (NewMemory opts)" and ?d = "normalise_def (m_opts (NewMemory opts)) t gen s"
  have none: "svc_at ?m nid' sid' = None" for nid' sid' by (simp add: store_simps svc_at_NewMemory)
  obtain ev where "create_svc evclk node ?d ?m = (ev, m)"
    using assms(1) none by (auto simp: Memory_Register_def store_simps Let_def split: if_splits prod.splits)
  from svc_at_create_svc [OF this, of nid sid] show ?thesis
    using assms(2) none by (auto simp: store_simps normalise_def_def Let_def split: if_splits)
qed

lemma seed_definitions_lapse:
  assumes "Parse ext data = Inr cfg" "in_int64 (cf_TTL cfg)" "buildSeed readFile dial cfg sec = Inr sn"
    and reg: "StoreRegistry_RegisterServices t evclk (sn_node sn) \<lparr>r_Node = Node_zero, r_Services = [s], r_Generation = 1\<rparr> (sn_store sn) = (None, m)"
    and "s_TTL s = 0" "t + cf_TTL cfg < now" "now \<le> t + max_duration"
  shows "lr_Entries (Memory_Lookup now q m) = []"
proof -
  have ttl: "0 < cf_TTL cfg" using assms(1) by (auto simp: Parse_iff well_typed_def)
  have st: "sn_store sn = NewMemory (seed_options cfg)"
    using assms(3) by (auto simp: buildSeed_def Let_def split: sum.splits if_splits)
  obtain es where run: "Memory_Register t evclk \<lparr>r_Node = sn_node sn, r_Services = [s], r_Generation = 1\<rparr> (NewMemory (seed_options cfg)) = (None, es, m)"
    using reg by (auto simp: StoreRegistry_RegisterServices_def of_outcome_def st split: prod.splits option.splits)
  have r: "mem_reach (seed_options cfg) ([] @ es) m"
    by (rule mem_reach.reach_step [OF mem_reach.reach_new mem_step.Register [OF run]])
  have o: "m_opts m = seed_options cfg" using opts_reach [OF r] seed_opts [OF ttl] by simp
  have "\<not> live m now svc" if "svc_at m nid sid = Some svc" for nid sid svc
    using first_registration [OF run that] assms(2,5-7) ttl lease_lapsed [of svc now cfg]
    by (simp add: live_def o seed_opts [OF ttl]) (simp add: clampTTL_def seed_options_def)
  moreover have "names_ok m" using registry_ok_reach [OF r] by (simp add: registry_ok_def)
  ultimately have "set (lr_Entries (Memory_Lookup now q m)) = {}" by (auto simp: set_Lookup)
  then show ?thesis by simp
qed

section \<open>The shutdown of an agent\<close>

text \<open>How long what is in flight takes when each server is stopped, and the deregistration.\<close>

record inflight =
  if_metrics :: duration
  if_consul :: duration
  if_udp :: duration
  if_tcp :: duration
  if_rpc :: duration
  if_deregister :: duration

text \<open>What the shutdown touches: the gRPC server and the seeds; and when it turned readiness off and deregistered.\<close>

record Shutdown =
  sd_server :: GrpcServer
  sd_cluster :: cluster
  sd_notReady :: "time option"
  sd_deregistered :: "time option"

fun kind_Name :: "kind \<Rightarrow> string" where
  "kind_Name MetricsServer = ''metrics-http''"
| "kind_Name GrpcServerC = ''grpc-server''"
| "kind_Name StoreGC = ''store-gc''"
| "kind_Name SyncerC = ''membership''"
| "kind_Name ConsulHTTP = ''consul-http''"
| "kind_Name ConsulDNS = ''consul-dns''"
| "kind_Name ServiceDefs = ''service-defs''"
| "kind_Name FederationC = ''federation''"
| "kind_Name DeregistrarC = ''deregistrar''"
| "kind_Name ReadinessProbeC = ''readiness-probe''"
| "kind_Name RenewLoopC = ''renew-loop''"
| "kind_Name RefreshLoopC = ''cache-refresh''"
| "kind_Name FlusherC = ''index-flusher''"
| "kind_Name CheckMonitor = ''healthchecks''"

definition kind_Stop :: "inflight \<Rightarrow> world \<Rightarrow> string \<Rightarrow> SeedClient \<Rightarrow> kind \<Rightarrow> time \<Rightarrow> time \<Rightarrow> Shutdown \<Rightarrow> stop_error option \<times> time \<times> Shutdown" where
  "kind_Stop fl w nodeID client k cancelled now s =
     (case k of
        MetricsServer \<Rightarrow> (case Http_Stop (if_metrics fl) cancelled now of (err, now') \<Rightarrow> (err, now', s))
      | ConsulHTTP \<Rightarrow> (case Http_Stop (if_consul fl) cancelled now of (err, now') \<Rightarrow> (err, now', s))
      | ConsulDNS \<Rightarrow> (case Dns_Stop (if_udp fl) (if_tcp fl) cancelled now of (err, now') \<Rightarrow> (err, now', s))
      | GrpcServerC \<Rightarrow>
          (case Grpc_Stop (if_rpc fl) cancelled now (sd_server s) of (err, now', g) \<Rightarrow> (err, now', s\<lparr>sd_server := g, sd_notReady := Some now\<rparr>))
      | DeregistrarC \<Rightarrow> (None, now + if_deregister fl, s\<lparr>sd_cluster := Deregistrar_Stop w nodeID client (sd_cluster s), sd_deregistered := Some now\<rparr>)
      | _ \<Rightarrow> (None, now, s))"

definition component :: "inflight \<Rightarrow> world \<Rightarrow> string \<Rightarrow> SeedClient \<Rightarrow> kind \<Rightarrow> Shutdown Component" where
  "component fl w nodeID client k = \<lparr>cm_Name = kind_Name k, cm_Stop = kind_Stop fl w nodeID client k\<rparr>"

fun stop_time :: "inflight \<Rightarrow> kind \<Rightarrow> duration" where
  "stop_time fl MetricsServer = if_metrics fl"
| "stop_time fl ConsulHTTP = if_consul fl"
| "stop_time fl ConsulDNS = if_udp fl + if_tcp fl"
| "stop_time fl _ = 0"

definition inflight_ok :: "inflight \<Rightarrow> bool" where
  "inflight_ok fl \<longleftrightarrow> 0 \<le> if_metrics fl \<and> 0 \<le> if_consul fl \<and> 0 \<le> if_udp fl \<and> 0 \<le> if_tcp fl \<and> 0 \<le> if_rpc fl \<and> 0 \<le> if_deregister fl"

lemma stop_time_nonneg: "inflight_ok fl \<Longrightarrow> 0 \<le> stop_time fl k"
  by (cases k) (simp_all add: inflight_ok_def)

text \<open>Every other component stops without touching server or seeds, in its time.\<close>

lemma quiet_Stop:
  "inflight_ok fl \<Longrightarrow> k \<notin> {GrpcServerC, DeregistrarC} \<Longrightarrow> now + stop_time fl k < deadline \<Longrightarrow>
   cm_Stop (component fl w nodeID client k) deadline now s = (None, now + stop_time fl k, s)"
  by (cases k) (auto simp: component_def kind_Stop_def Http_Stop_def Dns_Stop_def Let_def inflight_ok_def)

lemma quiet_stop_all:
  "inflight_ok fl \<Longrightarrow> set ks \<inter> {GrpcServerC, DeregistrarC} = {} \<Longrightarrow> now + sum_list (map (stop_time fl) ks) < deadline \<Longrightarrow>
   stop_loop deadline (map (component fl w nodeID client) ks) now s = ([], True, now + sum_list (map (stop_time fl) ks), s)"
proof (induction ks arbitrary: now)
  case (Cons k ks)
  have "0 \<le> sum_list (map (stop_time fl) ks)" using stop_time_nonneg [OF Cons.prems(1)] by (intro sum_list_nonneg) auto
  then have "cm_Stop (component fl w nodeID client k) deadline now s = (None, now + stop_time fl k, s)" "now + stop_time fl k < deadline"
    using Cons.prems by (auto intro!: quiet_Stop)
  then show ?case using Cons by (simp add: add.assoc)
qed simp

lemma set_status_all: "x \<in> set (rd_services r) \<Longrightarrow> fmlookup (rd_status (set_status b r)) x = Some b"
proof -
  have "fmlookup (fold (\<lambda>s st. fmupd s b st) xs st) x = (if x \<in> set xs then Some b else fmlookup st x)" for xs st
    by (induction xs arbitrary: st) auto
  then show "x \<in> set (rd_services r) \<Longrightarrow> fmlookup (rd_status (set_status b r)) x = Some b" by (simp add: set_status_def)
qed

lemma Grpc_Stop_drains:
  assumes "now + gs_drainWindow g + fl < deadline" "0 < gs_drainWindow g" "0 \<le> fl"
  shows "Grpc_Stop fl deadline now g = (None, now + gs_drainWindow g + fl, g\<lparr>gs_readiness := SetReady False (gs_readiness g), gs_accepting := False\<rparr>)"
  using assms by (simp add: Grpc_Stop_def Let_def)

definition after_drain :: "kind list" where
  "after_drain = [ReadinessProbeC, RenewLoopC, RefreshLoopC, FlusherC, CheckMonitor]"

text \<open>The order of an agent's components: servers and loops after the gRPC server, the deregistrar right before it.\<close>

lemma agent_order:
  "buildAgent dial dcs fs cfg sec seeds = Inr ax \<Longrightarrow> \<exists>pre post. ax_components ax = pre @ [DeregistrarC, GrpcServerC] @ post \<and>
     set pre \<inter> {GrpcServerC, DeregistrarC} = {} \<and> set post \<inter> {GrpcServerC, DeregistrarC} = {}"
  by (rule exI [of _ "optional (li_Enabled (ls_Metrics (cf_Listeners cfg))) MetricsServer @ optional (fe_Enabled (cf_Federation cfg)) FederationC"],
      rule exI [of _ "after_drain @ optional (li_Enabled (ls_ConsulHTTP (cf_Listeners cfg))) ConsulHTTP @
        optional (li_Enabled (ls_DNS (cf_Listeners cfg))) ConsulDNS @ optional (cf_ConfigDir cfg \<noteq> []) ServiceDefs"])
    (auto simp: buildAgent_def after_drain_def optional_def Let_def split: if_splits sum.splits)

lemma dial_loop_conns: "dial_loop dial conns seeds = Inr conns' \<Longrightarrow> conns' = conns @ seeds"
  by (induction dial conns seeds rule: dial_loop.induct) (auto split: if_splits)

lemma agent_client:
  "buildAgent dial dcs fs cfg sec seeds = Inr ax \<Longrightarrow> sc_conns (ax_client ax) = seeds \<and> n_ID (ag_node (ax_proxy ax)) = se_nodeID sec"
  by (auto simp: buildAgent_def SeedClient_New_def NewProxy_def SetCheckGate_def node_of_def Let_def dest: dial_loop_conns split: if_splits sum.splits)

text \<open>The states the shutdown goes through: readiness off at \<open>t1\<close>, the deregistration at \<open>t2\<close>.\<close>

definition drained :: "time \<Rightarrow> Shutdown \<Rightarrow> Shutdown" where
  "drained t1 s =
     s\<lparr>sd_server := (sd_server s)\<lparr>gs_readiness := SetReady False (gs_readiness (sd_server s)), gs_accepting := False\<rparr>, sd_notReady := Some t1\<rparr>"

definition left :: "world \<Rightarrow> string \<Rightarrow> SeedClient \<Rightarrow> time \<Rightarrow> Shutdown \<Rightarrow> Shutdown" where
  "left w nodeID client t2 s = s\<lparr>sd_cluster := Deregistrar_Stop w nodeID client (sd_cluster s), sd_deregistered := Some t2\<rparr>"

lemma drain_run:
  fixes fl w nodeID client
  defines "c \<equiv> component fl w nodeID client"
  assumes quiet: "set pre \<inter> {GrpcServerC, DeregistrarC} = {}" "set post \<inter> {GrpcServerC, DeregistrarC} = {}"
    and fl: "inflight_ok fl" and drain: "0 < gs_drainWindow (sd_server s)"
    and total: "now + sum_list (map (stop_time fl) (pre @ post)) + gs_drainWindow (sd_server s) + if_rpc fl + if_deregister fl < deadline"
  shows "\<exists>t1 now'. now \<le> t1 \<and> stop_loop deadline (rev (map c (pre @ [DeregistrarC, GrpcServerC] @ post))) now s =
    ([], True, now', left w nodeID client (t1 + gs_drainWindow (sd_server s) + if_rpc fl) (drained t1 s))"
proof -
  let ?t = "stop_time fl" and ?w = "gs_drainWindow (sd_server s)"
  define t1 t2 where d: "t1 = now + sum_list (map ?t (rev post))" "t2 = now + sum_list (map ?t (rev post)) + ?w + if_rpc fl"
  have nn: "0 \<le> sum_list (map ?t ks)" for ks using stop_time_nonneg [OF fl] by (intro sum_list_nonneg) auto
  have p: "0 \<le> if_rpc fl" "0 \<le> if_deregister fl" using fl by (auto simp: inflight_ok_def)
  have "sum_list (map ?t (rev ks)) = sum_list (map ?t ks)" for ks by (simp add: sum_list.rev flip: rev_map)
  then have b: "t1 < deadline" "t2 + if_deregister fl + sum_list (map ?t (rev pre)) < deadline" "t2 < deadline" "now \<le> t1"
    using total nn [of pre] nn [of post] p drain by (auto simp: d)
  have 1: "stop_loop deadline (map c (rev post)) now s = ([], True, t1, s)"
    using quiet_stop_all [OF fl, of "rev post"] quiet(2) b(1) by (simp add: d(1) c_def)
  have 2: "cm_Stop (c GrpcServerC) deadline t1 s = (None, t2, drained t1 s)"
    using Grpc_Stop_drains [of t1 "sd_server s" "if_rpc fl" deadline] b(3) p drain
    by (simp add: c_def component_def kind_Stop_def drained_def d)
  have 3: "cm_Stop (c DeregistrarC) deadline t2 (drained t1 s) = (None, t2 + if_deregister fl, left w nodeID client t2 (drained t1 s))"
    by (simp add: c_def component_def kind_Stop_def left_def)
  have 4: "stop_loop deadline (map c (rev pre)) (t2 + if_deregister fl) s' = ([], True, t2 + if_deregister fl + sum_list (map ?t (rev pre)), s')" for s'
    using quiet_stop_all [OF fl, of "rev pre"] quiet(1) b(2) by (simp add: c_def)
  have "rev (map c (pre @ [DeregistrarC, GrpcServerC] @ post)) = map c (rev post) @ [c GrpcServerC, c DeregistrarC] @ map c (rev pre)"
    by (simp add: rev_map)
  then have "stop_loop deadline (rev (map c (pre @ [DeregistrarC, GrpcServerC] @ post))) now s =
      ([], True, t2 + if_deregister fl + sum_list (map ?t (rev pre)), left w nodeID client t2 (drained t1 s))"
    using b nn [of "rev pre"] p by (simp add: stop_loop_append 1 2 3 4)
  moreover have "t2 = t1 + ?w + if_rpc fl" by (simp add: d)
  ultimately show ?thesis using b(4) by blast
qed


definition ex_agent_config :: Configuration where
  "ex_agent_config = applyDefaults (ex_written\<lparr>cf_Cluster := (cf_Cluster ex_written)\<lparr>cu_Seeds := [''a'', ''b'']\<rparr>\<rparr>)"

definition ex_inflight :: inflight where
  "ex_inflight = \<lparr>if_metrics = 0, if_consul = second, if_udp = 0, if_tcp = 0, if_rpc = second, if_deregister = second\<rparr>"

definition ex_node_security :: security where
  "ex_node_security = ex_security\<lparr>se_nodeID := ''n1''\<rparr>"

definition ex_shutdown :: "AgentNode \<Rightarrow> Shutdown" where
  "ex_shutdown ax = \<lparr>sd_server = snd (Grpc_Start True (ax_server ax)), sd_cluster = snd (snd ex_registered), sd_notReady = None, sd_deregistered = None\<rparr>"

lemma ex_agent_loaded:
  "Parse ''.yaml'' (Decoded (ex_written\<lparr>cf_Cluster := (cf_Cluster ex_written)\<lparr>cu_Seeds := [''a'', ''b'']\<rparr>\<rparr>)) = Inr ex_agent_config"
  "at_DrainWindow (cf_Agent ex_agent_config) = 5 * second" "cf_ShutdownTimeout ex_agent_config = 15 * second" "fe_Enabled (cf_Federation ex_agent_config) = False"
  "li_Enabled (ls_Metrics (cf_Listeners ex_agent_config)) = False" "li_Enabled (ls_ConsulHTTP (cf_Listeners ex_agent_config)) = False"
  "li_Enabled (ls_DNS (cf_Listeners ex_agent_config)) = False" "cf_ConfigDir ex_agent_config = []"
  by code_simp+


text \<open>
  The Consul HTTP server is stopped first, and stopping it waits for the blocking queries it serves, up to ten minutes each. With one that outlasts the shutdown
  timeout the shutdown times out there: readiness is still on and no seed has been told.
\<close>

lemma blocking_query_skips_drain:
  assumes "ax_components ax = pre @ [ConsulHTTP]" "cf_ShutdownTimeout cfg \<le> if_consul fl" "0 < cf_ShutdownTimeout cfg"
  shows "stopComponents (WithShutdownTimeout (cf_ShutdownTimeout cfg)) (map (component fl w nodeID client) (ax_components ax)) now s =
    (Some ErrShutdownTimeout, now + cf_ShutdownTimeout cfg, s)"
  using assms by (simp add: stopComponents_def WithShutdownTimeout_def component_def kind_Stop_def Http_Stop_def)

text \<open>
  The agent's server turns readiness on when it binds, whatever the probe found: if the probe ran first and reached no
  seed, the node reports itself serving until the next probe.
\<close>

lemma ready_without_seeds:
  assumes "buildAgent dial dcs fs cfg sec seeds = Inr ax"
  shows "fmlookup (rd_status (gs_readiness (snd (Grpc_Start True ((ax_server ax)\<lparr>gs_readiness := SetReady False (gs_readiness (ax_server ax))\<rparr>))))) [] = Some True"
proof -
  have "rd_services (gs_readiness (ax_server ax)) = [[], AgentService_name]" "\<not> gs_startNotRdy (ax_server ax)"
    using assms by (auto simp: buildAgent_def Grpc_NewComponent_def NewReadiness_def set_status_def Let_def split: if_splits sum.splits)
  then show ?thesis by (simp add: Grpc_Start_def SetReady_def set_status_def Let_def AgentService_name_def)
qed

end
