(* ===== verification/Observability.thy ===== *)
theory Observability
  imports Server
begin

text \<open>
  \<^verbatim>\<open>internal/observability\<close>: the interceptors around every RPC (\<^verbatim>\<open>interceptors.go\<close>), the counters they feed
  (\<^verbatim>\<open>metrics.go\<close>) and the propagation indicators (\<^verbatim>\<open>propagation.go\<close>); with the interceptor chain that
  \<^verbatim>\<open>NewComponent\<close> of \<^verbatim>\<open>internal/server/component.go\<close> puts around the handlers. A handler may panic. The counters of the metrics
  library are maps from label values to numbers; a histogram is the list of what it observed, durations in
  nanoseconds where the code converts them to seconds. Shown: no panic leaves the chain, each call is observed
  once with the code the caller gets, and around the handlers of the seed the chain answers as \<open>serve\<close> does.
\<close>

section \<open>Metrics\<close>

datatype 'c rpc_status = Status 'c | Internal

datatype side = SideServer | SideClient

type_synonym 'c labels = "side \<times> string \<times> 'c rpc_status option"

record 'c Prometheus =
  pm_total :: "'c labels \<Rightarrow> nat"
  pm_latency :: "'c labels \<Rightarrow> duration list"

definition NewPrometheus :: "'c Prometheus" where
  "NewPrometheus = \<lparr>pm_total = (\<lambda>_. 0), pm_latency = (\<lambda>_. [])\<rparr>"

text \<open>The seam: \<open>None\<close> is the \<^verbatim>\<open>Nop\<close> that \<^verbatim>\<open>metricsOrNop\<close> puts for nil. The code of success is \<open>None\<close>.\<close>

definition ObserveRPC :: "side \<Rightarrow> string \<Rightarrow> 'c rpc_status option \<Rightarrow> duration \<Rightarrow> 'c Prometheus option \<Rightarrow> 'c Prometheus option" where
  "ObserveRPC side method code latency m =
     (case m of
        None \<Rightarrow> None
      | Some p \<Rightarrow>
          (let l = (side, method, code) in
           Some (p\<lparr>pm_total := (pm_total p)(l := pm_total p l + 1), pm_latency := (pm_latency p)(l := pm_latency p l @ [latency])\<rparr>)))"

section \<open>Interceptors\<close>

datatype level = LevelInfo | LevelWarn

text \<open>A line of the log: the access line of a call, the report of a panic, the audit record of a write.\<close>

datatype 'c log_line =
    AccessLine level side string "'c rpc_status option" duration string
  | PanicLine string string
  | AuditLine string string string string "'c rpc_status option"
  | DeniedLine string string string string

record 'c Telemetry =
  tl_metrics :: "'c Prometheus option"
  tl_log :: "'c log_line list"

definition status_Code :: "('c rpc_status + 'r) \<Rightarrow> 'c rpc_status option" where
  "status_Code r = (case r of Inl c \<Rightarrow> Some c | Inr _ \<Rightarrow> None)"

definition observe :: "side \<Rightarrow> string \<Rightarrow> ('c rpc_status + 'r) \<Rightarrow> duration \<Rightarrow> string \<Rightarrow> 'c Telemetry \<Rightarrow> 'c Telemetry" where
  "observe side method err latency peer t =
     (let code = status_Code err;
          level = (if code \<noteq> None then LevelWarn else LevelInfo) in
      t\<lparr>tl_metrics := ObserveRPC side method code latency (tl_metrics t),
        tl_log := tl_log t @ [AccessLine level side method code latency peer]\<rparr>)"

datatype ('c, 'r) handled = Returned "'c rpc_status + 'r" | Panicked string

text \<open>A handler changes the state \<open>'s\<close> of the server and the log; when it panics what it changed stays.\<close>

type_synonym ('c, 'r, 's) handler = "'s \<times> 'c Telemetry \<Rightarrow> ('c, 'r) handled \<times> 's \<times> 'c Telemetry"

definition logPanic :: "string \<Rightarrow> string \<Rightarrow> 'c Telemetry \<Rightarrow> 'c Telemetry" where
  "logPanic method r t = t\<lparr>tl_log := tl_log t @ [PanicLine method r]\<rparr>"

definition recoverUnary :: "string \<Rightarrow> ('c, 'r, 's) handler \<Rightarrow> 's \<times> 'c Telemetry \<Rightarrow> ('c rpc_status + 'r) \<times> 's \<times> 'c Telemetry" where
  "recoverUnary method handler st =
     (case handler st of
        (Returned r, st') \<Rightarrow> (r, st')
      | (Panicked p, s', t') \<Rightarrow> (Inl Internal, s', logPanic method p t'))"

text \<open>\<open>latency\<close> is the time the call took. The streaming counterpart wraps a handler whose only result is its error.\<close>

definition UnaryServerInterceptor :: "string \<Rightarrow> string \<Rightarrow> duration \<Rightarrow> ('c, 'r, 's) handler \<Rightarrow> 's \<times> 'c Telemetry
    \<Rightarrow> ('c rpc_status + 'r) \<times> 's \<times> 'c Telemetry" where
  "UnaryServerInterceptor method peer latency handler st =
     (case recoverUnary method handler st of (r, s', t') \<Rightarrow> (r, s', observe SideServer method r latency peer t'))"

definition recoverStream :: "string \<Rightarrow> ('c, unit, 's) handler \<Rightarrow> 's \<times> 'c Telemetry \<Rightarrow> ('c rpc_status + unit) \<times> 's \<times> 'c Telemetry" where
  "recoverStream method handler st =
     (case handler st of
        (Returned r, st') \<Rightarrow> (r, st')
      | (Panicked p, s', t') \<Rightarrow> (Inl Internal, s', logPanic method p t'))"

definition StreamServerInterceptor :: "string \<Rightarrow> string \<Rightarrow> duration \<Rightarrow> ('c, unit, 's) handler \<Rightarrow> 's \<times> 'c Telemetry
    \<Rightarrow> ('c rpc_status + unit) \<times> 's \<times> 'c Telemetry" where
  "StreamServerInterceptor method peer latency handler st =
     (case recoverStream method handler st of (r, s', t') \<Rightarrow> (r, s', observe SideServer method r latency peer t'))"

text \<open>The client side does not recover: a panic of the invoker goes through, and is not observed.\<close>

definition UnaryClientInterceptor :: "string \<Rightarrow> string \<Rightarrow> duration \<Rightarrow> ('c, 'r, 's) handler \<Rightarrow> ('c, 'r, 's) handler" where
  "UnaryClientInterceptor method target latency invoker st =
     (case invoker st of
        (Returned r, s', t') \<Rightarrow> (Returned r, s', observe SideClient method r latency target t')
      | (Panicked p, st') \<Rightarrow> (Panicked p, st'))"

definition StreamClientInterceptor :: "string \<Rightarrow> string \<Rightarrow> duration \<Rightarrow> ('c, 'r, 's) handler \<Rightarrow> ('c, 'r, 's) handler" where
  "StreamClientInterceptor method target latency streamer st =
     (case streamer st of
        (Returned cs, s', t') \<Rightarrow> (Returned cs, s', observe SideClient method cs latency target t')
      | (Panicked p, st') \<Rightarrow> (Panicked p, st'))"

section \<open>The chain of the server\<close>

text \<open>The authorization and audit interceptors around a handler that may panic, with the lines they log.\<close>

definition authz_interceptor :: "Identity \<Rightarrow> Authorizer \<Rightarrow> Context \<Rightarrow> string \<Rightarrow> string \<Rightarrow> Request
    \<Rightarrow> (Code, 'r, 's) handler \<Rightarrow> (Code, 'r, 's) handler" where
  "authz_interceptor i authz ctx method peer req handler st =
     (case writeTarget req of (nodeID, isWrite) \<Rightarrow>
        if isWrite \<and> Enforcing authz \<and> Authorize authz (Identity_Principal i ctx) nodeID \<noteq> None
        then (Returned (Inl (Status PermissionDenied)), fst st,
              (snd st)\<lparr>tl_log := tl_log (snd st) @ [DeniedLine method nodeID (principalName (Identity_Principal i ctx)) peer]\<rparr>)
        else handler st)"

definition audit_interceptor :: "Identity \<Rightarrow> Context \<Rightarrow> string \<Rightarrow> string \<Rightarrow> Request
    \<Rightarrow> (Code, 'r, 's) handler \<Rightarrow> (Code, 'r, 's) handler" where
  "audit_interceptor i ctx method peer req handler st =
     (case writeTarget req of (nodeID, isWrite) \<Rightarrow>
        case handler st of
          (Panicked p, st') \<Rightarrow> (Panicked p, st')
        | (Returned r, s', t') \<Rightarrow>
            (Returned r, s',
             if isWrite
             then t'\<lparr>tl_log := tl_log t' @ [AuditLine method nodeID (principalName (Identity_Principal i ctx)) peer (status_Code r)]\<rparr>
             else t'))"

definition unary_chain :: "Identity \<Rightarrow> Authorizer \<Rightarrow> Context \<Rightarrow> string \<Rightarrow> string \<Rightarrow> duration \<Rightarrow> Request
    \<Rightarrow> (Code, 'r, 's) handler \<Rightarrow> 's \<times> Code Telemetry \<Rightarrow> (Code rpc_status + 'r) \<times> 's \<times> Code Telemetry" where
  "unary_chain i authz ctx method peer latency req handler =
     UnaryServerInterceptor method peer latency
       (authz_interceptor i authz ctx method peer req (audit_interceptor i ctx method peer req handler))"

text \<open>The handlers of the seed as handlers of the chain: the state is the registry with the events published so far.\<close>

definition seed_handler :: "time \<Rightarrow> clock \<Rightarrow> string list \<Rightarrow> Request \<Rightarrow> (Code, Response, ChangeEvent list \<times> Memory) handler" where
  "seed_handler now evclk order req st =
     (case Service_handle now evclk order req (snd (fst st)) of
        (r, events, m') \<Rightarrow> (Returned (case r of Inl c \<Rightarrow> Inl (Status c) | Inr resp \<Rightarrow> Inr resp), (fst (fst st) @ events, m'), snd st))"

section \<open>What the chain guarantees\<close>

definition denied :: "Identity \<Rightarrow> Authorizer \<Rightarrow> Context \<Rightarrow> Request \<Rightarrow> bool" where
  "denied i authz ctx req \<longleftrightarrow>
     snd (writeTarget req) \<and> Enforcing authz \<and> Authorize authz (Identity_Principal i ctx) (fst (writeTarget req)) \<noteq> None"

lemmas chain_defs = unary_chain_def UnaryServerInterceptor_def recoverUnary_def authz_interceptor_def audit_interceptor_def
  observe_def logPanic_def status_Code_def denied_def Let_def

text \<open>A panic of the handler is answered with \<^verbatim>\<open>Internal\<close>; the server goes on with the state the handler left.\<close>

lemma chain_panic:
  assumes "\<not> denied i authz ctx req" "handler st = (Panicked p, s', t')"
  shows "unary_chain i authz ctx method peer latency req handler st =
    (Inl Internal, s', observe SideServer method (Inl Internal :: Code rpc_status + 'r) latency peer (logPanic method p t'))"
  using assms by (auto simp: chain_defs split_beta)

text \<open>
  Every call is observed exactly once: the chain ends by adding one access line and one count, under the method and the code
  the caller is given.
\<close>

theorem chain_observes_once:
  fixes handler :: "(Code, 'r, 's) handler"
  assumes "unary_chain i authz ctx method peer latency req handler st = (r, s', t')"
  obtains t0 where "t' = observe SideServer method r latency peer t0"
  using assms by (auto simp: unary_chain_def UnaryServerInterceptor_def split: prod.splits)

text \<open>Around the handlers of the seed the chain computes the reply, the events and the registry of \<open>serve\<close>.\<close>

theorem chain_serves:
  assumes "serve i authz ctx now evclk order req m = (r, events, m')"
    and "unary_chain i authz ctx method peer latency req (seed_handler now evclk order req) ((evs, m), t) = (r', s', t')"
  shows "r' = (case r of Inl c \<Rightarrow> Inl (Status c) | Inr resp \<Rightarrow> Inr resp) \<and> s' = (evs @ events, m')"
proof (cases "denied i authz ctx req")
  case True
  then show ?thesis using assms by (auto simp: chain_defs serve_def UnaryAuthzInterceptor_def split_beta)
next
  case False
  then show ?thesis
    using assms by (auto simp: chain_defs serve_def UnaryAuthzInterceptor_def seed_handler_def split_beta split: sum.splits)
qed

text \<open>
  The audit record is written inside the authorization: a write the policy denies leaves none, and neither does one whose
  handler panics.
\<close>

theorem audit_iff:
  fixes handler :: "(Code, 'r, 's) handler"
  assumes "handler st = (res, s1, t1)" "tl_log t1 = tl_log (snd st)"
    and "unary_chain i authz ctx method peer latency req handler st = (r, s', t')"
  shows "(\<exists>n u. AuditLine method n u peer (status_Code r) \<in> set (drop (length (tl_log (snd st))) (tl_log t'))) \<longleftrightarrow>
    snd (writeTarget req) \<and> \<not> denied i authz ctx req \<and> (\<exists>x. res = Returned x)"
proof (cases "denied i authz ctx req")
  case True
  then show ?thesis using assms by (auto simp: chain_defs split_beta)
next
  case False
  then show ?thesis
    using assms by (cases res) (auto simp: chain_defs split_beta split: if_splits)
qed

section \<open>Propagation indicators\<close>

text \<open>Gauges and counters are integers where the code converts integers to floating point. A nil \<^verbatim>\<open>*Propagation\<close> is \<open>None\<close>.\<close>

record Propagation =
  pg_registerToVisible :: "duration list"
  pg_deregisterToRemoved :: "duration list"
  pg_cacheAge :: duration
  pg_clockSkew :: duration
  pg_registrySize :: int
  pg_evictions :: int
  pg_fanout_success :: int
  pg_fanout_failure :: int
  pg_blockingWaiters :: int
  pg_surfaceRequests :: "string \<Rightarrow> int"
  pg_divergence :: int
  pg_convergenceLag :: int

definition NewPropagation :: Propagation where
  "NewPropagation = \<lparr>pg_registerToVisible = [], pg_deregisterToRemoved = [], pg_cacheAge = 0, pg_clockSkew = 0,
     pg_registrySize = 0, pg_evictions = 0, pg_fanout_success = 0, pg_fanout_failure = 0, pg_blockingWaiters = 0,
     pg_surfaceRequests = (\<lambda>_. 0), pg_divergence = 0, pg_convergenceLag = 0\<rparr>"

definition SetConvergenceLag :: "int \<Rightarrow> Propagation option \<Rightarrow> Propagation option" where
  "SetConvergenceLag n = map_option (\<lambda>p. p\<lparr>pg_convergenceLag := n\<rparr>)"

definition SetRegistrySize :: "int \<Rightarrow> Propagation option \<Rightarrow> Propagation option" where
  "SetRegistrySize n = map_option (\<lambda>p. p\<lparr>pg_registrySize := n\<rparr>)"

definition AddEvictions :: "int \<Rightarrow> Propagation option \<Rightarrow> Propagation option" where
  "AddEvictions n = map_option (\<lambda>p. if n > 0 then p\<lparr>pg_evictions := pg_evictions p + n\<rparr> else p)"

definition ObserveFanout :: "int \<Rightarrow> int \<Rightarrow> Propagation option \<Rightarrow> Propagation option" where
  "ObserveFanout succeeded n = map_option (\<lambda>p.
     let p = p\<lparr>pg_fanout_success := pg_fanout_success p + succeeded\<rparr>; f = n - succeeded in
     if f > 0 then p\<lparr>pg_fanout_failure := pg_fanout_failure p + f\<rparr> else p)"

definition IncWaiters :: "Propagation option \<Rightarrow> Propagation option" where
  "IncWaiters = map_option (\<lambda>p. p\<lparr>pg_blockingWaiters := pg_blockingWaiters p + 1\<rparr>)"

definition DecWaiters :: "Propagation option \<Rightarrow> Propagation option" where
  "DecWaiters = map_option (\<lambda>p. p\<lparr>pg_blockingWaiters := pg_blockingWaiters p - 1\<rparr>)"

definition CountRequest :: "string \<Rightarrow> Propagation option \<Rightarrow> Propagation option" where
  "CountRequest surface = map_option (\<lambda>p. p\<lparr>pg_surfaceRequests := (pg_surfaceRequests p)(surface := pg_surfaceRequests p surface + 1)\<rparr>)"

definition SetDivergence :: "int \<Rightarrow> Propagation option \<Rightarrow> Propagation option" where
  "SetDivergence spread = map_option (\<lambda>p. p\<lparr>pg_divergence := spread\<rparr>)"

definition ObserveRegisterToVisible :: "duration \<Rightarrow> Propagation option \<Rightarrow> Propagation option" where
  "ObserveRegisterToVisible d = map_option (\<lambda>p. p\<lparr>pg_registerToVisible := pg_registerToVisible p @ [d]\<rparr>)"

definition ObserveDeregisterToRemoved :: "duration \<Rightarrow> Propagation option \<Rightarrow> Propagation option" where
  "ObserveDeregisterToRemoved d = map_option (\<lambda>p. p\<lparr>pg_deregisterToRemoved := pg_deregisterToRemoved p @ [d]\<rparr>)"

definition SetCacheAge :: "duration \<Rightarrow> Propagation option \<Rightarrow> Propagation option" where
  "SetCacheAge d = map_option (\<lambda>p. p\<lparr>pg_cacheAge := d\<rparr>)"

definition SetClockSkew :: "duration \<Rightarrow> Propagation option \<Rightarrow> Propagation option" where
  "SetClockSkew d = map_option (\<lambda>p. p\<lparr>pg_clockSkew := d\<rparr>)"

text \<open>Over any run of fan-outs the two counters add up to the attempts made, and neither ever decreases.\<close>

lemma fanout_accounts:
  assumes "\<forall>(k, n) \<in> set runs. 0 \<le> k \<and> k \<le> n"
  shows "\<exists>p'. fold (\<lambda>(k, n). ObserveFanout k n) runs (Some p) = Some p'
    \<and> pg_fanout_success p' + pg_fanout_failure p' = pg_fanout_success p + pg_fanout_failure p + sum_list (map snd runs)
    \<and> pg_fanout_success p \<le> pg_fanout_success p' \<and> pg_fanout_failure p \<le> pg_fanout_failure p'"
  using assms
proof (induction runs arbitrary: p)
  case (Cons a runs)
  obtain k n where a: "a = (k, n)" by (cases a)
  obtain q where q: "ObserveFanout k n (Some p) = Some q" by (simp add: ObserveFanout_def)
  have "pg_fanout_success q + pg_fanout_failure q = pg_fanout_success p + pg_fanout_failure p + n"
    "pg_fanout_success p \<le> pg_fanout_success q" "pg_fanout_failure p \<le> pg_fanout_failure q"
    using q Cons.prems a by (auto simp: ObserveFanout_def Let_def split: if_splits)
  moreover have "\<forall>(k, n) \<in> set runs. 0 \<le> k \<and> k \<le> n" using Cons.prems by simp
  ultimately show ?case using Cons.IH [of q] q a by fastforce
qed simp

end
