(* ===== verification/Loops.thy ===== *)
theory Loops
  imports Wiring Observability
begin

text \<open>
  The \<^verbatim>\<open>Start\<close> methods of the components: the loops driven by a ticker (\<^verbatim>\<open>internal/seedclient/loops.go\<close>,
  \<^verbatim>\<open>internal/seedclient/cache.go\<close>, \<^verbatim>\<open>internal/store/gcloop.go\<close>, \<^verbatim>\<open>internal/watch/persist.go\<close>, \<^verbatim>\<open>internal/healthcheck/monitor.go\<close>), the
  reload of the service definitions (\<^verbatim>\<open>internal/consul/servicedef.go\<close>) and the listeners of the HTTP and DNS servers. A run of a loop is the
  sequence of what its select receives. A ticker of the library panics on an interval that is not positive: \<open>None\<close>.
  Shown: a loop does its body once per tick up to the cancellation and then returns; with a loaded configuration none panics;
  the turns of a loop lie no further apart than its interval or the time its body takes.
\<close>

section \<open>Select loops\<close>

datatype 'e received = CtxDone | Received 'e

text \<open>The state when the loop returns or the sequence ends, and whether it returned.\<close>

fun select_loop :: "('e \<Rightarrow> 's \<Rightarrow> 's) \<Rightarrow> 'e received list \<Rightarrow> 's \<Rightarrow> bool \<times> 's" where
  "select_loop body [] s = (False, s)"
| "select_loop body (CtxDone # evs) s = (True, s)"
| "select_loop body (Received e # evs) s = select_loop body evs (body e s)"

definition ticker_loop :: "duration \<Rightarrow> ('e \<Rightarrow> 's \<Rightarrow> 's) \<Rightarrow> 'e received list \<Rightarrow> 's \<Rightarrow> (bool \<times> 's) option" where
  "ticker_loop interval body evs s = (if interval \<le> 0 then None else Some (select_loop body evs s))"

definition before_done :: "'e received list \<Rightarrow> 'e list" where
  "before_done evs = List.map_filter (\<lambda>r. case r of Received e \<Rightarrow> Some e | CtxDone \<Rightarrow> None) (takeWhile (\<lambda>r. r \<noteq> CtxDone) evs)"

lemma select_loop_run: "select_loop body evs s = (CtxDone \<in> set evs, fold body (before_done evs) s)"
  by (induction body evs s rule: select_loop.induct) (auto simp: before_done_def map_filter_simps)

section \<open>The loops of a seed\<close>

text \<open>
  \<open>GCLoop\<close> with the reap hook that \<^verbatim>\<open>buildSeed\<close> sets: the evictions and the size of the registry go to the metrics. The registry publishes
  its events meanwhile.
\<close>

definition reap_hook :: "nat \<times> nat \<Rightarrow> Propagation option \<Rightarrow> Propagation option" where
  "reap_hook r p = (case r of (removed, left_over) \<Rightarrow> SetRegistrySize (int left_over) (AddEvictions (int removed) p))"

definition gc_turn :: "(string \<times> string list) list \<times> time \<times> clock \<Rightarrow> ChangeEvent list \<times> Memory \<times> Propagation option
    \<Rightarrow> ChangeEvent list \<times> Memory \<times> Propagation option" where
  "gc_turn e s =
     (case e of (order, now, evclk) \<Rightarrow> case s of (evs, m, p) \<Rightarrow>
        case GCLoop_tick order now evclk m of (r, events, m') \<Rightarrow> (evs @ events, m', reap_hook r p))"

definition GCLoop_Start :: "duration \<Rightarrow> ((string \<times> string list) list \<times> time \<times> clock) received list
    \<Rightarrow> ChangeEvent list \<times> Memory \<times> Propagation option \<Rightarrow> (bool \<times> ChangeEvent list \<times> Memory \<times> Propagation option) option" where
  "GCLoop_Start interval = ticker_loop interval gc_turn"

section \<open>The loops of an agent\<close>

definition RenewLoop_Start :: "duration \<Rightarrow> (world \<times> string list) received list \<Rightarrow> agent \<Rightarrow> (bool \<times> agent) option" where
  "RenewLoop_Start interval = ticker_loop interval (\<lambda>(w, order). renewOnce w order)"

text \<open>What a probe meets: which seeds answer, and whether the context is cancelled when they have.\<close>

definition probe_turn :: "SeedClient \<Rightarrow> int \<Rightarrow> (string \<Rightarrow> bool) \<times> bool \<Rightarrow> Readiness \<Rightarrow> Readiness" where
  "probe_turn client minSeeds e r =
     (case e of (serving, cancelled) \<Rightarrow>
        let reachable = SeedClient_Reachable serving client in
        if cancelled then r else SetReady (int reachable \<ge> minSeeds) r)"

definition ReadinessProbe_Start :: "SeedClient \<Rightarrow> int \<Rightarrow> duration \<Rightarrow> (string \<Rightarrow> bool) \<times> bool
    \<Rightarrow> ((string \<Rightarrow> bool) \<times> bool) received list \<Rightarrow> Readiness \<Rightarrow> (bool \<times> Readiness) option" where
  "ReadinessProbe_Start client minSeeds interval first evs r =
     ticker_loop interval (probe_turn client minSeeds) evs (probe_turn client minSeeds first r)"

text \<open>\<open>names\<close> collects the services whose entries changed, which the cache reports to the watcher.\<close>

definition refresh_turn :: "(time \<Rightarrow> lookup) \<times> (Query \<Rightarrow> time) \<times> cacheKey list \<Rightarrow> string list \<times> Cache \<Rightarrow> string list \<times> Cache" where
  "refresh_turn e s =
     (case e of (seeds, tick, order) \<Rightarrow> case s of (names, c) \<Rightarrow>
        case Cache_Refresh seeds tick order c of (names', c') \<Rightarrow> (names @ names', c'))"

definition RefreshLoop_Start :: "duration \<Rightarrow> ((time \<Rightarrow> lookup) \<times> (Query \<Rightarrow> time) \<times> cacheKey list) received list
    \<Rightarrow> string list \<times> Cache \<Rightarrow> (bool \<times> string list \<times> Cache) option" where
  "RefreshLoop_Start interval = ticker_loop interval refresh_turn"

text \<open>A flush meets the index of the watcher at that moment. \<open>Stop\<close> flushes once more.\<close>

definition flush_turn :: "string \<Rightarrow> bool \<times> bool \<times> Watcher \<Rightarrow> files \<Rightarrow> files" where
  "flush_turn dataDir e = (case e of (mkdir_ok, write_ok, w) \<Rightarrow> Flusher_flush mkdir_ok write_ok dataDir w)"

definition Flusher_Start :: "string \<Rightarrow> duration \<Rightarrow> (bool \<times> bool \<times> Watcher) received list \<Rightarrow> files \<Rightarrow> (bool \<times> files) option" where
  "Flusher_Start dataDir interval evs fs =
     (if dataDir = [] then Some (CtxDone \<in> set evs, fs)
      else ticker_loop interval (flush_turn dataDir) evs fs)"

definition Flusher_Stop :: "string \<Rightarrow> bool \<times> bool \<times> Watcher \<Rightarrow> files \<Rightarrow> files" where
  "Flusher_Stop = flush_turn"

definition Monitor_loop :: "Definition list \<Rightarrow> string \<Rightarrow> (Net \<times> world) received list \<Rightarrow> Monitor \<times> agent \<Rightarrow> (bool \<times> Monitor \<times> agent) option" where
  "Monitor_loop defs serviceID = ticker_loop (minInterval defs) (\<lambda>(net, w). monitor_tick net w serviceID)"

text \<open>The reload of the definition files at start and on every hang-up signal.\<close>

definition Loader_reload :: "'s Registry \<Rightarrow> string \<Rightarrow> (string \<times> bool \<times> serviceDefFile option) list option \<Rightarrow> 's surface \<Rightarrow> 's surface" where
  "Loader_reload rg dir listing su = snd (LoadServiceDefs rg dir listing su)"

definition Loader_Start :: "'s Registry \<Rightarrow> string \<Rightarrow> (string \<times> bool \<times> serviceDefFile option) list option
    \<Rightarrow> (string \<times> bool \<times> serviceDefFile option) list option received list \<Rightarrow> 's surface \<Rightarrow> bool \<times> 's surface" where
  "Loader_Start rg dir first evs su =
     (if dir = [] then (CtxDone \<in> set evs, su)
      else select_loop (Loader_reload rg dir) evs (Loader_reload rg dir first su))"

section \<open>The servers\<close>

text \<open>How serving ends: the context is cancelled or the server returns, with an error or because it was closed.\<close>

datatype serve_end = Cancelled | ServeFailed string | ServerClosed

definition Http_Start :: "string option \<Rightarrow> serve_end \<Rightarrow> string option" where
  "Http_Start listenErr ev =
     (case listenErr of
        Some err \<Rightarrow> Some err
      | None \<Rightarrow> (case ev of Cancelled \<Rightarrow> None | ServeFailed err \<Rightarrow> Some err | ServerClosed \<Rightarrow> None))"

text \<open>The error, and which of the sockets, UDP and TCP, \<open>Start\<close> leaves open to the servers.\<close>

definition Dns_Start :: "string option \<Rightarrow> string option \<Rightarrow> serve_end \<Rightarrow> string option \<times> bool \<times> bool" where
  "Dns_Start udpErr tcpErr ev =
     (case udpErr of
        Some err \<Rightarrow> (Some err, False, False)
      | None \<Rightarrow>
          (case tcpErr of
             Some err \<Rightarrow> (Some err, False, False)
           | None \<Rightarrow> ((case ev of Cancelled \<Rightarrow> None | ServeFailed err \<Rightarrow> Some err | ServerClosed \<Rightarrow> None), True, True)))"

section \<open>What the loops do\<close>

text \<open>The intervals of a node built from a loaded configuration are positive: no loop panics.\<close>

theorem loops_start:
  assumes "Parse ext data = Inr cfg"
  shows "buildSeed readFile dial cfg sec = Inr sn \<Longrightarrow>
      GCLoop_Start (sn_gcInterval sn) gs s0 = Some (CtxDone \<in> set gs, fold gc_turn (before_done gs) s0) \<and>
      (\<forall>sy. sn_syncer sn = Some sy \<longrightarrow> sy_interval sy > 0)"
    and "buildAgent adial dcs fs cfg sec seeds = Inr ax \<Longrightarrow>
      RenewLoop_Start (ax_renewInterval ax) rs a = Some (CtxDone \<in> set rs, fold (\<lambda>(w, order). renewOnce w order) (before_done rs) a) \<and>
      RefreshLoop_Start (ax_refreshInterval ax) cs c = Some (CtxDone \<in> set cs, fold refresh_turn (before_done cs) c) \<and>
      ReadinessProbe_Start (ax_client ax) (ax_minSeeds ax) (cf_HeartbeatInterval cfg) first ps r =
        Some (CtxDone \<in> set ps, fold (probe_turn (ax_client ax) (ax_minSeeds ax)) (first # before_done ps) r)"
proof -
  have w: "0 < cf_HeartbeatInterval cfg" "0 < at_CacheMaxAge (cf_Agent cfg)"
    using assms by (auto simp: Parse_iff well_typed_def agent_ok_def)
  { assume "buildSeed readFile dial cfg sec = Inr sn"
    then have "sn_gcInterval sn > 0" "\<forall>sy. sn_syncer sn = Some sy \<longrightarrow> sy_interval sy > 0"
      using w(1) by (auto simp: buildSeed_def Syncer_New_def GCLoop_interval_def Let_def split: sum.splits if_splits)
    then show "GCLoop_Start (sn_gcInterval sn) gs s0 = Some (CtxDone \<in> set gs, fold gc_turn (before_done gs) s0) \<and>
        (\<forall>sy. sn_syncer sn = Some sy \<longrightarrow> sy_interval sy > 0)"
      by (simp add: GCLoop_Start_def ticker_loop_def select_loop_run) }
  { assume "buildAgent adial dcs fs cfg sec seeds = Inr ax"
    then have "ax_renewInterval ax > 0" "ax_refreshInterval ax > 0"
      using w by (auto simp: buildAgent_def Let_def split: sum.splits if_splits)
    then show "RenewLoop_Start (ax_renewInterval ax) rs a = Some (CtxDone \<in> set rs, fold (\<lambda>(w, order). renewOnce w order) (before_done rs) a) \<and>
        RefreshLoop_Start (ax_refreshInterval ax) cs c = Some (CtxDone \<in> set cs, fold refresh_turn (before_done cs) c) \<and>
        ReadinessProbe_Start (ax_client ax) (ax_minSeeds ax) (cf_HeartbeatInterval cfg) first ps r =
          Some (CtxDone \<in> set ps, fold (probe_turn (ax_client ax) (ax_minSeeds ax)) (first # before_done ps) r)"
      using w(1) by (simp add: RenewLoop_Start_def RefreshLoop_Start_def ReadinessProbe_Start_def ticker_loop_def select_loop_run) }
qed

text \<open>Neither does the loop of a monitored service, whatever intervals its checks were given.\<close>

lemma monitor_loop_starts: "defs \<noteq> [] \<Longrightarrow> Monitor_loop defs sid evs s \<noteq> None"
proof -
  assume "defs \<noteq> []"
  then have "minInterval defs > 0" using check_interval_pos by (auto simp: minInterval_Min)
  then show ?thesis by (simp add: Monitor_loop_def ticker_loop_def)
qed

text \<open>After an uncancelled probe the gate says whether enough seeds answered; a probe that is cut short leaves it to the drain.\<close>

lemma probe_gate:
  "svc \<in> set (rd_services r) \<Longrightarrow>
   fmlookup (rd_status (fold (probe_turn client minSeeds) (es @ [(serving, False)]) r)) svc = Some (int (SeedClient_Reachable serving client) \<ge> minSeeds)"
proof -
  have keep: "rd_services (fold (probe_turn client minSeeds) es r) = rd_services r"
    by (induction es arbitrary: r) (auto simp: probe_turn_def SetReady_def App.set_status_def Let_def split: prod.splits)
  assume "svc \<in> set (rd_services r)"
  then show ?thesis
    by (simp add: probe_turn_def SetReady_def Let_def keep set_status_all)
qed

text \<open>A definition that no longer parses, or a directory that cannot be read, leaves what was loaded before.\<close>

lemma reload_failure_keeps: "Loader_reload rg dir None su = su"
  by (simp add: Loader_reload_def LoadServiceDefs_def)

section \<open>How far apart the turns of a loop lie\<close>

text \<open>
  A ticker made at \<open>c\<close> sends at \<open>c + p\<close>, \<open>c + 2 p\<close> and so on into a channel of one place. A loop that received at \<open>r\<close> and is back
  at its select at \<open>f\<close> receives at once if a tick fell in between, and otherwise at the next one.
\<close>

definition next_recv :: "time \<Rightarrow> duration \<Rightarrow> time \<Rightarrow> time \<Rightarrow> time" where
  "next_recv c p r f = (if (f - c) div p > (r - c) div p then f else c + p * ((f - c) div p + 1))"

fun turns :: "time \<Rightarrow> duration \<Rightarrow> time \<Rightarrow> duration list \<Rightarrow> time list" where
  "turns c p r [] = [r]"
| "turns c p r (d # ds) = r # turns c p (next_recv c p r (r + d)) ds"

lemma next_recv_bounds:
  assumes "p > 0" "d \<ge> 0"
  shows "r \<le> next_recv c p r (r + d)" "next_recv c p r (r + d) \<le> r + max p d"
proof -
  have mono: "(r - c) div p \<le> (r + d - c) div p" using assms by (intro zdiv_mono1) auto
  have "p * ((r - c) div p) = (r - c) - (r - c) mod p" "0 \<le> (r - c) mod p"
    using assms(1) by (simp_all add: minus_mod_eq_mult_div)
  then have lo: "p * ((r - c) div p) \<le> r - c" by linarith
  have "p * ((r + d - c) div p) = (r + d - c) - (r + d - c) mod p" "(r + d - c) mod p < p"
    using assms(1) by (simp_all add: minus_mod_eq_mult_div)
  then have hi: "r + d - c < p * ((r + d - c) div p + 1)" unfolding distrib_left by linarith
  show "r \<le> next_recv c p r (r + d)" using hi assms(2) by (auto simp: next_recv_def)
  show "next_recv c p r (r + d) \<le> r + max p d"
    using lo mono by (auto simp: next_recv_def algebra_simps max_def)
qed

text \<open>
  Consecutive turns lie at most the interval apart when no turn takes longer than the interval, and at most the length of the turn
  otherwise: a slow turn delays the next one, it does not cost a whole interval.
\<close>

theorem turns_gap:
  assumes "p > 0" "\<forall>d\<in>set ds. 0 \<le> d \<and> d \<le> D" "Suc i < length (turns c p r ds)"
  shows "turns c p r ds ! i \<le> turns c p r ds ! Suc i \<and> turns c p r ds ! Suc i \<le> turns c p r ds ! i + max p D"
  using assms(2,3)
proof (induction ds arbitrary: r i)
  case (Cons d ds)
  have first: "turns c p (next_recv c p r (r + d)) ds ! 0 = next_recv c p r (r + d)" by (cases ds) simp_all
  show ?case
  proof (cases i)
    case 0
    then show ?thesis using next_recv_bounds [OF assms(1), where d = d and r = r and c = c] Cons.prems(1) first by (auto simp: max_def split: if_splits)
  next
    case (Suc j)
    then show ?thesis using Cons.IH [where r = "next_recv c p r (r + d)" and i = j] Cons.prems by simp
  qed
qed simp

end
