(* ===== verification/Leases.thy ===== *)
theory Leases
  imports Loops
begin

text \<open>
  How an agent keeps its services alive on the seeds: the renew loop of \<^verbatim>\<open>internal/seedclient\<close> on one side, the leases and the
  garbage collection of \<^verbatim>\<open>internal/store\<close> on the other, both with the settings the command line gives them.
\<close>

section \<open>A renewal of known services succeeds\<close>

lemma renew_loop_known: "\<forall>i\<in>set ids. svc_at m nid i \<noteq> None \<Longrightarrow> fst (renew_loop now nid ids m) = None"
proof (induction ids arbitrary: m)
  case (Cons i ids)
  then obtain svc where svc: "svc_at m nid i = Some svc" by auto
  have "\<forall>j\<in>set ids. svc_at (put_svc nid i (renew_svc now svc) m) nid j \<noteq> None"
    using Cons.prems svc_at_meta [OF svc] by (auto simp: store_simps)
  then show ?case using Cons.IH svc by simp
qed simp

lemma Memory_Renew_known:
  "ids \<noteq> [] \<Longrightarrow> \<forall>i\<in>set ids. svc_at m nid i \<noteq> None \<Longrightarrow> Memory_Renew now nid ids m = (None, snd (Memory_Renew now nid ids m))"
  using renew_loop_known [of ids m nid now]
  by (cases ids) (auto simp: Memory_Renew_def svc_at_def prod_eq_iff split: option.splits)

section \<open>An agent that is alive\<close>

text \<open>
  A turn of the renew loop calls the seeds at once, each for at most the timeout \<open>D\<close>: if it starts at \<open>turns \<dots> ! i\<close> a seed is reached
  at some \<open>reached i\<close> within \<open>D\<close> of that. So a seed hears from the agent again after at most \<open>renew_gap\<close>.
\<close>

definition renew_gap :: "AgentNode \<Rightarrow> duration" where
  "renew_gap ax = max (ax_renewInterval ax) (sc_seedTimeout (ax_client ax)) + sc_seedTimeout (ax_client ax)"

lemma reached_within_gap:
  assumes "0 < ax_renewInterval ax" "D = sc_seedTimeout (ax_client ax)" "\<forall>d\<in>set ds. 0 \<le> d \<and> d \<le> D"
    and t: "t = turns c (ax_renewInterval ax) r ds" "Suc i < length t"
    and "\<forall>j<length t. t ! j \<le> reached j \<and> reached j \<le> t ! j + D"
  shows "reached (Suc i) \<le> reached i + renew_gap ax"
proof -
  have "t ! Suc i \<le> t ! i + max (ax_renewInterval ax) D"
    using turns_gap [OF assms(1,3), of i c r] t by simp
  moreover have "t ! i \<le> reached i" "reached (Suc i) \<le> t ! Suc i + D" using assms(6) t(2) by (auto dest: Suc_lessD)
  ultimately show ?thesis by (simp add: renew_gap_def assms(2))
qed

text \<open>
  An agent that is alive, seen from one of its seeds: ticks of the renew loop that reach the seed, each at most \<open>hb\<close>
  after the one before, with the garbage collection of the seed and its other work in between, which leaves the
  services of the agent alone.
\<close>

inductive agent_alive :: "string \<Rightarrow> duration \<Rightarrow> time \<Rightarrow> Proxy \<Rightarrow> cluster \<Rightarrow> time \<Rightarrow> cluster \<Rightarrow> bool" for a hb t0 p cl0 where
  begin_alive [step_intros]: "agent_alive a hb t0 p cl0 t0 cl0"
| tick [step_intros]: "agent_alive a hb t0 p cl0 seen cl \<Longrightarrow> seen \<le> now a \<Longrightarrow> now a \<le> seen + hb \<Longrightarrow> lk a \<noteq> Down \<Longrightarrow>
    range_order (ag_hosted p) order \<Longrightarrow> renewOnce (seeds_run now evclk ord lk) order (p, cl) = (p', cl') \<Longrightarrow>
    agent_alive a hb t0 p cl0 (now a) cl'"
| seed_gc [step_intros]: "agent_alive a hb t0 p cl0 seen cl \<Longrightarrow> seen \<le> now \<Longrightarrow> now \<le> seen + hb \<Longrightarrow> gc_order (cl a) order \<Longrightarrow>
    Memory_GC order now evclk (cl a) = (n, es, m') \<Longrightarrow> agent_alive a hb t0 p cl0 seen (cl(a := m'))"
| seed_other [step_intros]: "agent_alive a hb t0 p cl0 seen cl \<Longrightarrow> mem_step (cl a) es m' \<Longrightarrow>
    (\<And>sid. svc_at m' (n_ID (ag_node p)) sid = svc_at (cl a) (n_ID (ag_node p)) sid) \<Longrightarrow> agent_alive a hb t0 p cl0 seen (cl(a := m'))"

text \<open>The services the renew loop renews: those without active checks.\<close>

definition renewed_by :: "Proxy \<Rightarrow> string set" where
  "renewed_by p = {sid \<in> fmdom' (ag_hosted p). \<forall>gate. ag_gate p = Some gate \<longrightarrow> \<not> gate sid}"

lemma tick_renews:
  assumes run: "renewOnce (seeds_run now evclk ord lk) order (p, cl) = (p', cl')" and order: "range_order (ag_hosted p) order"
    and p: "distinct (sc_conns (ag_client p))" "a \<in> set (sc_conns (ag_client p))" "n_ID (ag_node p) \<noteq> []" "ag_gate p = Some gate"
    and up: "lk a \<noteq> Down" and sid: "sid \<in> renewed_by p"
    and held: "\<forall>i\<in>renewed_by p. svc_at (cl a) (n_ID (ag_node p)) i \<noteq> None"
  obtains ids where "Memory_Renew (now a) (n_ID (ag_node p)) ids (cl a) = (None, cl' a)" "sid \<in> set ids"
proof -
  define ids where "ids = filter (\<lambda>i. \<not> gate i) order"
  have ids: "set ids = renewed_by p"
    using order p(4) by (auto simp: ids_def renewed_by_def range_order_def)
  then have "ids \<noteq> []" using sid by auto
  moreover have "hostedCount p \<noteq> 0"
    using sid by (auto simp: hostedCount_def renewed_by_def fmlen_def dest: fmdomI)
  ultimately have "cl' a = snd (Memory_Renew (now a) (n_ID (ag_node p)) ids (cl a))"
    using renewOnce_effect [OF p(1), of now evclk ord lk order cl] run p(2,3,4) up by (auto simp: ids_def)
  then show ?thesis
    using that [of ids] Memory_Renew_known [OF \<open>ids \<noteq> []\<close>, of "cl a" "n_ID (ag_node p)" "now a"] held sid ids by auto
qed

lemma alive_heartbeats:
  assumes "agent_alive a hb t0 p cl0 seen cl"
    and p: "distinct (sc_conns (ag_client p))" "a \<in> set (sc_conns (ag_client p))" "n_ID (ag_node p) \<noteq> []" "ag_gate p = Some gate"
    and held: "\<forall>sid\<in>renewed_by p. leased (n_ID (ag_node p)) sid ttl t0 (cl0 a)" and hb: "hb < ttl"
  shows "\<forall>sid\<in>renewed_by p. heartbeats (n_ID (ag_node p)) sid hb t0 (cl0 a) seen (cl a)"
  using assms(1)
proof (induction rule: agent_alive.induct)
  case begin_alive
  show ?case by (simp add: heartbeats.start)
next
  case (tick seen cl now lk order evclk ord p' cl')
  have "\<forall>i\<in>renewed_by p. svc_at (cl a) (n_ID (ag_node p)) i \<noteq> None"
    using tick.IH held heartbeats_leased [OF _ _ hb] by (fastforce simp: leased_def)
  then show ?case
    using tick_renews [OF tick.hyps(6,5) p tick.hyps(4)] tick.IH tick.hyps(2,3) heartbeats.beat by metis
next
  case (seed_gc seen cl now order evclk n es m')
  then show ?case by (auto intro: heartbeats.sweep)
next
  case (seed_other seen cl es m')
  then show ?case by (auto intro: heartbeats.other)
qed

text \<open>
  C37 (liveness). Take a seed and an agent started from their configurations, with \<open>renew_gap\<close>, the heartbeat of the
  agent plus the time a call to a seed may take, shorter than the TTL of the seed, and a moment at which the seed holds the agent's
  services just renewed. As long as the ticks of the agent's renew loop reach the seed no further apart than that,
  whatever else the seed does meanwhile, every hosted service without active checks, which the monitor
  renews instead, stays in every answer of the seed, passing; and once the agent has been silent for longer than the TTL no answer contains it.
\<close>

theorem agent_keeps_lease:
  assumes seed: "Parse ext data = Inr cfg" "in_int64 (cf_TTL cfg)" "buildSeed readFile dial cfg sec = Inr sn"
    and agent: "buildAgent adial dcs fs acfg asec seeds = Inr ax" "distinct seeds" "a \<in> set seeds" "se_nodeID asec \<noteq> []"
      "renew_gap ax < cf_TTL cfg"
    and running: "ag_client p = ag_client (ax_proxy ax)" "ag_node p = ag_node (ax_proxy ax)" "ag_gate p = Some gate"
    and seed_run: "mem_reach (m_opts (sn_store sn)) es (cl0 a)"
    and registered: "\<forall>sid\<in>renewed_by p. leased (se_nodeID asec) sid (cf_TTL cfg) t0 (cl0 a)"
    and alive: "agent_alive a (renew_gap ax) t0 p cl0 seen cl"
    and sid: "sid \<in> fmdom' (ag_hosted p)" "\<not> gate sid"
  shows "(seen \<le> now \<and> now \<le> seen + cf_TTL cfg \<longrightarrow>
            (\<exists>e\<in>set (lr_Entries (Memory_Lookup now Query_zero (cl a))). entry_id e = (se_nodeID asec, sid) \<and> e_Health e = HealthPassing)) \<and>
         (seen + cf_TTL cfg < now \<and> now \<le> seen + max_duration \<longrightarrow>
            (\<forall>e\<in>set (lr_Entries (Memory_Lookup now q (cl a))). entry_id e \<noteq> (se_nodeID asec, sid)))"
proof -
  have ax: "ag_client (ax_proxy ax) = ax_client ax"
    using agent(1) by (auto simp: buildAgent_def SetCheckGate_def NewProxy_def Let_def split: if_splits sum.splits)
  have p: "distinct (sc_conns (ag_client p))" "a \<in> set (sc_conns (ag_client p))" "n_ID (ag_node p) = se_nodeID asec"
    using agent_client [OF agent(1)] agent(2,3) running(1,2) ax by auto
  have "sid \<in> renewed_by p" using sid running(3) by (simp add: renewed_by_def)
  then have hb: "heartbeats (se_nodeID asec) sid (renew_gap ax) t0 (cl0 a) seen (cl a)"
    and l: "leased (se_nodeID asec) sid (cf_TTL cfg) t0 (cl0 a)"
    using alive_heartbeats [OF alive p(1,2) _ running(3), of "cf_TTL cfg"] registered agent(4,5) p(3) by auto
  from heartbeats_shown [OF seed seed_run l hb agent(5)] show ?thesis .
qed

section \<open>Example\<close>

definition ex_seed_reg :: Registration where
  "ex_seed_reg = \<lparr>r_Node = ex_node ''n1'', r_Services = [(ex_svc ''s1'' ''web'' 0 0)\<lparr>s_TTL := 0\<rparr>], r_Generation = 1\<rparr>"

definition ex_registered_at :: "StoreError option \<times> ChangeEvent list \<times> Memory" where
  "ex_registered_at = Memory_Register 0 (\<lambda>_. 0) ex_seed_reg (NewMemory (seed_options ex_seed_config))"

definition ex_beat :: "StoreError option \<times> Memory" where
  "ex_beat = Memory_Renew (10 * second) ''n1'' [''s1''] (snd (snd ex_registered_at))"

lemma ex_heartbeat: "cf_HeartbeatInterval ex_agent_config = 10 * second" "at_SeedTimeout (cf_Agent ex_agent_config) = 3 * second"
  by code_simp+

lemma ex_registered_facts:
  "fst ex_registered_at = None" "fst ex_beat = None"
  "map_option (\<lambda>s. (sv_failed s, s_LastSeen (sv_def s), s_TTL (sv_def s))) (svc_at (snd (snd ex_registered_at)) ''n1'' ''s1'') = Some (False, 0, 30 * second)"
  "cf_TTL ex_seed_config = 30 * second" "cf_HeartbeatInterval ex_seed_config = 10 * second" "gateReadiness ex_seed_config = False"
  "Parse ''.yaml'' (Decoded ex_seed_written) = Inr ex_seed_config"
  by code_simp+

definition ex_ticked :: "Proxy \<Rightarrow> agent" where
  "ex_ticked p = renewOnce (seeds_run (\<lambda>_. 10 * second) (\<lambda>_. 0) (\<lambda>_. []) (\<lambda>_. Up)) [''s1''] (p, \<lambda>_. snd (snd ex_registered_at))"

theorem agent_keeps_lease_witness:
  "\<exists>ax p. buildAgent (\<lambda>_. True) [] Map.empty ex_agent_config ex_node_security [''a'', ''b''] = Inr ax \<and>
     p = (ax_proxy ax)\<lparr>ag_hosted := fmupd ''s1'' (ex_svc ''s1'' ''web'' 0 0) fmempty\<rparr> \<and>
     (\<exists>e\<in>set (lr_Entries (Memory_Lookup (35 * second) Query_zero (snd (ex_ticked p) ''a''))). entry_id e = (''n1'', ''s1'') \<and> e_Health e = HealthPassing) \<and>
     (''n1'', ''s1'') \<notin> entry_id ` set (lr_Entries (Memory_Lookup (45 * second) Query_zero (snd (ex_ticked p) ''a'')))"
proof -
  note f = ex_registered_facts
  let ?m0 = "snd (snd ex_registered_at)"
  obtain sn where built: "buildSeed (\<lambda>_. None) (\<lambda>_. True) ex_seed_config ex_security = Inr sn" and st: "sn_store sn = NewMemory (seed_options ex_seed_config)"
    by (simp add: buildSeed_def ex_registered f(6))
  have run: "Memory_Register 0 (\<lambda>_. 0) ex_seed_reg (NewMemory (seed_options ex_seed_config)) = (None, fst (snd ex_registered_at), ?m0)"
    using f(1) by (simp add: ex_registered_at_def prod_eq_iff)
  have o: "m_opts (sn_store sn) = seed_options ex_seed_config" by (simp add: st seed_opts f(4))
  have reach: "mem_reach (m_opts (sn_store sn)) ([] @ fst (snd ex_registered_at)) ?m0"
    unfolding o by (rule mem_reach.reach_step [OF mem_reach.reach_new mem_step.Register [OF run]])
  have leased: "leased ''n1'' ''s1'' (cf_TTL ex_seed_config) 0 ?m0" using f(3,4) by (auto simp: leased_def)
  have ttl: "in_int64 (cf_TTL ex_seed_config)" by (simp add: f(4) in_int64_def min_duration_def max_duration_def)
  obtain ax where agent: "buildAgent (\<lambda>_. True) [] Map.empty ex_agent_config ex_node_security [''a'', ''b''] = Inr ax"
    by (simp add: buildAgent_def SeedClient_New_def ex_agent_loaded(4) Let_def)
  define p where "p = (ax_proxy ax)\<lparr>ag_hosted := fmupd ''s1'' (ex_svc ''s1'' ''web'' 0 0) fmempty\<rparr>"
  have sec: "se_nodeID ex_node_security = ''n1''" by (simp add: ex_node_security_def)
  have gate: "ag_gate p = Some (Active (Monitor_New (cf_EnableScriptChecks ex_agent_config)))" "renew_gap ax = 13 * second"
    using agent by (auto simp: p_def renew_gap_def buildAgent_def SeedClient_New_def SetCheckGate_def ex_agent_loaded(4) ex_heartbeat Let_def max_def)
  have ungated: "\<not> Active (Monitor_New (cf_EnableScriptChecks ex_agent_config)) ''s1''" by (simp add: Active_def Monitor_New_def)
  have alive: "agent_alive ''a'' (renew_gap ax) 0 p (\<lambda>_. ?m0) (10 * second) (snd (ex_ticked p))"
  proof -
    have tick: "renewOnce (seeds_run (\<lambda>_. 10 * second) (\<lambda>_. 0) (\<lambda>_. []) (\<lambda>_. Up)) [''s1''] (p, \<lambda>_. ?m0) = (fst (ex_ticked p), snd (ex_ticked p))"
      by (simp add: ex_ticked_def)
    show ?thesis
      by (rule agent_alive.tick [OF agent_alive.begin_alive _ _ _ _ tick]) (simp_all add: gate(2) p_def range_order_def)
  qed
  have reg: "\<forall>sid\<in>renewed_by p. leased (se_nodeID ex_node_security) sid (cf_TTL ex_seed_config) 0 ?m0"
    using leased by (auto simp: renewed_by_def p_def sec split: if_splits)
  note keeps = agent_keeps_lease [OF f(7) ttl built agent _ _ _ _ _ _ gate(1) reach reg alive _ ungated]
  show ?thesis
    using keeps [where now = "35 * second" and q = Query_zero] keeps [where now = "45 * second" and q = Query_zero] agent
    by (auto simp: p_def sec f(4) gate(2) max_duration_def)
qed

end
