(* ===== verification/Migrate.thy ===== *)
theory Migrate
  imports Consul
begin

text \<open>
  \<^verbatim>\<open>internal/migrate\<close>: the backfill of a catalog from a Consul-compatible source into a yellow-pages node, and the comparison
  of two catalogs. The source is a parameter: what it answers under each URL. The target is any state that
  takes a registration; a seed's own Consul surface is one.
\<close>

section \<open>The comparison of two catalogs\<close>

text \<open>\<^verbatim>\<open>strconv.Itoa\<close>.\<close>

definition Itoa :: "int \<Rightarrow> string" where
  "Itoa n = (if n < 0 then CHR ''-'' # decimal (nat (- n)) else decimal (nat n))"

record ShadowEntry =
  sh_Node :: string
  sh_ServiceID :: string
  sh_Address :: string
  sh_Port :: int
  sh_Tags :: "string list"
  sh_Status :: string

definition shadow_key :: "ShadowEntry \<Rightarrow> string" where
  "shadow_key e =
     (let tags = sort (sh_Tags e) in
      Join [CHR 0x1F] [sh_Node e, sh_ServiceID e, sh_Address e, Itoa (sh_Port e), Join '','' tags, sh_Status e])"

record Diff =
  df_OnlyLeft :: "ShadowEntry list"
  df_OnlyRight :: "ShadowEntry list"

definition Diff_Empty :: "Diff \<Rightarrow> bool" where
  "Diff_Empty d \<longleftrightarrow> length (df_OnlyLeft d) = 0 \<and> length (df_OnlyRight d) = 0"

definition shadow_index :: "ShadowEntry list \<Rightarrow> (string, ShadowEntry) fmap" where
  "shadow_index entries = fold (\<lambda>e m. fmupd (shadow_key e) e m) entries fmempty"

text \<open>The two ranges visit the keys of either index in the orders given.\<close>

definition only_in :: "string list \<Rightarrow> (string, ShadowEntry) fmap \<Rightarrow> (string, ShadowEntry) fmap \<Rightarrow> ShadowEntry list" where
  "only_in order l r = map (\<lambda>k. the (fmlookup l k)) (filter (\<lambda>k. fmlookup r k = None) order)"

definition ShadowDiff :: "string list \<Rightarrow> string list \<Rightarrow> ShadowEntry list \<Rightarrow> ShadowEntry list \<Rightarrow> Diff" where
  "ShadowDiff lorder rorder left right =
     (let l = shadow_index left; r = shadow_index right in
      \<lparr>df_OnlyLeft = only_in lorder l r, df_OnlyRight = only_in rorder r l\<rparr>)"

section \<open>The import\<close>

record consulNode =
  kn_Node :: string
  kn_Address :: string
  kn_Datacenter :: string
  kn_Meta :: smap

record consulService =
  ks_ID :: string
  ks_Service :: string
  ks_Address :: string
  ks_Port :: int
  ks_Tags :: "string list"
  ks_Meta :: smap

record healthEntry =
  hn_Node :: consulNode
  hn_Service :: consulService

text \<open>What the source serves, decoded; the names of the services in the order in which the range visits them.\<close>

datatype document = ServicesDoc "string list" | HealthDoc "healthEntry list" | OtherDoc

datatype reply = NoReply | Reply nat document

datatype import_error = ReadServices | ReadService string | RegisterFailed string string

definition getServices :: "reply \<Rightarrow> string list option" where
  "getServices r = (case r of Reply status (ServicesDoc names) \<Rightarrow> if status \<noteq> 200 then None else Some names | _ \<Rightarrow> None)"

definition getHealth :: "reply \<Rightarrow> healthEntry list option" where
  "getHealth r = (case r of Reply status (HealthDoc es) \<Rightarrow> if status \<noteq> 200 then None else Some es | _ \<Rightarrow> None)"

text \<open>The registration body, with the types the target decodes it into.\<close>

definition registerBody :: "healthEntry \<Rightarrow> catalogRegisterInput" where
  "registerBody e =
     (let n = hn_Node e; s = hn_Service e in
      \<lparr>cr_Node = kn_Node n, cr_Address = kn_Address n, cr_Datacenter = kn_Datacenter n, cr_NodeMeta = kn_Meta n,
       cr_Service = Some \<lparr>si_ID = ks_ID s, si_Service = ks_Service s, si_Address = ks_Address s, si_Port = ks_Port s,
         si_Tags = ks_Tags s, si_Meta = ks_Meta s\<rparr>\<rparr>)"

text \<open>A target answers a PUT with a status, or not at all.\<close>

type_synonym 't putter = "string \<Rightarrow> catalogRegisterInput \<Rightarrow> 't \<Rightarrow> nat option \<times> 't"

fun import_entries :: "'t putter \<Rightarrow> string \<Rightarrow> healthEntry list \<Rightarrow> nat \<Rightarrow> 't \<Rightarrow> import_error option \<times> nat \<times> 't" where
  "import_entries put dst [] written t = (None, written, t)"
| "import_entries put dst (e # es) written t =
     (case put (dst @ ''/v1/catalog/register'') (registerBody e) t of (status, t') \<Rightarrow>
        if status \<noteq> Some 200 then (Some (RegisterFailed (kn_Node (hn_Node e)) (ks_ID (hn_Service e))), written, t')
        else import_entries put dst es (written + 1) t')"

fun import_services :: "(string \<Rightarrow> reply) \<Rightarrow> 't putter \<Rightarrow> string \<Rightarrow> string \<Rightarrow> string list \<Rightarrow> nat \<Rightarrow> 't \<Rightarrow> import_error option \<times> nat \<times> 't" where
  "import_services get put src dst [] written t = (None, written, t)"
| "import_services get put src dst (name # names) written t =
     (case getHealth (get (src @ ''/v1/health/service/'' @ name)) of
        None \<Rightarrow> (Some (ReadService name), written, t)
      | Some entries \<Rightarrow>
          (case import_entries put dst entries written t of
             (Some err, written', t') \<Rightarrow> (Some err, written', t')
           | (None, written', t') \<Rightarrow> import_services get put src dst names written' t'))"

text \<open>\<^verbatim>\<open>strings.TrimRight(s, "/")\<close>.\<close>

definition trim_slashes :: "string \<Rightarrow> string" where
  "trim_slashes s = rev (dropWhile (\<lambda>c. c = CHR ''/'') (rev s))"

definition Import :: "(string \<Rightarrow> reply) \<Rightarrow> 't putter \<Rightarrow> string \<Rightarrow> string \<Rightarrow> 't \<Rightarrow> import_error option \<times> nat \<times> 't" where
  "Import get put src dst t =
     (let src = trim_slashes src; dst = trim_slashes dst in
      case getServices (get (src @ ''/v1/catalog/services'')) of
        None \<Rightarrow> (Some ReadServices, 0, t)
      | Some names \<Rightarrow> import_services get put src dst names 0 t)"

section \<open>A seed as the target\<close>

definition http_status :: "httpResponse \<Rightarrow> nat option" where
  "http_status r = (case r of HttpError n \<Rightarrow> Some n | Aborted \<Rightarrow> None | _ \<Rightarrow> Some 200)"

text \<open>The request the import sends: no token, no query; the path is what follows the target's address.\<close>

definition import_request :: "string \<Rightarrow> string \<Rightarrow> string \<Rightarrow> catalogRegisterInput \<Rightarrow> HttpRequest" where
  "import_request remote dst url body =
     \<lparr>hq_path = fmempty, hq_url = drop (length dst) url, hq_query = fmempty,
      hq_header = fmap_of_list [(''Content-Type'', ''application/json'')], hq_remote = remote, hq_body = CatalogRegisterBody body\<rparr>"

definition seed_put :: "Memory Registry \<Rightarrow> Handler \<Rightarrow> time \<Rightarrow> string \<Rightarrow> string \<Rightarrow> Memory surface putter" where
  "seed_put rg h now remote dst url body su =
     (case serve_http rg h now id ''PUT'' (import_request remote dst url body) su of (resp, su') \<Rightarrow> (http_status resp, su'))"

section \<open>When two catalogs are found equal\<close>

lemma shadow_index_dom: "fmlookup (shadow_index es) k \<noteq> None \<longleftrightarrow> k \<in> shadow_key ` set es"
proof -
  have "fmlookup (fold (\<lambda>e m. fmupd (shadow_key e) e m) es m) k \<noteq> None \<longleftrightarrow> k \<in> shadow_key ` set es \<or> fmlookup m k \<noteq> None" for m
    by (induction es arbitrary: m) auto
  then show ?thesis by (simp add: shadow_index_def)
qed

lemma Diff_Empty_keys:
  assumes "range_order (shadow_index left) lo" "range_order (shadow_index right) ro"
  shows "Diff_Empty (ShadowDiff lo ro left right) \<longleftrightarrow> shadow_key ` set left = shadow_key ` set right"
proof -
  have "set lo = shadow_key ` set left" "set ro = shadow_key ` set right"
    using assms shadow_index_dom [of left] shadow_index_dom [of right] by (auto simp: range_order_def fmlookup_dom'_iff)
  then show ?thesis
    using shadow_index_dom [of left] shadow_index_dom [of right]
    by (auto simp: Diff_Empty_def ShadowDiff_def only_in_def Let_def filter_empty_conv)
qed

lemma Itoa_inject: "Itoa a = Itoa b \<longleftrightarrow> a = b"
proof -
  have d: "decimal m = decimal n \<Longrightarrow> m = n" for m n by (metis digits_value_decimal)
  have "hd (decimal n) \<noteq> CHR ''-''" for n using hd_decimal [of n] by (auto simp: is_digit_def)
  then have "decimal n \<noteq> CHR ''-'' # s" for n s by (metis list.sel(1))
  then show ?thesis using d [of "nat (- a)" "nat (- b)"] d [of "nat a" "nat b"] by (auto simp: Itoa_def dest!: d) (metis eq_commute)+
qed

text \<open>Fields without the separators the key is joined with, and no tag that is empty or has a comma.\<close>

definition clean :: "ShadowEntry \<Rightarrow> bool" where
  "clean e \<longleftrightarrow>
     (\<forall>f\<in>{sh_Node e, sh_ServiceID e, sh_Address e, sh_Status e} \<union> set (sh_Tags e). CHR 0x1F \<notin> set f) \<and>
     (\<forall>t\<in>set (sh_Tags e). t \<noteq> [] \<and> CHR '','' \<notin> set t)"

definition normalized :: "ShadowEntry \<Rightarrow> ShadowEntry" where
  "normalized e = e\<lparr>sh_Tags := sort (sh_Tags e)\<rparr>"

lemma set_Join: "set (Join sep xs) \<subseteq> set sep \<union> \<Union> (set ` set xs)"
  by (induction sep xs rule: Join.induct) auto

lemma Join_tags_inject:
  assumes "\<forall>t\<in>set xs \<union> set ys. t \<noteq> [] \<and> CHR '','' \<notin> set t" "Join '','' xs = Join '','' ys"
  shows "xs = ys"
proof -
  have ne: "Join '','' zs \<noteq> []" if "zs \<noteq> []" "\<forall>t\<in>set zs. t \<noteq> []" for zs
    using that by (cases zs; cases "tl zs") auto
  show ?thesis
  proof (cases "xs = [] \<or> ys = []")
    case True
    then show ?thesis using assms ne [of xs] ne [of ys] by auto
  next
    case False
    have "Split (CHR '','') (Join '','' xs) = xs" "Split (CHR '','') (Join '','' ys) = ys"
      using False assms(1) by (auto intro!: Split_Join)
    then show ?thesis using assms(2) by metis
  qed
qed

lemma shadow_key_inject:
  assumes "clean a" "clean b" "shadow_key a = shadow_key b"
  shows "normalized a = normalized b"
proof -
  let ?parts = "\<lambda>e. [sh_Node e, sh_ServiceID e, sh_Address e, Itoa (sh_Port e), Join '','' (sort (sh_Tags e)), sh_Status e]"
  have free: "CHR 0x1F \<notin> set x" if "clean e" "x \<in> set (?parts e)" for e x
  proof -
    have "CHR 0x1F \<notin> set (decimal n)" for n using decimal_digits [of n] by (auto simp: list_all_iff is_digit_def)
    moreover have "CHR 0x1F \<notin> set (Join '','' (sort (sh_Tags e)))" using that(1) set_Join [of "'',''" "sort (sh_Tags e)"] by (auto simp: clean_def)
    ultimately show ?thesis using that by (auto simp: clean_def Itoa_def split: if_splits)
  qed
  have "Split (CHR 0x1F) (Join [CHR 0x1F] (?parts e)) = ?parts e" if "clean e" for e
    by (rule Split_Join) (use free [OF that] in auto)
  then have "?parts a = ?parts b" using assms unfolding shadow_key_def Let_def by metis
  then have p: "sh_Node a = sh_Node b" "sh_ServiceID a = sh_ServiceID b" "sh_Address a = sh_Address b" "sh_Port a = sh_Port b" "sh_Status a = sh_Status b"
    "Join '','' (sort (sh_Tags a)) = Join '','' (sort (sh_Tags b))"
    by (simp_all add: Itoa_inject)
  have "sort (sh_Tags a) = sort (sh_Tags b)"
    using Join_tags_inject [OF _ p(6)] assms(1,2) by (auto simp: clean_def)
  then show ?thesis using p by (simp add: normalized_def)
qed

lemma image_eq_iff:
  assumes "\<And>a b. a \<in> A \<union> B \<Longrightarrow> b \<in> A \<union> B \<Longrightarrow> f a = f b \<longleftrightarrow> g a = g b"
  shows "f ` A = f ` B \<longleftrightarrow> g ` A = g ` B"
proof -
  have "f ` X \<subseteq> f ` Y \<longleftrightarrow> g ` X \<subseteq> g ` Y" if "X \<subseteq> A \<union> B" "Y \<subseteq> A \<union> B" for X Y
  proof -
    have "(\<exists>y\<in>Y. f x = f y) \<longleftrightarrow> (\<exists>y\<in>Y. g x = g y)" if "x \<in> X" for x
      using assms \<open>X \<subseteq> A \<union> B\<close> \<open>Y \<subseteq> A \<union> B\<close> that by (intro bex_cong) auto
    then show ?thesis by (simp add: image_subset_iff image_iff)
  qed
  then show ?thesis by (simp add: set_eq_subset)
qed


definition ex_shadow :: "string \<Rightarrow> string list \<Rightarrow> ShadowEntry" where
  "ex_shadow node tags = \<lparr>sh_Node = node, sh_ServiceID = ''web-1'', sh_Address = ''10.0.0.1'', sh_Port = 80, sh_Tags = tags, sh_Status = ''passing''\<rparr>"

definition ex_left :: "ShadowEntry list" where
  "ex_left = [ex_shadow ''n1'' [''a'', ''b''], ex_shadow ''n2'' []]"

definition ex_right :: "ShadowEntry list" where
  "ex_right = [ex_shadow ''n2'' [], ex_shadow ''n1'' [''b'', ''a''], ex_shadow ''n2'' []]"


text \<open>A tag with a comma is not told from two tags: two different catalogs are reported equal.\<close>

lemma comma_collision: "shadow_key (ex_shadow ''n1'' [''a,b'']) = shadow_key (ex_shadow ''n1'' [''a'', ''b''])"
  by (simp add: shadow_key_def ex_shadow_def less_eq_list_code)

section \<open>What an import leaves on a seed\<close>

definition entry_sid :: "healthEntry \<Rightarrow> string" where
  "entry_sid e = (if ks_ID (hn_Service e) = [] then ks_Service (hn_Service e) else ks_ID (hn_Service e))"

definition entry_key :: "healthEntry \<Rightarrow> string \<times> string" where
  "entry_key e = (kn_Node (hn_Node e), entry_sid e)"

definition importable :: "healthEntry \<Rightarrow> bool" where
  "importable e \<longleftrightarrow> kn_Node (hn_Node e) \<noteq> [] \<and> ks_Service (hn_Service e) \<noteq> []"

definition stored :: "time \<Rightarrow> Memory \<Rightarrow> healthEntry \<Rightarrow> bool" where
  "stored now m e \<longleftrightarrow>
     (\<exists>svc. svc_at m (kn_Node (hn_Node e)) (entry_sid e) = Some svc \<and> s_Name (sv_def svc) = ks_Service (hn_Service e) \<and>
        s_Address (sv_def svc) = ks_Address (hn_Service e) \<and> s_Port (sv_def svc) = clampPort (ks_Port (hn_Service e)) \<and>
        s_Tags (sv_def svc) = ks_Tags (hn_Service e) \<and> s_LastSeen (sv_def svc) = now)"

lemma register_uncapped:
  "o_MaxServices (m_opts m) \<le> 0 \<Longrightarrow> fst (register_loop now evclk meta gen svcs sz events m) = None"
proof (induction svcs arbitrary: sz events m)
  case (Cons s svcs)
  let ?d = "normalise_def (m_opts m) now gen s"
  show ?case
  proof (cases "svc_at m (n_ID meta) (s_ID ?d)")
    case None
    obtain ev m1 where c: "create_svc evclk meta ?d m = (ev, m1)" by fastforce
    then show ?thesis using Cons None m_opts_create_svc [OF c] by (simp add: Let_def)
  next
    case (Some svc)
    then show ?thesis using Cons.IH Cons.prems by (auto simp: Let_def next_index_def store_simps)
  qed
qed simp

lemma Memory_Register_uncapped:
  "n_ID (r_Node reg) \<noteq> [] \<Longrightarrow> \<forall>s\<in>set (r_Services reg). s_Name s \<noteq> [] \<Longrightarrow> o_MaxServices (m_opts m) \<le> 0 \<Longrightarrow>
   fst (Memory_Register now evclk reg m) = None"
  by (auto simp: Memory_Register_def list_ex_iff store_simps intro!: register_uncapped)

definition open_surface :: "Handler \<Rightarrow> Memory surface \<Rightarrow> bool" where
  "open_surface h su \<longleftrightarrow>
     (case ha_authz h of None \<Rightarrow> True | Some a \<Rightarrow> \<not> Enforcing a) \<and> (case su_rrl su of None \<Rightarrow> True | Some l \<Rightarrow> rl_limit l \<le> 0) \<and>
     o_MaxServices (m_opts (su_reg su)) \<le> 0"

lemma route_register: "route_in routes ''PUT'' (path_segments ''/v1/catalog/register'') = Some (CatalogRegisterE, fmempty)"
  by code_simp

lemma seed_put_one:
  assumes "open_surface h su" "importable e"
  shows "\<exists>su'. seed_put (NewStoreRegistry now evclk order node) h now remote dst (dst @ ''/v1/catalog/register'') (registerBody e) su = (Some 200, su') \<and>
    open_surface h su' \<and> stored now (su_reg su') e \<and>
    (\<forall>nid sid. (nid, sid) \<noteq> entry_key e \<longrightarrow> svc_at (su_reg su') nid sid = svc_at (su_reg su) nid sid)"
proof -
  let ?reg = "catalog_registration h (registerBody e)"
  have ids: "n_ID (r_Node ?reg) = kn_Node (hn_Node e)" "r_Services ?reg \<noteq> []" "map svc_id (r_Services ?reg) = [entry_sid e]"
    using assms(2) by (auto simp: catalog_registration_def registerBody_def importable_def entry_sid_def svc_id_def Let_def)
  have named: "\<forall>s\<in>set (r_Services ?reg). s_Name s \<noteq> []"
    using assms(2) by (simp add: catalog_registration_def registerBody_def importable_def Let_def)
  obtain err es m where run: "Memory_Register now evclk ?reg (su_reg su) = (err, es, m)" by (metis prod_cases3)
  have "err = None"
    using run Memory_Register_uncapped [of ?reg "su_reg su" now evclk] ids(1) assms named by (simp add: open_surface_def importable_def)
  with run have run: "Memory_Register now evclk ?reg (su_reg su) = (None, es, m)" by simp
  note eff = Memory_Register_effect [OF run]
  have lim: "Limiter_Allow now k (su_rrl su) = (True, su_rrl su)" for k
    using assms(1) by (auto simp: open_surface_def Limiter_Allow_def split: option.splits)
  have auth: "authorizeWrite h r" for r using assms(1) by (auto simp: open_surface_def authorizeWrite_def split: option.splits)
  have "seed_put (NewStoreRegistry now evclk order node) h now remote dst (dst @ ''/v1/catalog/register'') (registerBody e) su = (Some 200, su\<lparr>su_reg := m\<rparr>)"
    using assms(2) by (simp add: seed_put_def serve_http_def import_request_def lim route_register dispatch_def catalogRegister_def auth
      NewStoreRegistry_def StoreRegistry_RegisterExternal_def of_outcome_def run of_write_def http_status_def Let_def)
       (simp add: importable_def registerBody_def Let_def)
  moreover have "open_surface h (su\<lparr>su_reg := m\<rparr>)" using assms(1) eff ids(3) by (simp add: open_surface_def)
  moreover have "stored now m e"
    using eff ids assms(2)
    by (auto simp: stored_def holds_at_def changed_def catalog_registration_def registerBody_def importable_def entry_sid_def svc_id_def normalise_def_def
        equalStrings_iff Let_def split: if_splits)
  moreover have "svc_at m nid sid = svc_at (su_reg su) nid sid" if "(nid, sid) \<noteq> entry_key e" for nid sid
  proof -
    have "svc_id ` set (r_Services ?reg) = {entry_sid e}" using ids(3) by (metis list.set(1) list.simps(15) list.set_map)
    then show ?thesis using eff ids that by (auto simp: entry_key_def)
  qed
  ultimately show ?thesis by auto
qed

lemma import_entries_seed:
  assumes "open_surface h su" "\<forall>e\<in>set es. importable e" "distinct (map entry_key es)"
  shows "\<exists>su'. import_entries (seed_put (NewStoreRegistry now evclk order node) h now remote dst) dst es written su = (None, written + length es, su') \<and>
    open_surface h su' \<and> (\<forall>e\<in>set es. stored now (su_reg su') e) \<and>
    (\<forall>nid sid. (nid, sid) \<notin> entry_key ` set es \<longrightarrow> svc_at (su_reg su') nid sid = svc_at (su_reg su) nid sid)"
  using assms
proof (induction es arbitrary: written su)
  case (Cons e es)
  obtain su1 where 1: "seed_put (NewStoreRegistry now evclk order node) h now remote dst (dst @ ''/v1/catalog/register'') (registerBody e) su = (Some 200, su1)"
    "open_surface h su1" "stored now (su_reg su1) e"
    "\<forall>nid sid. (nid, sid) \<noteq> entry_key e \<longrightarrow> svc_at (su_reg su1) nid sid = svc_at (su_reg su) nid sid"
    using seed_put_one [OF Cons.prems(1)] Cons.prems(2) by (meson list.set_intros(1))
  obtain su' where 2: "import_entries (seed_put (NewStoreRegistry now evclk order node) h now remote dst) dst es (written + 1) su1 = (None, written + 1 + length es, su')"
    "open_surface h su'" "\<forall>e\<in>set es. stored now (su_reg su') e"
    "\<forall>nid sid. (nid, sid) \<notin> entry_key ` set es \<longrightarrow> svc_at (su_reg su') nid sid = svc_at (su_reg su1) nid sid"
    using Cons.IH [OF 1(2), of "written + 1"] Cons.prems by auto
  have "stored now (su_reg su') e"
    using 1(3) 2(4) Cons.prems(3) by (auto simp: stored_def entry_key_def)
  then show ?case using 1 2 by auto
qed simp

text \<open>The entries of the pages of a source that serves them all.\<close>

definition serves :: "(string \<Rightarrow> reply) \<Rightarrow> string \<Rightarrow> string list \<Rightarrow> (string \<Rightarrow> healthEntry list) \<Rightarrow> bool" where
  "serves get src names page \<longleftrightarrow>
     get (src @ ''/v1/catalog/services'') = Reply 200 (ServicesDoc names) \<and>
     (\<forall>name\<in>set names. get (src @ ''/v1/health/service/'' @ name) = Reply 200 (HealthDoc (page name)))"

lemma import_services_seed:
  assumes "\<forall>name\<in>set names. get (src @ ''/v1/health/service/'' @ name) = Reply 200 (HealthDoc (page name))"
    and "open_surface h su" "\<forall>e\<in>set (concat (map page names)). importable e" "distinct (map entry_key (concat (map page names)))"
  shows "\<exists>su'. import_services get (seed_put (NewStoreRegistry now evclk order node) h now remote dst) src dst names written su =
      (None, written + length (concat (map page names)), su') \<and>
    (\<forall>e\<in>set (concat (map page names)). stored now (su_reg su') e) \<and>
    (\<forall>nid sid. (nid, sid) \<notin> entry_key ` set (concat (map page names)) \<longrightarrow> svc_at (su_reg su') nid sid = svc_at (su_reg su) nid sid)"
  using assms
proof (induction names arbitrary: written su)
  case (Cons name names)
  have g: "getHealth (get (src @ ''/v1/health/service/'' @ name)) = Some (page name)" using Cons.prems(1) by (simp add: getHealth_def)
  obtain su1 where 1: "import_entries (seed_put (NewStoreRegistry now evclk order node) h now remote dst) dst (page name) written su =
      (None, written + length (page name), su1)" "open_surface h su1" "\<forall>e\<in>set (page name). stored now (su_reg su1) e"
    "\<forall>nid sid. (nid, sid) \<notin> entry_key ` set (page name) \<longrightarrow> svc_at (su_reg su1) nid sid = svc_at (su_reg su) nid sid"
    using import_entries_seed [OF Cons.prems(2), of "page name" now evclk order node remote dst written] Cons.prems(3,4) by auto
  have rest: "\<forall>name\<in>set names. get (src @ ''/v1/health/service/'' @ name) = Reply 200 (HealthDoc (page name))"
    "\<forall>e\<in>set (concat (map page names)). importable e" "distinct (map entry_key (concat (map page names)))"
    using Cons.prems(1,3,4) by auto
  obtain su' where 2: "import_services get (seed_put (NewStoreRegistry now evclk order node) h now remote dst) src dst names (written + length (page name)) su1 =
      (None, written + length (page name) + length (concat (map page names)), su')" "\<forall>e\<in>set (concat (map page names)). stored now (su_reg su') e"
    "\<forall>nid sid. (nid, sid) \<notin> entry_key ` set (concat (map page names)) \<longrightarrow> svc_at (su_reg su') nid sid = svc_at (su_reg su1) nid sid"
    using Cons.IH [OF rest(1) 1(2) rest(2,3), of "written + length (page name)"] by blast
  have "stored now (su_reg su') e" if "e \<in> set (page name)" for e
  proof -
    have "entry_key e \<notin> entry_key ` set (concat (map page names))" using that Cons.prems(4) by auto
    then show ?thesis using that 1(3) 2(3) by (simp add: stored_def entry_key_def)
  qed
  moreover have "svc_at (su_reg su') nid sid = svc_at (su_reg su) nid sid" if "(nid, sid) \<notin> entry_key ` set (concat (map page (name # names)))" for nid sid
    using that 1(4) 2(3) by (simp add: image_Un)
  ultimately show ?case using g 1(1) 2(1,2) by (intro exI [of _ su'] conjI ballI allI impI) (auto simp: add.assoc)
qed simp


definition ex_health :: "string \<Rightarrow> string \<Rightarrow> healthEntry" where
  "ex_health node sid =
     \<lparr>hn_Node = \<lparr>kn_Node = node, kn_Address = ''10.1.0.1'', kn_Datacenter = ''dc1'', kn_Meta = fmempty\<rparr>,
      hn_Service = \<lparr>ks_ID = sid, ks_Service = ''api'', ks_Address = [], ks_Port = 443, ks_Tags = [''v2''], ks_Meta = fmempty\<rparr>\<rparr>"

definition ex_page :: "string \<Rightarrow> healthEntry list" where
  "ex_page name = [ex_health ''x1'' ''api-1'', ex_health ''x2'' []]"

definition ex_source :: "string \<Rightarrow> reply" where
  "ex_source url = (if url = ''http://c:8500/v1/catalog/services'' then Reply 200 (ServicesDoc [''api'']) else Reply 200 (HealthDoc (ex_page ''api'')))"

definition ex_open :: Handler where
  "ex_open = ex_handler\<lparr>ha_authz := None\<rparr>"

definition ex_uncapped :: Memory where
  "ex_uncapped = snd (snd (Memory_Register 100 (\<lambda>_. 100) ex_reg (NewMemory (ex_opts\<lparr>o_MaxServices := 0\<rparr>))))"

definition ex_target :: "Memory surface" where
  "ex_target = (ex_surface ex_uncapped)\<lparr>su_rrl := None\<rparr>"


end
