(* ===== verification/Commands.thy ===== *)
theory Commands
  imports Loops Migrate
begin

text \<open>
  \<^verbatim>\<open>cmd/yp\<close>: the commands (\<^verbatim>\<open>root.go\<close>, \<^verbatim>\<open>bootstrap.go\<close>, \<^verbatim>\<open>import.go\<close>) from their flags to what they start, print or write, and the
  transport security they use (\<^verbatim>\<open>internal/cred/credentials.go\<close>, \<^verbatim>\<open>internal/transport\<close>). The flag parser, the TLS handshake and the
  gRPC connection belong to libraries and are parameters. Shown: what is refused before anything
  starts, that a flag for TLS never ends in plain text, that a mutual-TLS server admits verified clients only.
\<close>

section \<open>Transport security\<close>

text \<open>What \<^verbatim>\<open>ServerOptions\<close> and \<^verbatim>\<open>DialOptions\<close> put into the TLS configuration; \<open>None\<close> is plain text.\<close>

record serverTLS =
  sv_reloader :: certReloader
  sv_requireClient :: bool
  sv_clientCAs :: "nat option"

record clientTLS =
  ct_rootCAs :: "nat option"
  ct_serverName :: string
  ct_certificate :: "certReloader option"

definition ServerOptions :: "tlsCreds option \<Rightarrow> serverTLS option" where
  "ServerOptions creds =
     (case creds of
        None \<Rightarrow> None
      | Some t \<Rightarrow> Some \<lparr>sv_reloader = tc_reloader t, sv_requireClient = tc_mutual t, sv_clientCAs = (if tc_mutual t then tc_pool t else None)\<rparr>)"

definition DialOptions :: "string \<Rightarrow> tlsCreds option \<Rightarrow> clientTLS option" where
  "DialOptions serverName creds =
     (case creds of
        None \<Rightarrow> None
      | Some t \<Rightarrow> Some \<lparr>ct_rootCAs = tc_pool t, ct_serverName = serverName, ct_certificate = (if tc_mutual t then Some (tc_reloader t) else None)\<rparr>)"

text \<open>
  The handshake of the TLS library as far as the client's certificate goes: a server that requires one admits a client
  whose certificate verifies against its pool. \<open>verify\<close> is the library's chain verification.
\<close>

definition admits :: "(nat option \<Rightarrow> string \<Rightarrow> bool) \<Rightarrow> serverTLS option \<Rightarrow> string option \<Rightarrow> bool" where
  "admits verify sv presented =
     (case sv of
        None \<Rightarrow> True
      | Some s \<Rightarrow> if sv_requireClient s then (case presented of None \<Rightarrow> False | Some c \<Rightarrow> verify (sv_clientCAs s) c) else True)"

text \<open>A node dials with the certificate its reloader holds at that moment when the configuration is mutual, and without one otherwise.\<close>

definition presents :: "Disk \<Rightarrow> clientTLS option \<Rightarrow> string option" where
  "presents d ct =
     (case ct of None \<Rightarrow> None | Some c \<Rightarrow> (case ct_certificate c of None \<Rightarrow> None | Some r \<Rightarrow> fst (current d d d r)))"

theorem mutual_tls:
  assumes "NewTLS d certFile keyFile caFile True = Inr t" "admits verify (ServerOptions (Some t)) presented"
  shows "\<exists>n c. dk_ca d caFile = Some n \<and> n > 0 \<and> presented = Some c \<and> verify (Some n) c"
  using assms
  by (auto simp: NewTLS_def loadCAPool_def ServerOptions_def admits_def Let_def split: option.splits sum.splits if_splits)

lemma cached_after_current: "cr_cached r \<noteq> None \<Longrightarrow> fst (current d d d r) \<noteq> None"
  by (auto simp: current_def reload_def Let_def split: option.splits)

text \<open>Two nodes of a mutual cluster: what one presents when it dials is a certificate, and the other decides on it.\<close>

theorem mutual_dial_presents:
  assumes "NewTLS d certFile keyFile caFile True = Inr t"
  shows "presents d' (DialOptions serverName (Some t)) \<noteq> None"
proof -
  have "tc_mutual t" "cr_cached (tc_reloader t) \<noteq> None"
    using assms by (auto simp: NewTLS_def newCertReloader_def reload_def Let_def split: option.splits sum.splits if_splits)
  then show ?thesis using cached_after_current by (simp add: presents_def DialOptions_def)
qed

section \<open>Logging\<close>

definition Atoi :: "string \<Rightarrow> int option" where
  "Atoi s =
     (let neg = (s \<noteq> [] \<and> hd s = CHR ''-''); ds = (if s \<noteq> [] \<and> hd s \<in> {CHR ''-'', CHR ''+''} then tl s else s);
          v = int (digits_value ds) in
      if ds = [] \<or> \<not> list_all is_digit ds then None
      else if v > (if neg then 2 ^ 63 else 2 ^ 63 - 1) then None
      else Some (if neg then - v else v))"

text \<open>\<^verbatim>\<open>slog.Level.UnmarshalText\<close>: a name in any ASCII case, with an offset.\<close>

definition level_UnmarshalText :: "string \<Rightarrow> int option" where
  "level_UnmarshalText s =
     (let name = takeWhile (\<lambda>c. c \<notin> {CHR ''+'', CHR ''-''}) s; off = dropWhile (\<lambda>c. c \<notin> {CHR ''+'', CHR ''-''}) s in
      case (if off = [] then Some 0 else Atoi off) of
        None \<Rightarrow> None
      | Some n \<Rightarrow>
          (let nm = ToLower name in
           if nm = ''debug'' then Some (n - 4) else if nm = ''info'' then Some n else if nm = ''warn'' then Some (n + 4)
           else if nm = ''error'' then Some (n + 8) else None))"

datatype logger_error = InvalidLevel string | InvalidFormat string

datatype log_format = JSONFormat | TextFormat

definition newLogger :: "string \<Rightarrow> string \<Rightarrow> logger_error + int \<times> log_format" where
  "newLogger level format =
     (case level_UnmarshalText level of
        None \<Rightarrow> Inl (InvalidLevel level)
      | Some lvl \<Rightarrow>
          if format = ''json'' then Inr (lvl, JSONFormat)
          else if format = ''text'' then Inr (lvl, TextFormat)
          else Inl (InvalidFormat format))"

section \<open>The node\<close>

datatype start_error =
    ConfigFailed load_error | LoggerFailed logger_error | SecurityFailed security_error | BuildFailed Wiring.build_error

datatype started = SeedStarted SeedNode | AgentStarted AgentNode | NothingStarted

text \<open>What the command meets: the random bytes and the directories, the disk, the decoder of the token file, the plugin, the other datacenters.\<close>

record Host =
  ho_rnd :: "8 word list option"
  ho_mkdir :: bool
  ho_write :: bool
  ho_disk :: Disk
  ho_yaml :: "string \<Rightarrow> smap option"
  ho_machine :: Machine
  ho_dcs :: "Configuration \<Rightarrow> (string \<times> string list) list"
  ho_dial :: "string \<Rightarrow> bool"

definition buildComponents :: "Host \<Rightarrow> files \<Rightarrow> Configuration \<Rightarrow> security \<Rightarrow> string list \<Rightarrow> Wiring.build_error + started" where
  "buildComponents h fs cfg sec seeds =
     (if cf_Role cfg = RoleSeed
      then (case buildSeed fs (ho_dial h) cfg sec of Inl err \<Rightarrow> Inl err | Inr sn \<Rightarrow> Inr (SeedStarted sn))
      else if cf_Role cfg = RoleAgent
      then (case buildAgent (ho_dial h) (ho_dcs h cfg) fs cfg sec seeds of Inl err \<Rightarrow> Inl err | Inr ax \<Rightarrow> Inr (AgentStarted ax))
      else Inr NothingStarted)"

text \<open>\<^verbatim>\<open>RunE\<close> of the root command up to the point where the application runs. A failed seed resolution is only logged.\<close>

definition root_RunE :: "Host \<Rightarrow> string \<Rightarrow> decoded option \<Rightarrow> string \<Rightarrow> string \<Rightarrow> string \<Rightarrow> files
    \<Rightarrow> (start_error + Configuration \<times> security \<times> started) \<times> files" where
  "root_RunE h path file roleFlag logLevel logFormat fs =
     (case runConfig path file roleFlag of
        Inl err \<Rightarrow> (Inl (ConfigFailed err), fs)
      | Inr cfg \<Rightarrow>
          (case newLogger logLevel logFormat of
             Inl err \<Rightarrow> (Inl (LoggerFailed err), fs)
           | Inr _ \<Rightarrow>
               (case setupSecurity (ho_rnd h) (ho_mkdir h) (ho_write h) (ho_disk h) (ho_yaml h) cfg fs of
                  (Inl err, fs) \<Rightarrow> (Inl (SecurityFailed err), fs)
                | (Inr sec, fs) \<Rightarrow>
                    (let seeds = (case Merged_Seeds (ho_machine h) (buildSeedProvider cfg) of Inl _ \<Rightarrow> [] | Inr s \<Rightarrow> s) in
                     case buildComponents h fs cfg sec seeds of
                       Inl err \<Rightarrow> (Inl (BuildFailed err), fs)
                     | Inr node \<Rightarrow> (Inr (cfg, sec, node), fs)))))"

text \<open>The first error decides: a command that is refused has written nothing unless it got as far as the node identity.\<close>

lemma refused_before_identity:
  "root_RunE h path file roleFlag logLevel logFormat fs = (Inl err, fs') \<Longrightarrow> fs' \<noteq> fs \<Longrightarrow>
   (\<exists>e. err = SecurityFailed e) \<or> (\<exists>e. err = BuildFailed e)"
  by (auto simp: root_RunE_def Let_def split: sum.splits prod.splits)

lemma runConfig_typed: "runConfig path file roleFlag = Inr cfg \<Longrightarrow> Validate cfg = [] \<and> (roleFlag \<noteq> [] \<longrightarrow> cf_Role cfg = roleFlag)"
  by (auto simp: runConfig_def Load_def Parse_def Let_def split: option.splits sum.splits decoded.splits if_splits)

lemma Validate_role: "Validate cfg = [] \<Longrightarrow> cf_Role cfg \<in> {RoleAgent, RoleSeed}"
  by (simp add: Validate_def check_def split: if_splits)

lemma roles_differ: "RoleSeed \<noteq> RoleAgent"
  by (simp add: RoleSeed_def RoleAgent_def)

text \<open>
  A node that starts has a configuration that passed validation, in the role the flag asks for, and is a seed or an agent
  accordingly; an agent has at least one seed to talk to; and with mutual TLS it has a trust anchor with a certificate in it.
\<close>

theorem node_started:
  assumes run: "root_RunE h path file roleFlag logLevel logFormat fs = (Inr (cfg, sec, node), fs')"
  shows "Validate cfg = []" "roleFlag \<noteq> [] \<Longrightarrow> cf_Role cfg = roleFlag"
    and "cf_Role cfg = RoleSeed \<Longrightarrow> \<exists>sn. node = SeedStarted sn"
    and "cf_Role cfg \<noteq> RoleSeed \<Longrightarrow> \<exists>ax. node = AgentStarted ax \<and> sc_conns (ax_client ax) \<noteq> [] \<and> distinct (sc_conns (ax_client ax))"
    and "tl_Enabled (cf_TLS cfg) \<Longrightarrow> tl_MutualTLS (cf_TLS cfg) \<Longrightarrow>
      \<exists>t n. se_creds sec = Some t \<and> tc_mutual t \<and> tc_pool t = Some n \<and> n > 0"
proof -
  from run have cfg: "runConfig path file roleFlag = Inr cfg"
    by (auto simp: root_RunE_def Let_def split: sum.splits prod.splits)
  from run obtain fs1 where sec: "setupSecurity (ho_rnd h) (ho_mkdir h) (ho_write h) (ho_disk h) (ho_yaml h) cfg fs = (Inr sec, fs1)"
    and built: "buildComponents h fs1 cfg sec (case Merged_Seeds (ho_machine h) (buildSeedProvider cfg) of Inl _ \<Rightarrow> [] | Inr s \<Rightarrow> s) = Inr node"
    by (auto simp: root_RunE_def Let_def split: sum.splits prod.splits)
  show v: "Validate cfg = []" and "roleFlag \<noteq> [] \<Longrightarrow> cf_Role cfg = roleFlag" using runConfig_typed [OF cfg] by auto
  show "cf_Role cfg = RoleSeed \<Longrightarrow> \<exists>sn. node = SeedStarted sn"
    using built by (auto simp: buildComponents_def split: sum.splits)
  { assume "cf_Role cfg \<noteq> RoleSeed"
    then have r: "cf_Role cfg = RoleAgent" using Validate_role [OF v] by auto
    let ?seeds = "case Merged_Seeds (ho_machine h) (buildSeedProvider cfg) of Inl _ \<Rightarrow> [] | Inr s \<Rightarrow> s"
    obtain ax where ax: "buildAgent (ho_dial h) (ho_dcs h cfg) fs1 cfg sec ?seeds = Inr ax" "node = AgentStarted ax"
      using built r roles_differ by (auto simp: buildComponents_def split: sum.splits)
    have "?seeds \<noteq> []" using ax(1) by (auto simp: buildAgent_def split: if_splits)
    moreover have "distinct out" if "Merged_Seeds (ho_machine h) (buildSeedProvider cfg) = Inr out" for out
      using conjunct2 [OF merged_seeds] that by blast
    then have "distinct ?seeds" by (simp split: sum.splits)
    ultimately show "\<exists>ax. node = AgentStarted ax \<and> sc_conns (ax_client ax) \<noteq> [] \<and> distinct (sc_conns (ax_client ax))"
      using agent_client [OF ax(1)] ax(2) by auto }
  show "tl_Enabled (cf_TLS cfg) \<Longrightarrow> tl_MutualTLS (cf_TLS cfg) \<Longrightarrow> \<exists>t n. se_creds sec = Some t \<and> tc_mutual t \<and> tc_pool t = Some n \<and> n > 0"
    using sec
    by (auto simp: setupSecurity_def NewTLS_def loadCAPool_def Let_def split: sum.splits prod.splits option.splits if_splits)
qed

section \<open>The bootstrap client\<close>

datatype client_creds = PlainText | ClientTLS bool "nat option" "string option"

definition bootstrapCreds :: "Disk \<Rightarrow> bool \<Rightarrow> string \<Rightarrow> string \<Rightarrow> string \<Rightarrow> bool \<Rightarrow> tls_error + client_creds" where
  "bootstrapCreds d useTLS caFile certFile keyFile insec =
     (if \<not> useTLS \<and> \<not> insec \<and> caFile = [] \<and> certFile = [] \<and> keyFile = [] then Inr PlainText
      else
        (let with_pool = (\<lambda>pool.
               if certFile \<noteq> [] \<or> keyFile \<noteq> []
               then (case dk_pair d certFile keyFile of
                       None \<Rightarrow> Inl PairNotLoaded
                     | Some cert \<Rightarrow> Inr (ClientTLS insec pool (Some cert)))
               else Inr (ClientTLS insec pool None)) in
         if caFile \<noteq> []
         then (case dk_ca d caFile of
                 None \<Rightarrow> Inl CANotRead
               | Some n \<Rightarrow> if n = 0 then Inl NoCertificates else with_pool (Some n))
         else with_pool None))"

record bootstrapFlags =
  bf_seed :: string
  bf_role :: string
  bf_token :: string
  bf_out :: string
  bf_tls :: bool
  bf_ca :: string
  bf_cert :: string
  bf_key :: string
  bf_insecure :: bool

datatype 'e bootstrap_cmd_error = MissingFlags | CredsFailed tls_error | NoConnection string | CallFailed 'e | NotWritten

datatype written = ToStdout string | ToFile string string

text \<open>
  \<open>connect\<close> is the library's client constructor, \<open>call\<close> the RPC with the credentials, the seed, the token and the role it is sent with, \<open>write_ok\<close> whether
  the output can be written.
\<close>

definition bootstrap_cmd :: "Disk \<Rightarrow> string \<Rightarrow> (string \<Rightarrow> client_creds \<Rightarrow> string option)
    \<Rightarrow> (client_creds \<Rightarrow> string \<Rightarrow> string \<Rightarrow> string \<Rightarrow> 'e + string) \<Rightarrow> bool \<Rightarrow> bootstrapFlags \<Rightarrow> 'e bootstrap_cmd_error + written" where
  "bootstrap_cmd d env connect call write_ok f =
     (let token = (if bf_token f = [] then env else bf_token f) in
      if bf_seed f = [] \<or> token = [] then Inl MissingFlags
      else case bootstrapCreds d (bf_tls f) (bf_ca f) (bf_cert f) (bf_key f) (bf_insecure f) of
        Inl err \<Rightarrow> Inl (CredsFailed err)
      | Inr creds \<Rightarrow>
          (case connect (bf_seed f) creds of
             Some err \<Rightarrow> Inl (NoConnection err)
           | None \<Rightarrow>
               (case call creds (bf_seed f) token (bf_role f) of
                  Inl err \<Rightarrow> Inl (CallFailed err)
                | Inr config \<Rightarrow>
                    if \<not> write_ok then Inl NotWritten
                    else if bf_out f \<in> {[], ''-''} then Inr (ToStdout config)
                    else Inr (ToFile (bf_out f) config))))"

text \<open>
  What the command sends the token over: plain text only when no flag for TLS was given, and unverified TLS only when that was asked for.
\<close>

theorem bootstrap_no_downgrade:
  assumes "bootstrapCreds d useTLS caFile certFile keyFile insec = Inr creds"
  shows "creds = PlainText \<longleftrightarrow> \<not> useTLS \<and> \<not> insec \<and> caFile = [] \<and> certFile = [] \<and> keyFile = []"
    and "creds = ClientTLS skip pool cert \<Longrightarrow> skip = insec \<and> (pool \<noteq> None \<longleftrightarrow> caFile \<noteq> []) \<and> (cert \<noteq> None \<longleftrightarrow> certFile \<noteq> [] \<or> keyFile \<noteq> [])"
  using assms
  by (cases "dk_ca d caFile"; cases "dk_pair d certFile keyFile"; auto simp: bootstrapCreds_def Let_def split: if_splits)+

text \<open>The command writes what the seed answered to this token and role, and nothing else.\<close>

theorem bootstrap_cmd_writes:
  assumes "bootstrap_cmd d env connect call write_ok f = Inr w"
  shows "\<exists>creds config. call creds (bf_seed f) (if bf_token f = [] then env else bf_token f) (bf_role f) = Inr config \<and>
    bootstrapCreds d (bf_tls f) (bf_ca f) (bf_cert f) (bf_key f) (bf_insecure f) = Inr creds \<and>
    w = (if bf_out f \<in> {[], ''-''} then ToStdout config else ToFile (bf_out f) config)"
  using assms by (auto simp: bootstrap_cmd_def Let_def split: sum.splits option.splits if_splits)

text \<open>\<^verbatim>\<open>create-token\<close> reads the configuration of the seed.\<close>

datatype create_cmd_error = ConfigNotLoaded load_error | NotCreated create_error

definition create_token_cmd :: "(string \<Rightarrow> string option) \<Rightarrow> string \<Rightarrow> decoded option \<Rightarrow> duration \<Rightarrow> time \<Rightarrow> bytes option \<Rightarrow> create_cmd_error + string" where
  "create_token_cmd readFile path file ttl now rnd =
     (case Load path file of
        Inl err \<Rightarrow> Inl (ConfigNotLoaded err)
      | Inr cfg \<Rightarrow> (case create_token readFile cfg ttl now rnd of Inl err \<Rightarrow> Inl (NotCreated err) | Inr token \<Rightarrow> Inr token))"

section \<open>The import command\<close>

definition import_cmd :: "(string \<Rightarrow> reply) \<Rightarrow> 't putter \<Rightarrow> string \<Rightarrow> string \<Rightarrow> 't \<Rightarrow> (import_error + nat) \<times> 't" where
  "import_cmd get put src target t =
     (case Import get put src target t of
        (Some err, n, t') \<Rightarrow> (Inl err, t')
      | (None, n, t') \<Rightarrow> (Inr n, t'))"

end
