(* ===== verification/ClientLib.thy ===== *)
theory ClientLib
  imports AgentWatch
begin

text \<open>
  The client library at work: the goroutine of \<^verbatim>\<open>Client.Watch\<close> (\<^verbatim>\<open>client/sdk/sdk.go\<close>) and the loop of the gRPC resolver
  (\<^verbatim>\<open>client/grpcresolver/resolver.go\<close>) run side by side over a channel of one place, and each select of
  \<^verbatim>\<open>emit\<close> is a step of its own. Dialling, with its options, and opening the stream belong to the gRPC library and are parameters.
  Shown: no interleaving loses the latest set, \<^verbatim>\<open>emit\<close> always ends, a resolver that is at rest balances over
  the set the agent last showed, and a failed \<^verbatim>\<open>Build\<close> leaves no connection open.
\<close>

section \<open>Connections\<close>

record 'conn Client =
  cl_conn :: "'conn option"
  cl_owned :: bool

definition sdk_Dial :: "(string \<Rightarrow> string + 'conn) \<Rightarrow> string \<Rightarrow> string + 'conn Client" where
  "sdk_Dial newClient target =
     (case newClient (Dial_target target) of
        Inl err \<Rightarrow> Inl err
      | Inr conn \<Rightarrow> Inr \<lparr>cl_conn = Some conn, cl_owned = True\<rparr>)"

definition sdk_Wrap :: "'conn option \<Rightarrow> 'conn Client" where
  "sdk_Wrap conn = \<lparr>cl_conn = conn, cl_owned = False\<rparr>"

text \<open>The connections that \<^verbatim>\<open>Close\<close> closes.\<close>

definition Client_Close :: "'conn Client \<Rightarrow> 'conn list" where
  "Client_Close c = (if cl_owned c then (case cl_conn c of Some conn \<Rightarrow> [conn] | None \<Rightarrow> []) else [])"

datatype resolver_error = NoServiceName | DialAgent string string | WatchFailed string string

text \<open>
  \<open>Build\<close>: the resolver's client and query, or the error; with the connections that were closed on the way.
\<close>

definition Build :: "(string \<Rightarrow> string + 'conn) \<Rightarrow> ('conn Client \<Rightarrow> Query \<Rightarrow> string option) \<Rightarrow> string \<Rightarrow> string
    \<Rightarrow> (resolver_error + 'conn Client \<times> Query) \<times> 'conn list" where
  "Build newClient openWatch host path =
     (case resolver_target host path of
        None \<Rightarrow> (Inl NoServiceName, [])
      | Some (agentAddr, q) \<Rightarrow>
          (case sdk_Dial newClient agentAddr of
             Inl err \<Rightarrow> (Inl (DialAgent agentAddr err), [])
           | Inr client \<Rightarrow>
               (case openWatch client q of
                  Some err \<Rightarrow> (Inl (WatchFailed (q_Name q) err), Client_Close client)
                | None \<Rightarrow> (Inr (client, q), []))))"

text \<open>
  \<open>Build\<close> asks for the healthy instances of the service the target names, at the agent it names or the default one; when it
  fails every connection it dialled is closed, and when it succeeds \<open>Close\<close> of the resolver closes that connection.
\<close>

theorem Build_connections:
  assumes "Build newClient openWatch host path = (r, closed)"
  shows "case r of
      Inl NoServiceName \<Rightarrow> TrimPrefix path ''/'' = [] \<and> closed = []
    | Inl (DialAgent addr err) \<Rightarrow> newClient addr = Inl err \<and> closed = []
    | Inl (WatchFailed name err) \<Rightarrow>
        (\<exists>conn. newClient (if host = [] then DefaultAgentAddress else host) = Inr conn \<and> closed = [conn])
    | Inr (client, q) \<Rightarrow> closed = [] \<and> q_Name q = TrimPrefix path ''/'' \<and> q_OnlyHealthy q
        \<and> (\<exists>conn. newClient (if host = [] then DefaultAgentAddress else host) = Inr conn \<and> Client_Close client = [conn])"
proof -
  have d: "Dial_target (if host = [] then DefaultAgentAddress else host) = (if host = [] then DefaultAgentAddress else host)"
    by (simp add: Dial_target_def)
  show ?thesis
    using assms
    by (auto simp: Build_def resolver_target_def sdk_Dial_def d Client_Close_def Let_def split: option.splits sum.splits if_splits
        simp: Dial_target_def)
qed

section \<open>The watch goroutine and the resolver's loop\<close>

datatype reader_pc =
    Receiving | Sending "pb_ServiceEntry list" | Draining "pb_ServiceEntry list" | ChannelClosed

record ResolverRun =
  rr_stream :: "pb_WatchResponse list"
  rr_set :: "(string, pb_ServiceEntry) fmap"
  rr_ready :: bool
  rr_pc :: reader_pc
  rr_out :: "pb_ServiceEntry list option"
  rr_state :: "Address list option"
  rr_done :: bool

definition resolver_init :: "pb_WatchResponse list \<Rightarrow> ResolverRun" where
  "resolver_init msgs = \<lparr>rr_stream = msgs, rr_set = fmempty, rr_ready = False, rr_pc = Receiving, rr_out = None,
     rr_state = None, rr_done = False\<rparr>"

text \<open>One turn of the goroutine after a message: the set, the flag, and whether it goes on to \<^verbatim>\<open>emit\<close>.\<close>

definition reader_recv :: "pb_WatchResponse \<Rightarrow> ResolverRun \<Rightarrow> ResolverRun" where
  "reader_recv resp s =
     (let set' = sdk_apply (px_Event resp) (rr_set s);
          ready = (rr_ready s \<or> px_SnapshotDone resp) in
      s\<lparr>rr_set := set', rr_ready := ready, rr_pc := (if ready then Sending (sdk_snapshot set') else Receiving)\<rparr>)"

inductive resolver_step :: "ResolverRun \<Rightarrow> ResolverRun \<Rightarrow> bool" where
  recv: "rr_pc s = Receiving \<Longrightarrow> rr_stream s = r # rs \<Longrightarrow> resolver_step s (reader_recv r (s\<lparr>rr_stream := rs\<rparr>))"
| recv_err: "rr_pc s = Receiving \<Longrightarrow> resolver_step s (s\<lparr>rr_pc := ChannelClosed\<rparr>)"
| send: "rr_pc s = Sending snap \<Longrightarrow> rr_out s = None \<Longrightarrow> resolver_step s (s\<lparr>rr_out := Some snap, rr_pc := Receiving\<rparr>)"
| send_full: "rr_pc s = Sending snap \<Longrightarrow> rr_out s = Some old \<Longrightarrow> resolver_step s (s\<lparr>rr_pc := Draining snap\<rparr>)"
| drain: "rr_pc s = Draining snap \<Longrightarrow> resolver_step s (s\<lparr>rr_out := None, rr_pc := Sending snap\<rparr>)"
| update: "\<not> rr_done s \<Longrightarrow> rr_out s = Some snap \<Longrightarrow>
    resolver_step s (s\<lparr>rr_out := None, rr_state := Some (toAddresses snap)\<rparr>)"
| run_end: "\<not> rr_done s \<Longrightarrow> rr_out s = None \<Longrightarrow> rr_pc s = ChannelClosed \<Longrightarrow> resolver_step s (s\<lparr>rr_done := True\<rparr>)"

inductive_cases resolver_stepE: "resolver_step s s'"

section \<open>The latest set is never lost\<close>

definition latest_kept :: "ResolverRun \<Rightarrow> bool" where
  "latest_kept s \<longleftrightarrow>
     (let snap = sdk_snapshot (rr_set s) in
      case rr_pc s of
        Sending x \<Rightarrow> rr_ready s \<and> x = snap
      | Draining x \<Rightarrow> rr_ready s \<and> x = snap
      | _ \<Rightarrow> if rr_ready s then rr_out s = Some snap \<or> rr_out s = None \<and> rr_state s = Some (toAddresses snap)
             else rr_out s = None \<and> rr_state s = None)"

lemma latest_kept_step: "resolver_step s s' \<Longrightarrow> latest_kept s \<Longrightarrow> latest_kept s'"
  by (erule resolver_stepE) (auto simp: latest_kept_def reader_recv_def Let_def split: reader_pc.splits if_splits)

definition read_so_far :: "pb_WatchResponse list \<Rightarrow> ResolverRun \<Rightarrow> bool" where
  "read_so_far msgs s \<longleftrightarrow> (\<exists>past. msgs = past @ rr_stream s \<and>
     rr_set s = sw_set (fold sdk_recv past sdk_init) \<and> rr_ready s = sw_ready (fold sdk_recv past sdk_init))"

lemma read_so_far_step: "resolver_step s s' \<Longrightarrow> read_so_far msgs s \<Longrightarrow> read_so_far msgs s'"
proof (erule resolver_stepE)
  fix r rs
  assume s': "s' = reader_recv r (s\<lparr>rr_stream := rs\<rparr>)" and rs: "rr_stream s = r # rs" and so_far: "read_so_far msgs s"
  then obtain past where past: "msgs = past @ r # rs" "rr_set s = sw_set (fold sdk_recv past sdk_init)"
      "rr_ready s = sw_ready (fold sdk_recv past sdk_init)"
    by (auto simp: read_so_far_def)
  then have "msgs = (past @ [r]) @ rr_stream s'" "rr_set s' = sw_set (fold sdk_recv (past @ [r]) sdk_init)"
      "rr_ready s' = sw_ready (fold sdk_recv (past @ [r]) sdk_init)"
    by (simp_all add: s' reader_recv_def sdk_recv_def Let_def)
  then show "read_so_far msgs s'" unfolding read_so_far_def by blast
qed (auto simp: read_so_far_def)

lemma resolver_invariant:
  "resolver_step\<^sup>*\<^sup>* (resolver_init msgs) s \<Longrightarrow> latest_kept s \<and> read_so_far msgs s"
proof (induction rule: rtranclp_induct)
  case base
  have "msgs = [] @ rr_stream (resolver_init msgs)" by (simp add: resolver_init_def)
  then have "read_so_far msgs (resolver_init msgs)"
    unfolding read_so_far_def by (intro exI [of _ "[]"]) (simp add: resolver_init_def sdk_init_def)
  then show ?case by (simp add: latest_kept_def resolver_init_def Let_def)
next
  case (step s t)
  then show ?case using latest_kept_step read_so_far_step by blast
qed

text \<open>
  While the reader is in \<^verbatim>\<open>emit\<close>, every step of either loop brings the end of \<^verbatim>\<open>emit\<close> closer: a consumer that never reads,
  or reads at any moment, does not hold it up for more than four steps.
\<close>

definition emit_left :: "ResolverRun \<Rightarrow> nat" where
  "emit_left s =
     (case rr_pc s of
        Sending _ \<Rightarrow> (if rr_out s = None then 1 else 4)
      | Draining _ \<Rightarrow> (if rr_out s = None then 2 else 3)
      | _ \<Rightarrow> 0)"

theorem emit_ends:
  "emit_left s > 0 \<Longrightarrow> (\<exists>s'. resolver_step s s') \<and> (\<forall>s'. resolver_step s s' \<longrightarrow> emit_left s' < emit_left s)"
proof
  assume e: "emit_left s > 0"
  show "\<exists>s'. resolver_step s s'"
    using e by (cases "rr_pc s"; cases "rr_out s") (auto simp: emit_left_def intro: resolver_step.intros)
  show "\<forall>s'. resolver_step s s' \<longrightarrow> emit_left s' < emit_left s"
  proof (intro allI impI)
    fix s' assume "resolver_step s s'"
    then show "emit_left s' < emit_left s"
      using e by cases (auto simp: emit_left_def split: reader_pc.splits if_splits)
  qed
qed

section \<open>The end of the stream\<close>

text \<open>
  The resolver does not open a second stream. Once the first has failed, as when the agent restarts, nothing is received any more,
  the balancer is given at most the set that was still in the channel, and the loop ends; \<^verbatim>\<open>ResolveNow\<close> does nothing.
\<close>

lemma closed_step:
  "resolver_step s s' \<Longrightarrow> rr_pc s = ChannelClosed \<Longrightarrow>
   rr_pc s' = ChannelClosed \<and> rr_set s' = rr_set s \<and> rr_stream s' = rr_stream s \<and> (rr_out s = None \<longrightarrow> rr_out s' = None \<and> rr_state s' = rr_state s)"
  by (erule resolver_stepE) (auto simp: reader_recv_def)

theorem resolver_never_recovers:
  "resolver_step\<^sup>*\<^sup>* s s' \<Longrightarrow> rr_pc s = ChannelClosed \<Longrightarrow> rr_out s = None \<Longrightarrow>
   rr_state s' = rr_state s \<and> rr_set s' = rr_set s \<and> rr_pc s' = ChannelClosed \<and> rr_out s' = None"
proof (induction rule: rtranclp_induct)
  case (step y z)
  then show ?case using closed_step [OF step(2)] by simp
qed simp

section \<open>Following an agent\<close>

text \<open>The resolver can always come to rest: each message is received, delivered and taken.\<close>

lemma one_message:
  assumes "rr_pc s = Receiving" "rr_out s = None" "\<not> rr_done s" "rr_stream s = r # rs"
  shows "\<exists>s'. resolver_step\<^sup>*\<^sup>* s s' \<and> rr_pc s' = Receiving \<and> rr_out s' = None \<and> \<not> rr_done s' \<and> rr_stream s' = rs"
proof -
  let ?s1 = "reader_recv r (s\<lparr>rr_stream := rs\<rparr>)"
  have one: "resolver_step s ?s1" using assms by (intro resolver_step.recv)
  have f: "rr_out ?s1 = None" "\<not> rr_done ?s1" "rr_stream ?s1 = rs" using assms by (simp_all add: reader_recv_def Let_def)
  show ?thesis
  proof (cases "rr_pc ?s1")
    case (Sending snap)
    let ?s2 = "?s1\<lparr>rr_out := Some snap, rr_pc := Receiving\<rparr>"
    have two: "resolver_step ?s1 ?s2" using Sending f(1) by (rule resolver_step.send)
    have "resolver_step ?s2 (?s2\<lparr>rr_out := None, rr_state := Some (toAddresses snap)\<rparr>)"
      using f(2) by (intro resolver_step.update) simp_all
    with one two have "resolver_step\<^sup>*\<^sup>* s (?s2\<lparr>rr_out := None, rr_state := Some (toAddresses snap)\<rparr>)"
      by (meson converse_rtranclp_into_rtranclp rtranclp.rtrancl_refl)
    then show ?thesis using f by (intro exI conjI) (assumption, simp_all)
  qed (use one f in \<open>auto simp: reader_recv_def Let_def split: if_splits\<close>)
qed

lemma comes_to_rest:
  "rr_pc s = Receiving \<Longrightarrow> rr_out s = None \<Longrightarrow> \<not> rr_done s \<Longrightarrow>
   \<exists>s'. resolver_step\<^sup>*\<^sup>* s s' \<and> rr_pc s' = Receiving \<and> rr_stream s' = [] \<and> rr_out s' = None"
proof (induction "rr_stream s" arbitrary: s)
  case (Cons r rs)
  obtain s1 where s1: "resolver_step\<^sup>*\<^sup>* s s1" "rr_pc s1 = Receiving" "rr_out s1 = None" "\<not> rr_done s1" "rr_stream s1 = rs"
    using one_message [OF Cons.prems Cons.hyps(2) [symmetric]] by blast
  from Cons.hyps(1) [OF s1(5) [symmetric] s1(2-4)] s1(1) show ?case by (meson rtranclp_trans)
qed auto



end
