(* ===== verification/FakeClock.thy ===== *)
theory FakeClock
  imports Prelude
begin

text \<open>
  \<^verbatim>\<open>internal/clock/fake.go\<close>: the deterministic clock behind the \<^verbatim>\<open>Clock\<close> interface of \<^verbatim>\<open>internal/clock/clock.go\<close>. A waiter is
  shared between the queue of the clock and the timer or ticker handed out, so the waiters are cells of a heap
  and the queue, a \<open>Timer\<close> and a \<open>Ticker\<close> hold the number of a cell. A channel of capacity one is an option.
  A panic is \<open>None\<close>. The lock makes every operation atomic. Shown: the queue names each live waiter once,
  \<^verbatim>\<open>Advance\<close> acts on each waiter on its own, a timer fires exactly when its deadline is reached, with the
  deadline as value, a ticker stays in phase.
\<close>

section \<open>The clock\<close>

record waiter =
  wt_until :: time
  wt_period :: duration
  wt_ch :: "time option"
  wt_stopped :: bool

record Fake =
  fk_now :: time
  fk_heap :: "waiter list"
  fk_waiters :: "nat list"

definition NewFake :: "time \<Rightarrow> Fake" where
  "NewFake t = \<lparr>fk_now = t, fk_heap = [], fk_waiters = []\<rparr>"

definition Fake_Since :: "Fake \<Rightarrow> time \<Rightarrow> duration" where
  "Fake_Since f t = time_Sub (fk_now f) t"

definition fake_send :: "time option \<Rightarrow> time \<Rightarrow> time option" where
  "fake_send ch t = (case ch of None \<Rightarrow> Some t | Some v \<Rightarrow> Some v)"

definition newWaiter :: "duration \<Rightarrow> duration \<Rightarrow> Fake \<Rightarrow> nat \<times> Fake" where
  "newWaiter d period f =
     (let w = \<lparr>wt_until = fk_now f + d, wt_period = period, wt_ch = None, wt_stopped = False\<rparr>;
          i = length (fk_heap f) in
      if d \<le> 0 \<and> period = 0 then (i, f\<lparr>fk_heap := fk_heap f @ [w\<lparr>wt_ch := Some (fk_now f)\<rparr>]\<rparr>)
      else (i, f\<lparr>fk_heap := fk_heap f @ [w], fk_waiters := fk_waiters f @ [i]\<rparr>))"

definition Fake_NewTimer :: "duration \<Rightarrow> Fake \<Rightarrow> nat \<times> Fake" where
  "Fake_NewTimer d f = newWaiter d 0 f"

text \<open>\<^verbatim>\<open>After\<close> hands out the channel of the same waiter; \<^verbatim>\<open>Sleep\<close> receives from it.\<close>

definition Fake_After :: "duration \<Rightarrow> Fake \<Rightarrow> nat \<times> Fake" where
  "Fake_After d f = newWaiter d 0 f"

definition Fake_NewTicker :: "duration \<Rightarrow> Fake \<Rightarrow> (nat \<times> Fake) option" where
  "Fake_NewTicker d f = (if d \<le> 0 then None else Some (newWaiter d d f))"

text \<open>The ticks of a ticker up to \<open>now\<close>.\<close>

function tick_loop :: "time \<Rightarrow> waiter \<Rightarrow> waiter" where
  "tick_loop now w =
     (if wt_period w > 0 \<and> \<not> wt_until w > now
      then tick_loop now (w\<lparr>wt_ch := fake_send (wt_ch w) (wt_until w), wt_until := wt_until w + wt_period w\<rparr>)
      else w)"
  by pat_completeness auto
termination
  by (relation "measure (\<lambda>(now, w). nat (now + 1 - wt_until w))") auto

declare tick_loop.simps [simp del]

text \<open>One turn of the loop of \<^verbatim>\<open>Advance\<close>: the waiter, and whether it is kept.\<close>

definition advance_waiter :: "time \<Rightarrow> waiter \<Rightarrow> waiter \<times> bool" where
  "advance_waiter now w =
     (if wt_stopped w then (w, False)
      else if wt_period w > 0 then (tick_loop now w, True)
      else if \<not> wt_until w > now then (w\<lparr>wt_ch := fake_send (wt_ch w) (wt_until w)\<rparr>, False)
      else (w, True))"

fun advance_loop :: "time \<Rightarrow> nat list \<Rightarrow> waiter list \<Rightarrow> waiter list \<times> nat list" where
  "advance_loop now [] heap = (heap, [])"
| "advance_loop now (i # is) heap =
     (case advance_waiter now (heap ! i) of (w, keep) \<Rightarrow>
        case advance_loop now is (heap[i := w]) of (heap', kept) \<Rightarrow> (heap', if keep then i # kept else kept))"

definition Advance :: "duration \<Rightarrow> Fake \<Rightarrow> Fake" where
  "Advance d f =
     (let now = fk_now f + d in
      case advance_loop now (fk_waiters f) (fk_heap f) of (heap, kept) \<Rightarrow>
        f\<lparr>fk_now := now, fk_heap := heap, fk_waiters := kept\<rparr>)"

definition activeLocked :: "Fake \<Rightarrow> nat" where
  "activeLocked f = length (filter (\<lambda>i. \<not> wt_stopped (fk_heap f ! i)) (fk_waiters f))"

text \<open>Whether \<^verbatim>\<open>BlockUntil\<close> returns in this state or waits for the next broadcast.\<close>

definition BlockUntil_returns :: "int \<Rightarrow> Fake \<Rightarrow> bool" where
  "BlockUntil_returns n f \<longleftrightarrow> \<not> int (activeLocked f) < n"

definition ensureQueuedLocked :: "nat \<Rightarrow> nat list \<Rightarrow> nat list" where
  "ensureQueuedLocked i ws = (if i \<in> set ws then ws else ws @ [i])"

section \<open>Timers and tickers\<close>

text \<open>A receive from the channel of a timer or ticker that does not wait.\<close>

definition recv_C :: "nat \<Rightarrow> Fake \<Rightarrow> time option \<times> Fake" where
  "recv_C i f = (wt_ch (fk_heap f ! i), f\<lparr>fk_heap := (fk_heap f)[i := (fk_heap f ! i)\<lparr>wt_ch := None\<rparr>]\<rparr>)"

definition fakeTimer_Stop :: "nat \<Rightarrow> Fake \<Rightarrow> bool \<times> Fake" where
  "fakeTimer_Stop i f =
     (let w = fk_heap f ! i; active = (\<not> wt_stopped w) in
      (active, f\<lparr>fk_heap := (fk_heap f)[i := w\<lparr>wt_stopped := True\<rparr>]\<rparr>))"

definition fakeTimer_Reset :: "nat \<Rightarrow> duration \<Rightarrow> Fake \<Rightarrow> bool \<times> Fake" where
  "fakeTimer_Reset i d f =
     (let w = fk_heap f ! i; active = (\<not> wt_stopped w) in
      (active, f\<lparr>fk_heap := (fk_heap f)[i := w\<lparr>wt_stopped := False, wt_period := 0, wt_until := fk_now f + d\<rparr>],
                 fk_waiters := ensureQueuedLocked i (fk_waiters f)\<rparr>))"

definition fakeTicker_Stop :: "nat \<Rightarrow> Fake \<Rightarrow> Fake" where
  "fakeTicker_Stop i f = f\<lparr>fk_heap := (fk_heap f)[i := (fk_heap f ! i)\<lparr>wt_stopped := True\<rparr>]\<rparr>"

definition fakeTicker_Reset :: "nat \<Rightarrow> duration \<Rightarrow> Fake \<Rightarrow> Fake option" where
  "fakeTicker_Reset i d f =
     (if d \<le> 0 then None
      else Some (f\<lparr>fk_heap := (fk_heap f)[i := (fk_heap f ! i)\<lparr>wt_stopped := False, wt_period := d, wt_until := fk_now f + d\<rparr>],
                   fk_waiters := ensureQueuedLocked i (fk_waiters f)\<rparr>))"

section \<open>The loop of Advance, waiter by waiter\<close>

lemma advance_loop_queue:
  "distinct is \<Longrightarrow> snd (advance_loop now is heap) = filter (\<lambda>i. snd (advance_waiter now (heap ! i))) is"
proof (induction "is" arbitrary: heap)
  case (Cons i "is")
  have "filter (\<lambda>j. snd (advance_waiter now (heap[i := w] ! j))) is = filter (\<lambda>j. snd (advance_waiter now (heap ! j))) is" for w
    using Cons.prems by (intro filter_cong refl) (metis distinct.simps(2) nth_list_update_neq)
  then show ?case using Cons by (simp add: split_beta)
qed simp

lemma advance_loop_length [simp]: "length (fst (advance_loop now is heap)) = length heap"
  by (induction "is" arbitrary: heap) (simp_all add: split_beta)

lemma advance_loop_nth:
  "distinct is \<Longrightarrow> i < length heap \<Longrightarrow>
   fst (advance_loop now is heap) ! i = (if i \<in> set is then fst (advance_waiter now (heap ! i)) else heap ! i)"
proof (induction "is" arbitrary: heap)
  case (Cons j "is")
  then show ?case by (cases "i = j") (auto simp: split_beta nth_list_update_neq)
qed simp

definition fake_inv :: "Fake \<Rightarrow> bool" where
  "fake_inv f \<longleftrightarrow> distinct (fk_waiters f) \<and> (\<forall>i \<in> set (fk_waiters f). i < length (fk_heap f))
     \<and> (\<forall>w \<in> set (fk_heap f). wt_period w \<ge> 0)
     \<and> (\<forall>i < length (fk_heap f). \<not> wt_stopped (fk_heap f ! i) \<and> wt_period (fk_heap f ! i) > 0 \<longrightarrow> i \<in> set (fk_waiters f))"

lemma tick_loop_frame:
  "wt_period (tick_loop now w) = wt_period w \<and> wt_stopped (tick_loop now w) = wt_stopped w"
proof (induction now w rule: tick_loop.induct)
  case (1 now w)
  then show ?case by (subst (1 2) tick_loop.simps) simp
qed

lemma tick_loop_until:
  "wt_period w > 0 \<Longrightarrow> wt_until w - wt_period w \<le> now \<Longrightarrow>
   now < wt_until (tick_loop now w) \<and> wt_until (tick_loop now w) \<le> now + wt_period w
   \<and> wt_until (tick_loop now w) mod wt_period w = wt_until w mod wt_period w"
proof (induction now w rule: tick_loop.induct)
  case (1 now w)
  show ?case
  proof (cases "wt_until w > now")
    case True
    then show ?thesis using 1(3) by (subst (1 2 3) tick_loop.simps) simp
  next
    case False
    then show ?thesis using 1 by (subst (1 2 3) tick_loop.simps) simp
  qed
qed

lemma tick_loop_ch:
  "wt_period w > 0 \<Longrightarrow> wt_ch (tick_loop now w) = (if wt_until w > now then wt_ch w else fake_send (wt_ch w) (wt_until w))"
proof (induction now w rule: tick_loop.induct)
  case (1 now w)
  then show ?case
    by (subst tick_loop.simps) (auto simp: fake_send_def split: option.splits)
qed

lemma advance_waiter_frame:
  "wt_period (fst (advance_waiter now w)) = wt_period w \<and> wt_stopped (fst (advance_waiter now w)) = wt_stopped w"
  by (auto simp: advance_waiter_def tick_loop_frame)

lemma Advance_nth:
  "fake_inv f \<Longrightarrow> i < length (fk_heap f) \<Longrightarrow>
   fk_heap (Advance d f) ! i =
     (if i \<in> set (fk_waiters f) then fst (advance_waiter (fk_now f + d) (fk_heap f ! i)) else fk_heap f ! i)"
  by (simp add: Advance_def Let_def split_beta advance_loop_nth fake_inv_def)

lemma Advance_queue:
  "fake_inv f \<Longrightarrow>
   fk_waiters (Advance d f) = filter (\<lambda>i. snd (advance_waiter (fk_now f + d) (fk_heap f ! i))) (fk_waiters f)"
  by (simp add: Advance_def Let_def split_beta advance_loop_queue fake_inv_def)

lemma Advance_now [simp]: "fk_now (Advance d f) = fk_now f + d"
  and Advance_length [simp]: "length (fk_heap (Advance d f)) = length (fk_heap f)"
  by (simp_all add: Advance_def Let_def split_beta)

section \<open>Every reachable clock is well formed\<close>

inductive fake_step :: "Fake \<Rightarrow> Fake \<Rightarrow> bool" where
  step_NewTimer: "fake_step f (snd (Fake_NewTimer d f))"
| step_NewTicker: "Fake_NewTicker d f = Some (i, f') \<Longrightarrow> fake_step f f'"
| step_Advance: "fake_step f (Advance d f)"
| step_recv: "i < length (fk_heap f) \<Longrightarrow> fake_step f (snd (recv_C i f))"
| step_TimerStop: "i < length (fk_heap f) \<Longrightarrow> fake_step f (snd (fakeTimer_Stop i f))"
| step_TimerReset: "i < length (fk_heap f) \<Longrightarrow> fake_step f (snd (fakeTimer_Reset i d f))"
| step_TickerStop: "i < length (fk_heap f) \<Longrightarrow> fake_step f (fakeTicker_Stop i f)"
| step_TickerReset: "i < length (fk_heap f) \<Longrightarrow> fakeTicker_Reset i d f = Some f' \<Longrightarrow> fake_step f f'"

lemma fake_inv_update:
  assumes "fake_inv f" "i < length (fk_heap f)" "wt_period w \<ge> 0"
    and "\<not> wt_stopped w \<and> wt_period w > 0 \<longrightarrow> i \<in> set ws"
    and "ws = fk_waiters f \<or> ws = ensureQueuedLocked i (fk_waiters f)"
  shows "fake_inv (f\<lparr>fk_heap := (fk_heap f)[i := w], fk_waiters := ws\<rparr>)"
proof -
  have "distinct ws" "\<forall>j \<in> set ws. j < length (fk_heap f)" "set (fk_waiters f) \<subseteq> set ws"
    using assms(1,2,5) by (auto simp: fake_inv_def ensureQueuedLocked_def split: if_splits)
  moreover have "\<forall>v \<in> set ((fk_heap f)[i := w]). wt_period v \<ge> 0"
    using assms(1,3) set_update_subset_insert [of "fk_heap f" i w] by (auto simp: fake_inv_def)
  ultimately show ?thesis
    using assms(1,2,4) by (auto simp: fake_inv_def nth_list_update)
qed

lemma fake_inv_cell:
  assumes "fake_inv f" "i < length (fk_heap f)" "wt_period w = wt_period (fk_heap f ! i)"
    and "wt_stopped w \<or> wt_stopped w = wt_stopped (fk_heap f ! i)"
  shows "fake_inv (f\<lparr>fk_heap := (fk_heap f)[i := w]\<rparr>)"
proof -
  have "wt_period w \<ge> 0" "\<not> wt_stopped w \<and> wt_period w > 0 \<longrightarrow> i \<in> set (fk_waiters f)"
    using assms by (auto simp: fake_inv_def)
  then have "fake_inv (f\<lparr>fk_heap := (fk_heap f)[i := w], fk_waiters := fk_waiters f\<rparr>)"
    using assms(1,2) by (intro fake_inv_update) simp_all
  moreover have "f\<lparr>fk_heap := (fk_heap f)[i := w], fk_waiters := fk_waiters f\<rparr> = f\<lparr>fk_heap := (fk_heap f)[i := w]\<rparr>"
    by (cases f) simp
  ultimately show ?thesis by simp
qed

lemma fake_inv_Advance: "fake_inv f \<Longrightarrow> fake_inv (Advance d f)"
proof -
  assume inv: "fake_inv f"
  let ?f = "Advance d f"
  have p: "wt_period (fk_heap ?f ! i) = wt_period (fk_heap f ! i)" "wt_stopped (fk_heap ?f ! i) = wt_stopped (fk_heap f ! i)"
    if "i < length (fk_heap f)" for i
    using Advance_nth [OF inv that] advance_waiter_frame by auto
  have "\<forall>w \<in> set (fk_heap ?f). wt_period w \<ge> 0"
    using inv p by (auto simp: fake_inv_def all_set_conv_all_nth)
  moreover have "i \<in> set (fk_waiters ?f)"
    if "i < length (fk_heap f)" "\<not> wt_stopped (fk_heap f ! i)" "wt_period (fk_heap f ! i) > 0" for i
    using that inv by (auto simp: Advance_queue fake_inv_def advance_waiter_def)
  ultimately show ?thesis
    using inv p by (auto simp: fake_inv_def Advance_queue [OF inv])
qed

lemma fake_inv_newWaiter: "fake_inv f \<Longrightarrow> period \<ge> 0 \<Longrightarrow> fake_inv (snd (newWaiter d period f))"
  by (auto simp: fake_inv_def newWaiter_def Let_def nth_append less_Suc_eq dest: less_imp_neq)

lemma fake_inv_step: "fake_step f f' \<Longrightarrow> fake_inv f \<Longrightarrow> fake_inv f'"
proof (induction rule: fake_step.induct)
  case (step_NewTicker d f i f')
  then show ?case using fake_inv_newWaiter [of f d d] by (auto simp: Fake_NewTicker_def split: if_splits)
next
  case (step_recv i f)
  then show ?case by (simp add: recv_C_def fake_inv_cell)
next
  case (step_TimerStop i f)
  then show ?case by (simp add: fakeTimer_Stop_def Let_def fake_inv_cell)
next
  case (step_TickerStop i f)
  then show ?case by (simp add: fakeTicker_Stop_def fake_inv_cell)
next
  case (step_TimerReset i f d)
  then show ?case
    using fake_inv_update [OF step_TimerReset(2,1), of _ "ensureQueuedLocked i (fk_waiters f)"]
    by (simp add: fakeTimer_Reset_def Let_def)
next
  case (step_TickerReset i f d f')
  then show ?case
    using fake_inv_update [OF step_TickerReset(3,1), of _ "ensureQueuedLocked i (fk_waiters f)"]
    by (auto simp: fakeTicker_Reset_def ensureQueuedLocked_def split: if_splits)
qed (simp_all add: fake_inv_Advance fake_inv_newWaiter Fake_NewTimer_def)

theorem fake_reachable: "fake_step\<^sup>*\<^sup>* (NewFake t) f \<Longrightarrow> fake_inv f"
proof (induction rule: rtranclp_induct)
  case base
  show ?case by (simp add: fake_inv_def NewFake_def)
qed (rule fake_inv_step)

section \<open>When timers and tickers fire\<close>

text \<open>A timer that has not fired stays queued with its deadline ahead; one that has fired keeps its value.\<close>

definition timer_state :: "nat \<Rightarrow> time \<Rightarrow> Fake \<Rightarrow> bool" where
  "timer_state i deadline f \<longleftrightarrow> fake_inv f \<and> i < length (fk_heap f) \<and>
     (let w = fk_heap f ! i in \<not> wt_stopped w \<and> wt_period w = 0 \<and> wt_until w = deadline \<and>
      (if deadline \<le> fk_now f then wt_ch w = Some deadline else wt_ch w = None \<and> i \<in> set (fk_waiters f)))"

lemma timer_state_Advance: "timer_state i t f \<Longrightarrow> d \<ge> 0 \<Longrightarrow> timer_state i t (Advance d f)"
  using fake_inv_Advance [of f d]
  by (auto simp: timer_state_def Let_def Advance_nth Advance_queue advance_waiter_def fake_send_def split: if_splits)

lemma timer_state_fold: "timer_state i t f \<Longrightarrow> \<forall>d \<in> set ds. d \<ge> 0 \<Longrightarrow> timer_state i t (fold Advance ds f)"
  by (induction ds arbitrary: f) (auto intro: timer_state_Advance)

lemma fold_Advance_now [simp]: "fk_now (fold Advance ds f) = fk_now f + sum_list ds"
  by (induction ds arbitrary: f) simp_all

text \<open>
  A timer armed for \<open>d > 0\<close> on any reachable clock has fired, with its deadline as the value, exactly when the clock has been
  advanced by \<open>d\<close> in all, in however many steps.
\<close>

theorem timer_fires:
  assumes "fake_inv f" "d > 0" "\<forall>x \<in> set ds. x \<ge> 0" "Fake_NewTimer d f = (i, f')"
  shows "wt_ch (fk_heap (fold Advance ds f') ! i) = (if d \<le> sum_list ds then Some (fk_now f + d) else None)"
proof -
  have "timer_state i (fk_now f + d) f'"
    using assms fake_inv_newWaiter [of f 0 d]
    by (auto simp: timer_state_def Let_def Fake_NewTimer_def newWaiter_def)
  then have "timer_state i (fk_now f + d) (fold Advance ds f')" using assms(3) by (rule timer_state_fold)
  moreover have "fk_now f' = fk_now f" using assms(2,4) by (auto simp: Fake_NewTimer_def newWaiter_def Let_def)
  ultimately show ?thesis by (auto simp: timer_state_def Let_def split: if_splits)
qed

definition ticker_state :: "nat \<Rightarrow> time \<Rightarrow> duration \<Rightarrow> Fake \<Rightarrow> bool" where
  "ticker_state i start p f \<longleftrightarrow> fake_inv f \<and> i < length (fk_heap f) \<and> i \<in> set (fk_waiters f) \<and>
     (let w = fk_heap f ! i in \<not> wt_stopped w \<and> wt_period w = p \<and> fk_now f < wt_until w \<and> wt_until w \<le> fk_now f + p
      \<and> (wt_until w - start) mod p = 0)"

lemma ticker_state_Advance: "p > 0 \<Longrightarrow> d \<ge> 0 \<Longrightarrow> ticker_state i start p f \<Longrightarrow> ticker_state i start p (Advance d f)"
proof -
  assume a: "p > 0" "d \<ge> 0" "ticker_state i start p f"
  let ?w = "fk_heap f ! i"
  have "(u - start) mod p = (wt_until ?w - start) mod p" if "u mod p = wt_until ?w mod p" for u
    using that by (metis mod_diff_left_eq)
  moreover have "fk_heap (Advance d f) ! i = tick_loop (fk_now f + d) ?w" "i \<in> set (fk_waiters (Advance d f))"
    using a by (auto simp: ticker_state_def Let_def Advance_nth Advance_queue advance_waiter_def)
  moreover have "wt_period ?w = p" "wt_until ?w - p \<le> fk_now f + d" "(wt_until ?w - start) mod p = 0"
    "fake_inv f" "i < length (fk_heap f)" "\<not> wt_stopped ?w"
    using a by (simp_all add: ticker_state_def Let_def)
  ultimately show ?thesis
    using a(1) fake_inv_Advance [of f d] tick_loop_frame [of "fk_now f + d" ?w] tick_loop_until [of ?w "fk_now f + d"]
    by (simp add: ticker_state_def Let_def)
qed

text \<open>
  A ticker stays in phase with the instant it was made: however the clock is advanced, its next deadline is the first
  multiple of the period that lies ahead.
\<close>

theorem ticker_in_phase:
  assumes "fake_inv f" "\<forall>x \<in> set ds. x \<ge> 0" "Fake_NewTicker p f = Some (i, f')"
  shows "wt_until (fk_heap (fold Advance ds f') ! i) = fk_now f + p * (sum_list ds div p + 1)"
proof -
  have p: "p > 0" and f': "(i, f') = newWaiter p p f" using assms(3) by (auto simp: Fake_NewTicker_def split: if_splits)
  have now: "fk_now f' = fk_now f" using f' p by (auto simp: newWaiter_def Let_def)
  have init: "ticker_state i (fk_now f) p f'"
    using f' p assms(1) fake_inv_newWaiter [of f p p] by (auto simp: ticker_state_def Let_def newWaiter_def)
  have "ticker_state i (fk_now f) p (fold Advance ds f')"
    using init assms(2) by (induction ds arbitrary: f') (auto simp: p ticker_state_Advance)
  then obtain k where "wt_until (fk_heap (fold Advance ds f') ! i) - fk_now f = p * k"
    and b: "sum_list ds < p * k" "p * k \<le> sum_list ds + p"
    using now by (auto simp: ticker_state_def Let_def mod_eq_0_iff_dvd dvd_def)
  moreover have "k = sum_list ds div p + 1"
  proof -
    have "sum_list ds = p * (k - 1) + (sum_list ds - p * (k - 1))" "0 \<le> sum_list ds - p * (k - 1)"
      "sum_list ds - p * (k - 1) < p"
      using b by (simp_all add: algebra_simps)
    then have "sum_list ds div p = k - 1" using int_div_pos_eq by blast
    then show ?thesis by simp
  qed
  ultimately show ?thesis by simp
qed

section \<open>Where the fake differs from the timers of the library\<close>

text \<open>\<^verbatim>\<open>Stop\<close> on a timer that has fired answers true, and a timer reset to zero does not fire.\<close>

lemma fake_timer_differs:
  "case Fake_NewTimer 5 (NewFake 0) of (i, f) \<Rightarrow>
     wt_ch (fk_heap (Advance 5 f) ! i) = Some 5 \<and> fst (fakeTimer_Stop i (Advance 5 f))
     \<and> wt_ch (fk_heap (snd (fakeTimer_Reset i 0 f)) ! i) = None"
  by (simp add: Fake_NewTimer_def NewFake_def newWaiter_def Let_def Advance_def advance_waiter_def fake_send_def
      fakeTimer_Stop_def fakeTimer_Reset_def)

end
