(* ===== verification/Spec2Isabelle.thy ===== *)
theory Spec2Isabelle
  imports Leases Commands ClientLib FakeClock
begin

text \<open>
  \<^bold>\<open>yellow-pages: a verification of the service discovery daemon.\<close>

  yellow-pages (\<^verbatim>\<open>src/\<close>, written in Go) is one binary with two roles. A \<^emph>\<open>seed\<close> keeps a registry of service
  instances in memory, each under a lease, and serves it over gRPC, a Consul-compatible HTTP API and DNS. An \<^emph>\<open>agent\<close>
  runs beside the applications of a node: it registers their services on all its seeds, renews their leases, checks their health, and answers
  reads from a cache filled by asking all seeds and merging the answers by last writer wins. Seeds do not
  agree on a log; a seed catches up with its peers by pulling their registries and merging them.

  \<^bold>\<open>How the code is modelled.\<close> A Go struct is a record, an enumeration a datatype, a map a finite map, an unsigned integer a word of its width,
  a duration and a point in time an integer number of nanoseconds (with the saturation and wrap-around of Go's arithmetic where the code is exposed to it),
  a string a list of bytes. A method that changes its receiver returns it; an error is a value of a sum or an option; a call that reads the
  clock takes the instant; a method whose result depends on the order in which Go ranges over a map takes that order. A mutex makes the body of
  a method one step, so executions are sequences of steps (inductive relations such as
  \<open>mem_step\<close>, \<open>wait_step\<close>, \<open>agent_step\<close>). Names follow the source: \<open>Memory_Register\<close> is \<^verbatim>\<open>(*Memory).Register\<close>. Third-party code (gRPC, YAML,
  DNS messages, TLS) and the world (files, network, processes, random bytes) are arguments; the Go standard library is modelled where the code uses it.

  \<^bold>\<open>Foundations.\<close>
  \<^item> \<open>Prelude\<close>: finite maps and how Go ranges over them, 64-bit durations and their arithmetic, list lemmas, the theorem collections.
  \<^item> \<open>GoStrings\<close>, \<open>GoTime\<close>, \<open>GoNet\<close>, \<open>GoCrypto\<close>: what is used of \<^verbatim>\<open>strings\<close>, \<^verbatim>\<open>strconv\<close>, \<^verbatim>\<open>time\<close>, \<^verbatim>\<open>net\<close>, \<^verbatim>\<open>encoding/base64\<close>, \<^verbatim>\<open>encoding/binary\<close>,
    \<^verbatim>\<open>crypto/sha256\<close> and \<^verbatim>\<open>crypto/hmac\<close>, with the round trips of splitting, decimal numbers, durations, base64 and big-endian integers.

  \<^bold>\<open>The registry of a seed\<close> (\<^verbatim>\<open>internal/model\<close>, \<^verbatim>\<open>internal/health\<close>, \<^verbatim>\<open>internal/store\<close>).
  \<^item> \<open>Model\<close>, \<open>Lww\<close>, \<open>Health\<close>: instances, the last-writer-wins order and the merge of answers. \<open>Lww\<close> holds the locale of
    selections by a comparison, which \<open>Health\<close> and \<open>Store_Merge\<close> interpret; the merge keeps exactly one unbeaten version of every instance.
  \<^item> \<open>Store\<close>: the whole of \<^verbatim>\<open>store.go\<close> and one tick of \<^verbatim>\<open>gcloop.go\<close>. \<open>Store_View\<close> has the effect of each write on the two views of the registry,
    \<open>Store_Steps\<close> decomposes every operation into atomic steps, \<open>Store_Inv\<close> proves the invariant of all reachable registries and that the change
    stream replays to the registry, \<open>Store_Lookup\<close> what a lookup answers, \<open>Store_Ops\<close> registration and renewal, \<open>Store_GC\<close> expiry and removal,
    \<open>Store_Merge\<close> that merging is the last-writer-wins join and that seeds that exchange their registries converge.
  \<^item> \<open>Watch\<close>: \<^verbatim>\<open>internal/watch\<close>, blocking queries and subscriptions; no wake-up between a check and the sleep is lost, indexes never go back.

  \<^bold>\<open>The gRPC service\<close>: \<open>Protoconv\<close> (\<^verbatim>\<open>internal/protoconv\<close>, the wire round trip), \<open>Cred\<close> (\<^verbatim>\<open>internal/cred\<close>, identities, tokens, the node id),
  \<open>Server\<close> (\<^verbatim>\<open>internal/server\<close>, handlers, the interceptors and the watch stream), \<open>RateLimit\<close> (\<^verbatim>\<open>internal/ratelimit\<close>): under \<^verbatim>\<open>enforce\<close> a caller changes only its own node, a watch
  has no gap, the status of every error, at most the limit in a window.

  \<^bold>\<open>The agent\<close>: \<open>SeedClient\<close> (fan-out to all seeds, with links that lose requests or replies), \<open>Cache\<close>, \<open>Proxy\<close>, \<open>Agent\<close>, \<open>AgentWatch\<close>, \<open>ClientLib\<close> (\<^verbatim>\<open>internal/seedclient\<close>,
  \<^verbatim>\<open>internal/federation\<close>, \<^verbatim>\<open>client/\<close>), \<open>Healthcheck\<close> (\<^verbatim>\<open>internal/healthcheck\<close>), \<open>SeedProvider\<close> (\<^verbatim>\<open>internal/resolver\<close>): a read merges what the reachable seeds hold, an agent reads its own writes,
  a cached answer is never older than the bound, a watch through the agent follows the merged registry in every interleaving of the client's loops, a failing check lets the lease lapse.

  \<^bold>\<open>The Consul surfaces\<close>: \<open>ConsulFilter\<close>, \<open>ConsulTypes\<close>, \<open>ConsulHttp\<close>, \<open>Consul\<close> (\<^verbatim>\<open>internal/consul\<close>), \<open>ConsulDns\<close>, \<open>Dns\<close> (\<^verbatim>\<open>internal/consuldns\<close>). The handlers are polymorphic in the registry behind them, as in Go;
  the locale \<open>registry_reads\<close> states what they rely on and is interpreted on the seed's and on the agent's registry. Reads refine the registry, writes are owned, the
  filter language prints and parses, DNS names and answers are those of the registry.

  \<^bold>\<open>A node as a whole\<close>: \<open>Config\<close> (\<^verbatim>\<open>internal/config\<close>), \<open>Bootstrap\<close> (\<^verbatim>\<open>internal/bootstrap\<close> and its commands), \<open>CertReload\<close> (certificate rotation), \<open>Syncer\<close> (\<^verbatim>\<open>internal/membership\<close>), \<open>App\<close> (\<^verbatim>\<open>internal/app\<close>
  and the servers' life), \<open>Wiring\<close> (\<^verbatim>\<open>cmd/yp/root.go\<close>), \<open>Loops\<close> (the \<^verbatim>\<open>Start\<close> methods), \<open>Leases\<close> (the renew loop against the leases of a seed), \<open>Commands\<close> (\<^verbatim>\<open>cmd/yp\<close>, TLS settings), \<open>Migrate\<close> (\<^verbatim>\<open>internal/migrate\<close>): a configuration loads exactly when it is well typed; a token admits a node for its lifetime and the configuration served
  carries no secret and loads; an agent that is alive keeps its services on the seeds it reaches; a shutdown drains; an import is complete.

  \<^bold>\<open>Around the node\<close>: \<open>Observability\<close> (\<^verbatim>\<open>internal/observability\<close>, the interceptor chain, the counters and the propagation indicators): no panic of a handler leaves the chain and each
  call is observed once. \<open>FakeClock\<close> (\<^verbatim>\<open>internal/clock/fake.go\<close>): timers fire exactly at their deadline, tickers stay in phase.

  \<^bold>\<open>Bounds and fuel.\<close> Every function is total. The parser of filter expressions runs on fuel \<open>filter_fuel\<close>, four times the number of tokens and four: each
  call of the recursive descent consumes a token within four nested calls, and \<open>filter_terminates\<close> proves that it never runs out. The other recursions are structural or have a measure.
  Counters of events are unbounded naturals where Go has \<^verbatim>\<open>int\<close>; indexes are 64-bit words and the theorems say where wrap-around is excluded.

  \<^bold>\<open>Not modelled.\<close> The generated protobuf code (records with its fields stand for it); the Prometheus registry and its endpoint, the text of log lines other than the access, audit and panic lines; the system clock, which forwards to the library; the sockets, HTTP and DNS servers
  beyond how they start and stop; the command line parser; \<^verbatim>\<open>internal/transport\<close>, which appends options for gRPC. Go's memory model: steps under a mutex are
  atomic and interleave, unsynchronised accesses are not considered. \<^verbatim>\<open>time.ParseDuration\<close> rounds fractions exactly where Go multiplies in floating point.
  The URL of an HTTP request is the cleaned path, which \<^verbatim>\<open>ServeMux\<close> redirects to.
\<close>

end
